(* ===== verification/Prelude.thy ===== *)
theory Prelude
  imports Main "HOL-Library.AList" "HOL-Library.Sublist"
begin

text \<open>
  Shared vocabulary of the development.

  A Python \<open>dict\<close> is an association list with distinct keys, in insertion order: \<open>dict_get\<close>,
  \<open>dict_set\<close> (replace in place, or append) and \<open>dict_del\<close> are the three primitives every
  component uses.  Their laws are the locale \<open>dictionary\<close>, interpreted here on the list model, so
  that the clients reason from the laws and not from the list.
\<close>

named_theorems dict_simps \<open>laws of dictionaries\<close>
named_theorems inv_intros \<open>each operation keeps the invariant of its component\<close>

type_synonym ('k, 'v) dict = "('k \<times> 'v) list"

definition dict_get :: "('k, 'v) dict \<Rightarrow> 'k \<Rightarrow> 'v option" where
  "dict_get d k = map_of d k"

definition dict_set :: "('k, 'v) dict \<Rightarrow> 'k \<Rightarrow> 'v \<Rightarrow> ('k, 'v) dict" where
  "dict_set d k v = AList.update k v d"

definition dict_del :: "('k, 'v) dict \<Rightarrow> 'k \<Rightarrow> ('k, 'v) dict" where
  "dict_del d k = AList.delete k d"

definition dict_keys :: "('k, 'v) dict \<Rightarrow> 'k list" where
  "dict_keys d = map fst d"

definition dict_values :: "('k, 'v) dict \<Rightarrow> 'v list" where
  "dict_values d = map snd d"

definition dict_mem :: "('k, 'v) dict \<Rightarrow> 'k \<Rightarrow> bool" where
  "dict_mem d k = (dict_get d k \<noteq> None)"

definition dict_ok :: "('k, 'v) dict \<Rightarrow> bool" where
  "dict_ok d = distinct (map fst d)"

text \<open>Rewriting every value in place, as a loop \<open>for k, v in d.items(): d[k] = f v\<close> does.\<close>

definition dict_map :: "('k \<Rightarrow> 'v \<Rightarrow> 'v) \<Rightarrow> ('k, 'v) dict \<Rightarrow> ('k, 'v) dict" where
  "dict_map f d = map (\<lambda>(k, v). (k, f k v)) d"

definition dict_filter :: "('k \<Rightarrow> 'v \<Rightarrow> bool) \<Rightarrow> ('k, 'v) dict \<Rightarrow> ('k, 'v) dict" where
  "dict_filter p d = filter (\<lambda>(k, v). p k v) d"

subsection \<open>The dictionary interface\<close>

locale dictionary =
  fixes get :: "'d \<Rightarrow> 'k \<Rightarrow> 'v option"
    and set_key :: "'d \<Rightarrow> 'k \<Rightarrow> 'v \<Rightarrow> 'd"
    and del_key :: "'d \<Rightarrow> 'k \<Rightarrow> 'd"
    and keys_of :: "'d \<Rightarrow> 'k list"
    and ok :: "'d \<Rightarrow> bool"
  assumes get_set: "get (set_key d k v) k' = (if k' = k then Some v else get d k')"
    and get_del: "ok d \<Longrightarrow> get (del_key d k) k' = (if k' = k then None else get d k')"
    and set_keys: "set (keys_of d) = {k. get d k \<noteq> None}"
    and ok_set: "ok d \<Longrightarrow> ok (set_key d k v)"
    and ok_del: "ok d \<Longrightarrow> ok (del_key d k)"
begin

lemma get_set_same: "get (set_key d k v) k = Some v"
  by (simp add: get_set)

lemma get_set_other: "k' \<noteq> k \<Longrightarrow> get (set_key d k v) k' = get d k'"
  by (simp add: get_set)

lemma keys_set: "set (keys_of (set_key d k v)) = insert k (set (keys_of d))"
  by (auto simp: set_keys get_set)

lemma keys_del: "ok d \<Longrightarrow> set (keys_of (del_key d k)) = set (keys_of d) - {k}"
  by (auto simp: set_keys get_del)

text \<open>Storing a list of pairs: the last pair with a key wins, and other keys keep their value.\<close>

lemma get_set_all:
  "get (fold (\<lambda>(k, v) d. set_key d k v) ps d) k
     = (case map_of (rev ps) k of Some v \<Rightarrow> Some v | None \<Rightarrow> get d k)"
proof (induction ps arbitrary: d)
  case Nil
  then show ?case by simp
next
  case (Cons p ps)
  obtain a b where p: "p = (a, b)" by fastforce
  show ?case
    using Cons.IH[of "set_key d a b"]
    by (auto simp: p get_set map_add_def split: option.splits)
qed

lemma ok_set_all: "ok d \<Longrightarrow> ok (fold (\<lambda>(k, v) d. set_key d k v) ps d)"
  by (induction ps arbitrary: d) (auto simp: ok_set split: prod.splits)

end

lemma dict_get_Nil [simp]: "dict_get [] k = None"
  by (simp add: dict_get_def)

lemma dict_get_set: "dict_get (dict_set d k v) k' = (if k' = k then Some v else dict_get d k')"
  by (simp add: dict_get_def dict_set_def update_conv')

lemma dict_get_del_ok: "dict_get (dict_del d k) k' = (if k' = k then None else dict_get d k')"
  by (simp add: dict_get_def dict_del_def delete_conv')

lemma dict_keys_get: "set (dict_keys d) = {k. dict_get d k \<noteq> None}"
  by (simp add: dict_keys_def dict_get_def dom_map_of_conv_image_fst[symmetric] dom_def)

lemma dict_ok_Nil [simp]: "dict_ok []"
  by (simp add: dict_ok_def)

lemma dict_ok_set: "dict_ok d \<Longrightarrow> dict_ok (dict_set d k v)"
  by (simp add: dict_ok_def dict_set_def distinct_update)

lemma dict_ok_del: "dict_ok d \<Longrightarrow> dict_ok (dict_del d k)"
  by (simp add: dict_ok_def dict_del_def distinct_delete)

interpretation pydict: dictionary dict_get dict_set dict_del dict_keys dict_ok
  by unfold_locales (auto simp: dict_get_set dict_get_del_ok dict_keys_get dict_ok_set dict_ok_del)

lemmas dict_laws [dict_simps] =
  dict_get_set dict_get_del_ok pydict.get_set_same pydict.get_set_other pydict.keys_set

lemma dict_mem_set [dict_simps]: "dict_mem (dict_set d k v) k' = (k' = k \<or> dict_mem d k')"
  by (simp add: dict_mem_def dict_get_set)

lemma dict_mem_del [dict_simps]: "dict_mem (dict_del d k) k' = (k' \<noteq> k \<and> dict_mem d k')"
  by (simp add: dict_mem_def dict_get_del_ok)

lemma dict_set_same: "dict_get d k = Some v \<Longrightarrow> dict_set d k v = d"
  by (induction d) (auto simp: dict_get_def dict_set_def split: if_splits)

lemma dict_set_length: "dict_get d k = Some v \<Longrightarrow> length (dict_set d k w) = length d"
  by (induction d) (auto simp: dict_get_def dict_set_def split: if_splits)

lemma dict_set_length_new: "dict_get d k = None \<Longrightarrow> length (dict_set d k w) = Suc (length d)"
  by (induction d) (auto simp: dict_get_def dict_set_def split: if_splits)

lemma dict_mem_keys: "k \<in> set (dict_keys d) \<longleftrightarrow> dict_mem d k"
  by (simp add: dict_keys_get dict_mem_def)

lemma dict_get_items: "dict_ok d \<Longrightarrow> (k, v) \<in> set d \<longleftrightarrow> dict_get d k = Some v"
  by (simp add: dict_ok_def dict_get_def)

lemma dict_get_in: "dict_get d k = Some v \<Longrightarrow> (k, v) \<in> set d"
  by (simp add: dict_get_def map_of_SomeD)

lemma dict_get_map [dict_simps]: "dict_get (dict_map f d) k = map_option (f k) (dict_get d k)"
  by (induction d) (auto simp: dict_map_def dict_get_def)

lemma dict_keys_map [simp]: "dict_keys (dict_map f d) = dict_keys d"
  by (induction d) (auto simp: dict_map_def dict_keys_def)

lemma dict_ok_map [simp]: "dict_ok (dict_map f d) = dict_ok d"
  using dict_keys_map[of f d] by (simp add: dict_ok_def dict_keys_def)

lemma dict_ok_filter [simp]: "dict_ok d \<Longrightarrow> dict_ok (dict_filter p d)"
  by (simp add: dict_ok_def dict_filter_def distinct_map_filter)

lemma dict_get_filter:
  assumes "dict_ok d"
  shows "dict_get (dict_filter p d) k
           = (case dict_get d k of None \<Rightarrow> None | Some v \<Rightarrow> if p k v then Some v else None)"
  using assms
proof (induction d)
  case Nil
  then show ?case by (simp add: dict_filter_def)
next
  case (Cons x d)
  obtain a b where x: "x = (a, b)" by fastforce
  have "a \<notin> fst ` set d" using Cons.prems by (simp add: x dict_ok_def)
  then have "map_of (filter (\<lambda>(k, v). p k v) d) a = None" and "map_of d a = None"
    by (auto simp: map_of_eq_None_iff)
  with Cons show ?case
    by (auto simp: x dict_filter_def dict_get_def dict_ok_def)
qed

lemma fold_del_get:
  "dict_get (fold (\<lambda>k d. dict_del d k) ks d) k = (if k \<in> set ks then None else dict_get d k)"
  by (induction ks arbitrary: d) (auto simp: dict_simps)

subsection \<open>Folding an invariant over a loop\<close>

text \<open>A loop \<open>for x in xs: s = f(x, s)\<close> keeps what each turn keeps.\<close>

lemma fold_invariant_on:
  "P s \<Longrightarrow> (\<And>x s. x \<in> set xs \<Longrightarrow> P s \<Longrightarrow> P (f x s)) \<Longrightarrow> P (fold f xs s)"
  by (induction xs arbitrary: s) auto

lemma filter_le_length: "length (filter p xs) \<le> length xs"
  by simp

subsection \<open>Things owned by a session\<close>

text \<open>The contract of an owned thing: no operation of another session changes it or its owner.  The
  read-only keys of the store and the locks of the instruments are both of this kind.\<close>

locale owned_by_session =
  fixes step :: "'op \<Rightarrow> int \<Rightarrow> 's \<Rightarrow> 's"
    and owner :: "'s \<Rightarrow> 'k \<Rightarrow> int option"
    and content :: "'s \<Rightarrow> 'k \<Rightarrow> 'v"
    and inv :: "'s \<Rightarrow> bool"
  assumes inv_step: "inv s \<Longrightarrow> inv (step a sid s)"
    and owner_kept: "inv s \<Longrightarrow> owner s k = Some own \<Longrightarrow> sid \<noteq> own \<Longrightarrow> owner (step a sid s) k = Some own"
    and content_kept: "inv s \<Longrightarrow> owner s k = Some own \<Longrightarrow> sid \<noteq> own \<Longrightarrow> content (step a sid s) k = content s k"
begin

text \<open>A history of operations, each with the session that asks for it.\<close>

lemma history_inv: "inv s \<Longrightarrow> inv (fold (\<lambda>(a, sid). step a sid) h s)"
  by (rule fold_invariant_on[where P = inv]) (auto intro: inv_step)

lemma history_keeps:
  "inv s \<Longrightarrow> owner s k = Some own \<Longrightarrow> list_all (\<lambda>(a, sid). sid \<noteq> own) h \<Longrightarrow>
   owner (fold (\<lambda>(a, sid). step a sid) h s) k = Some own
   \<and> content (fold (\<lambda>(a, sid). step a sid) h s) k = content s k"
proof (induction h arbitrary: s)
  case Nil
  then show ?case by simp
next
  case (Cons x h)
  obtain a sid where x: "x = (a, sid)" by fastforce
  from Cons.prems have "sid \<noteq> own" by (simp add: x)
  with Cons.IH[OF inv_step[OF Cons.prems(1)] owner_kept[OF Cons.prems(1,2)]]
    content_kept[OF Cons.prems(1,2)] Cons.prems(3)
  show ?case by (simp add: x)
qed

end

end
