(* ===== verification/PyText.thy ===== *)
theory PyText
  imports Prelude "HOL-Library.Char_ord" "HOL-Library.List_Lexorder"
begin

text \<open>
  Python text.  A \<open>str\<close> is modelled by its UTF-8 encoding, a list of bytes (\<open>char\<close>); \<open>bytes\<close> are
  the same type, \<open>s.encode('utf-8')\<close> is the identity and \<open>b.decode('utf-8')\<close> is the validity test
  \<open>utf8_valid\<close> (\<open>None\<close> is \<open>UnicodeDecodeError\<close>).  Concatenation, \<open>startswith\<close>, search and splitting at
  ASCII separators, and the order \<open>sorted\<close> uses, are the same on the encoding as on code points.

  \<open>upper\<close> and \<open>lower\<close> act on the ASCII letters and leave every other character alone, and the number
  parser reads ASCII digits: command words, flags and numbers are ASCII in this protocol.
\<close>

definition crlf :: string where
  "crlf = [CHR 0x0D, CHR 0x0A]"

abbreviation (input) colon :: char where "colon \<equiv> CHR 0x3A"
abbreviation (input) space :: char where "space \<equiv> CHR 0x20"
abbreviation (input) dquote :: char where "dquote \<equiv> CHR 0x22"
abbreviation (input) squote :: char where "squote \<equiv> CHR 0x27"

subsection \<open>Prefixes and search\<close>

fun startswith :: "string \<Rightarrow> string \<Rightarrow> bool" where
  "startswith s [] = True"
| "startswith [] (p # ps) = False"
| "startswith (c # s) (p # ps) = (c = p \<and> startswith s ps)"

definition endswith :: "string \<Rightarrow> string \<Rightarrow> bool" where
  "endswith s p = startswith (rev s) (rev p)"

fun find_sub :: "string \<Rightarrow> string \<Rightarrow> nat option" where
  "find_sub p [] = (if p = [] then Some 0 else None)"
| "find_sub p (c # s) = (if startswith (c # s) p then Some 0 else map_option Suc (find_sub p s))"

text \<open>\<open>buf.find(p, start)\<close>, with \<open>None\<close> for \<open>-1\<close>; the patterns of the code are not empty.\<close>

definition find_at :: "string \<Rightarrow> string \<Rightarrow> nat \<Rightarrow> nat option" where
  "find_at p s start = map_option (\<lambda>i. start + i) (find_sub p (drop start s))"

definition contains :: "string \<Rightarrow> string \<Rightarrow> bool" where
  "contains s p = (find_sub p s \<noteq> None)"

lemma startswith_iff: "startswith s p \<longleftrightarrow> (\<exists>t. s = p @ t)"
  by (induction s p rule: startswith.induct) auto

lemma startswith_append [simp]: "startswith (p @ t) p"
  by (simp add: startswith_iff)

lemma startswith_self [simp]: "startswith s s"
  by (simp add: startswith_iff)

lemma startswith_mono: "startswith s p \<Longrightarrow> startswith (s @ t) p"
  by (auto simp: startswith_iff)

lemma startswith_append_long: "length p \<le> length s \<Longrightarrow> startswith (s @ t) p = startswith s p"
  by (induction s p rule: startswith.induct) auto

lemma find_sub_bound: "find_sub p s = Some i \<Longrightarrow> i + length p \<le> length s"
proof (induction p s arbitrary: i rule: find_sub.induct)
  case (1 p)
  then show ?case by (auto split: if_splits)
next
  case (2 p c s)
  show ?case
  proof (cases "startswith (c # s) p")
    case True
    with 2 show ?thesis by (auto simp: startswith_iff dest: arg_cong[where f = length])
  next
    case False
    with 2 show ?thesis by (auto split: if_splits)
  qed
qed

lemma find_sub_mono: "find_sub p s = Some i \<Longrightarrow> find_sub p (s @ t) = Some i"
proof (induction p s arbitrary: i rule: find_sub.induct)
  case (1 p)
  then show ?case by (cases t) (auto split: if_splits)
next
  case (2 p c s)
  show ?case
  proof (cases "startswith (c # s) p")
    case True
    then have "startswith ((c # s) @ t) p" by (rule startswith_mono)
    with True 2 show ?thesis by simp
  next
    case False
    with 2 obtain j where j: "find_sub p s = Some j" "i = Suc j" by auto
    then have "length p \<le> length s" using find_sub_bound by fastforce
    then have "\<not> startswith ((c # s) @ t) p"
      using False startswith_append_long[of p "c # s" t] by simp
    with False 2 j show ?thesis by simp
  qed
qed

lemma find_sub_match: "find_sub p s = Some i \<Longrightarrow> startswith (drop i s) p"
  by (induction p s arbitrary: i rule: find_sub.induct) (auto split: if_splits)

lemma find_sub_skip:
  assumes "p = c # q" and "c \<notin> set w"
  shows "find_sub p (w @ s) = map_option (\<lambda>i. length w + i) (find_sub p s)"
  using assms(2) by (cases "find_sub p s"; induction w) (auto simp: assms(1))

lemma find_crlf_skip:
  "CHR 0x0D \<notin> set w \<Longrightarrow> find_sub crlf (w @ crlf @ s) = Some (length w)"
  using find_sub_skip[of crlf "CHR 0x0D" "[CHR 0x0A]" w "crlf @ s"] by (simp add: crlf_def)

subsection \<open>Case\<close>

definition lower_letters :: string where "lower_letters = ''abcdefghijklmnopqrstuvwxyz''"
definition upper_letters :: string where "upper_letters = ''ABCDEFGHIJKLMNOPQRSTUVWXYZ''"

definition translate :: "string \<Rightarrow> string \<Rightarrow> char \<Rightarrow> char" where
  "translate src dst c = (case map_of (zip src dst) c of Some d \<Rightarrow> d | None \<Rightarrow> c)"

definition upper :: "string \<Rightarrow> string" where
  "upper s = map (translate lower_letters upper_letters) s"

definition lower :: "string \<Rightarrow> string" where
  "lower s = map (translate upper_letters lower_letters) s"

subsection \<open>White space\<close>

text \<open>C white space, which \<open>int\<close> and \<open>float\<close> skip, and the characters \<open>str.strip\<close> and \<open>str.split\<close> treat as
  blanks, each as its encoding.\<close>

definition c_blanks :: string where
  "c_blanks = [CHR 0x09, CHR 0x0A, CHR 0x0B, CHR 0x0C, CHR 0x0D, CHR 0x20]"

definition str_blanks :: "string list" where
  "str_blanks =
     map (\<lambda>c. [c]) (c_blanks @ [CHR 0x1C, CHR 0x1D, CHR 0x1E, CHR 0x1F])
     @ [[CHR 0xC2, CHR 0x85], [CHR 0xC2, CHR 0xA0], [CHR 0xE1, CHR 0x9A, CHR 0x80]]
     @ map (\<lambda>c. [CHR 0xE2, CHR 0x80, c])
         [CHR 0x80, CHR 0x81, CHR 0x82, CHR 0x83, CHR 0x84, CHR 0x85, CHR 0x86, CHR 0x87,
          CHR 0x88, CHR 0x89, CHR 0x8A, CHR 0xA8, CHR 0xA9, CHR 0xAF]
     @ [[CHR 0xE2, CHR 0x81, CHR 0x9F], [CHR 0xE3, CHR 0x80, CHR 0x80]]"

text \<open>Dropping blanks from the left; the fuel is the length of the text, and each blank removed is
  at least one byte long.\<close>

fun strip_front :: "nat \<Rightarrow> string list \<Rightarrow> string \<Rightarrow> string" where
  "strip_front 0 bl s = s"
| "strip_front (Suc n) bl s =
     (case find (startswith s) bl of None \<Rightarrow> s | Some w \<Rightarrow> strip_front n bl (drop (length w) s))"

definition lstrip :: "string \<Rightarrow> string" where
  "lstrip s = strip_front (length s) str_blanks s"

definition rstrip :: "string \<Rightarrow> string" where
  "rstrip s = rev (strip_front (length s) (map rev str_blanks) (rev s))"

definition strip :: "string \<Rightarrow> string" where
  "strip s = rstrip (lstrip s)"

definition c_strip :: "string \<Rightarrow> string" where
  "c_strip s = rev (dropWhile (\<lambda>c. c \<in> set c_blanks) (rev (dropWhile (\<lambda>c. c \<in> set c_blanks) s)))"

subsection \<open>Splitting and joining\<close>

text \<open>\<open>s.split(c, 1)\<close>: the part before the first \<open>c\<close>, and the rest when there is one.\<close>

fun split_first :: "char \<Rightarrow> string \<Rightarrow> string \<times> string option" where
  "split_first c [] = ([], None)"
| "split_first c (x # s) =
     (if x = c then ([], Some s) else (case split_first c s of (a, b) \<Rightarrow> (x # a, b)))"

text \<open>\<open>s.rsplit(c, 1)\<close>, as a pair when \<open>c\<close> occurs.\<close>

definition split_last :: "char \<Rightarrow> string \<Rightarrow> string \<times> string option" where
  "split_last c s = (case split_first c (rev s) of
       (a, None) \<Rightarrow> (rev a, None)
     | (a, Some b) \<Rightarrow> (rev b, Some (rev a)))"

fun split_all :: "char \<Rightarrow> string \<Rightarrow> string list" where
  "split_all c [] = [[]]"
| "split_all c (x # s) =
     (if x = c then [] # split_all c s
      else (case split_all c s of [] \<Rightarrow> [[x]] | w # ws \<Rightarrow> (x # w) # ws))"

fun join :: "string \<Rightarrow> string list \<Rightarrow> string" where
  "join sep [] = []"
| "join sep [x] = x"
| "join sep (x # y # xs) = x @ sep @ join sep (y # xs)"

text \<open>\<open>s.split()\<close>: the words between blanks; \<open>cur\<close> is the word being read, reversed.\<close>

fun split_words :: "nat \<Rightarrow> string \<Rightarrow> string \<Rightarrow> string list" where
  "split_words 0 cur s = (if cur = [] then [] else [rev cur])"
| "split_words (Suc n) cur [] = (if cur = [] then [] else [rev cur])"
| "split_words (Suc n) cur (c # s) =
     (case find (startswith (c # s)) str_blanks of
        Some w \<Rightarrow> (if cur = [] then [] else [rev cur]) @ split_words n [] (drop (length w) (c # s))
      | None \<Rightarrow> split_words n (c # cur) s)"

definition words :: "string \<Rightarrow> string list" where
  "words s = split_words (Suc (length s)) [] s"

lemma split_first_notin: "c \<notin> set a \<Longrightarrow> split_first c (a @ c # b) = (a, Some b)"
  by (induction a) auto

lemma split_first_none: "c \<notin> set a \<Longrightarrow> split_first c a = (a, None)"
  by (induction a) auto

lemma split_first_Some: "split_first c s = (a, Some b) \<Longrightarrow> s = a @ c # b \<and> c \<notin> set a"
  by (induction s arbitrary: a) (auto split: if_splits prod.splits)

lemma split_first_None: "split_first c s = (a, None) \<Longrightarrow> s = a \<and> c \<notin> set s"
  by (induction s arbitrary: a) (auto split: if_splits prod.splits)

lemma split_last_notin: "c \<notin> set b \<Longrightarrow> split_last c (a @ c # b) = (a, Some b)"
  using split_first_notin[of c "rev b" "rev a"] by (simp add: split_last_def)


subsection \<open>Integers\<close>

definition digit_chars :: string where "digit_chars = ''0123456789''"

definition digit_char :: "int \<Rightarrow> char" where
  "digit_char n = digit_chars ! nat n"

definition digit_val :: "char \<Rightarrow> int option" where
  "digit_val c = map_of (zip digit_chars [0, 1, 2, 3, 4, 5, 6, 7, 8, 9]) c"

text \<open>The decimal digits of a non-negative integer, and \<open>str(n)\<close>.\<close>

function show_digits :: "int \<Rightarrow> string" where
  "show_digits n = (if n < 10 then [digit_char n] else show_digits (n div 10) @ [digit_char (n mod 10)])"
  by pat_completeness auto
termination
  by (relation "measure nat") auto

declare show_digits.simps [simp del]

definition show_int :: "int \<Rightarrow> string" where
  "show_int n = (if n < 0 then ''-'' @ show_digits (- n) else show_digits n)"

abbreviation show_nat :: "nat \<Rightarrow> string" where
  "show_nat n \<equiv> show_int (int n)"

text \<open>The digits of an integer literal: at least one, single underscores between digits allowed.
  \<open>seen\<close> says that the character just read was a digit.\<close>

fun read_digits :: "int \<Rightarrow> bool \<Rightarrow> string \<Rightarrow> int option" where
  "read_digits acc seen [] = (if seen then Some acc else None)"
| "read_digits acc seen (c # cs) =
     (case digit_val c of
        Some d \<Rightarrow> read_digits (10 * acc + d) True cs
      | None \<Rightarrow> if c = CHR ''_'' \<and> seen then read_digits acc False cs else None)"

text \<open>\<open>int(s)\<close>: blanks around it, an optional sign; \<open>None\<close> is \<open>ValueError\<close>.\<close>

definition read_int :: "string \<Rightarrow> int option" where
  "read_int s = (case c_strip s of
       [] \<Rightarrow> None
     | c # cs \<Rightarrow>
         if c = CHR ''-'' then map_option (\<lambda>n. - n) (read_digits 0 False cs)
         else if c = CHR ''+'' then read_digits 0 False cs
         else read_digits 0 False (c # cs))"

lemma digit_cases: "0 \<le> (n::int) \<Longrightarrow> n < 10 \<Longrightarrow> n \<in> {0, 1, 2, 3, 4, 5, 6, 7, 8, 9}"
  by (simp only: insert_iff empty_iff) presburger

lemma digit_val_char [simp]: "0 \<le> n \<Longrightarrow> n < 10 \<Longrightarrow> digit_val (digit_char n) = Some n"
  using digit_cases[of n] by (auto simp: digit_val_def digit_char_def digit_chars_def)

lemma digit_char_set: "0 \<le> n \<Longrightarrow> n < 10 \<Longrightarrow> digit_char n \<in> set digit_chars"
  using nth_mem[of "nat n" digit_chars] by (simp add: digit_char_def digit_chars_def)

lemma show_digits_chars: "0 \<le> n \<Longrightarrow> set (show_digits n) \<subseteq> set digit_chars"
proof (induction n rule: show_digits.induct)
  case (1 n)
  then show ?case by (subst show_digits.simps) (auto simp: digit_char_set)
qed

lemma show_digits_nonempty [simp]: "show_digits n \<noteq> []"
  by (subst show_digits.simps) simp

lemma read_digits_append_digit:
  "read_digits acc seen s = Some v \<Longrightarrow> 0 \<le> d \<Longrightarrow> d < 10 \<Longrightarrow>
   read_digits acc seen (s @ [digit_char d]) = Some (10 * v + d)"
  by (induction acc seen s rule: read_digits.induct) (auto split: option.splits if_splits)

lemma read_digits_show: "0 \<le> n \<Longrightarrow> read_digits 0 False (show_digits n) = Some n"
proof (induction n rule: show_digits.induct)
  case (1 n)
  show ?case
  proof (cases "n < 10")
    case True
    with 1 show ?thesis by (subst show_digits.simps) simp
  next
    case False
    with 1 have "read_digits 0 False (show_digits (n div 10)) = Some (n div 10)" by simp
    then have "read_digits 0 False (show_digits (n div 10) @ [digit_char (n mod 10)])
                 = Some (10 * (n div 10) + n mod 10)"
      by (rule read_digits_append_digit) simp_all
    with False show ?thesis by (subst show_digits.simps) simp
  qed
qed

text \<open>Text without blanks is not changed by stripping.\<close>

lemma c_strip_id: "set s \<inter> set c_blanks = {} \<Longrightarrow> c_strip s = s"
proof -
  assume s: "set s \<inter> set c_blanks = {}"
  have "dropWhile (\<lambda>c. c \<in> set c_blanks) t = t" if "set t \<subseteq> set s" for t
    using s that by (cases t) auto
  then show "c_strip s = s" by (simp add: c_strip_def)
qed

lemma digits_not_blank: "set digit_chars \<inter> set c_blanks = {}"
  by (simp add: digit_chars_def c_blanks_def)

lemma show_int_chars: "set (show_int n) \<subseteq> insert (CHR ''-'') (set digit_chars)"
  using show_digits_chars[of n] show_digits_chars[of "- n"] by (auto simp: show_int_def)

lemma show_int_not_blank: "set (show_int n) \<inter> set c_blanks = {}"
  using show_int_chars[of n] digits_not_blank by (auto simp: c_blanks_def)

lemma show_digits_head:
  "0 \<le> n \<Longrightarrow> show_digits n = c # cs \<Longrightarrow> c \<noteq> CHR ''-'' \<and> c \<noteq> CHR ''+''"
  using show_digits_chars[of n] by (auto simp: digit_chars_def)

theorem read_int_show_int [simp]: "read_int (show_int n) = Some n"
proof -
  have c: "c_strip (show_int n) = show_int n"
    by (rule c_strip_id[OF show_int_not_blank])
  show ?thesis
  proof (cases "n < 0")
    case True
    then have "show_int n = CHR ''-'' # show_digits (- n)" by (simp add: show_int_def)
    with c True show ?thesis by (simp add: read_int_def read_digits_show)
  next
    case False
    then have e: "show_int n = show_digits n" by (simp add: show_int_def)
    obtain x xs where x: "show_digits n = x # xs" by (cases "show_digits n") auto
    from show_digits_head[OF _ x] c e x False show ?thesis
      using read_digits_show[of n] by (simp add: read_int_def)
  qed
qed

lemma crlf_not_in_show_int: "CHR 0x0D \<notin> set (show_int n)"
  using show_int_not_blank[of n] by (auto simp: c_blanks_def)

lemma show_int_nonempty [simp]: "show_int n \<noteq> []"
  by (simp add: show_int_def)

subsection \<open>UTF-8\<close>

definition byte :: "char \<Rightarrow> nat" where
  "byte c = of_char c"

abbreviation in_range :: "nat \<Rightarrow> nat \<Rightarrow> nat \<Rightarrow> bool" where
  "in_range lo hi n \<equiv> lo \<le> n \<and> n \<le> hi"

abbreviation cont_byte :: "char \<Rightarrow> bool" where
  "cont_byte c \<equiv> in_range 0x80 0xBF (byte c)"

text \<open>The byte sequences \<open>bytes.decode('utf-8')\<close> accepts (strict mode: no over-long form, no
  surrogate, nothing above U+10FFFF).\<close>

definition utf8_conts :: "char \<Rightarrow> nat option" where
  "utf8_conts a =
     (if byte a < 0x80 then Some 0
      else if in_range 0xC2 0xDF (byte a) then Some 1
      else if in_range 0xE0 0xEF (byte a) then Some 2
      else if in_range 0xF0 0xF4 (byte a) then Some 3
      else None)"

definition utf8_second :: "char \<Rightarrow> string \<Rightarrow> bool" where
  "utf8_second a cs = (case cs of [] \<Rightarrow> True | b # _ \<Rightarrow>
     if byte a = 0xE0 then 0xA0 \<le> byte b
     else if byte a = 0xED then byte b \<le> 0x9F
     else if byte a = 0xF0 then 0x90 \<le> byte b
     else if byte a = 0xF4 then byte b \<le> 0x8F
     else True)"

function utf8_valid :: "string \<Rightarrow> bool" where
  "utf8_valid [] = True"
| "utf8_valid (a # s) =
     (case utf8_conts a of
        None \<Rightarrow> False
      | Some n \<Rightarrow> n \<le> length s \<and> list_all cont_byte (take n s) \<and> utf8_second a (take n s)
                  \<and> utf8_valid (drop n s))"
  by pat_completeness auto
termination
  by (relation "measure length") auto

definition utf8_decode :: "string \<Rightarrow> string option" where
  "utf8_decode b = (if utf8_valid b then Some b else None)"

definition ascii :: "string \<Rightarrow> bool" where
  "ascii s = (\<forall>c \<in> set s. byte c < 0x80)"

lemma utf8_valid_ascii: "ascii s \<Longrightarrow> utf8_valid s"
  by (induction s) (auto simp: ascii_def utf8_conts_def utf8_second_def)

lemma utf8_valid_append: "utf8_valid s \<Longrightarrow> utf8_valid t \<Longrightarrow> utf8_valid (s @ t)"
  by (induction s rule: utf8_valid.induct) (auto split: option.splits)

lemma utf8_valid_suffix: "utf8_valid p \<Longrightarrow> utf8_valid (p @ t) \<Longrightarrow> utf8_valid t"
  by (induction p rule: utf8_valid.induct) (auto split: option.splits)

lemma utf8_conts_lead: "utf8_conts a = Some n \<Longrightarrow> \<not> cont_byte a"
  by (auto simp: utf8_conts_def split: if_splits)

lemma utf8_valid_head: "utf8_valid (c # t) \<Longrightarrow> \<not> cont_byte c"
  using utf8_conts_lead[of c] by (auto split: option.splits)

lemma utf8_drop_conts: "utf8_valid s \<Longrightarrow> dropWhile cont_byte s = s"
  using utf8_valid_head by (cases s) (auto simp del: utf8_valid.simps)

lemma utf8_valid_tail:
  assumes "utf8_valid (a # s)"
  shows "utf8_valid (dropWhile cont_byte s)"
proof -
  obtain n where n: "list_all cont_byte (take n s)" "utf8_valid (drop n s)"
    using assms by (auto split: option.splits)
  have "dropWhile cont_byte (take n s @ drop n s) = dropWhile cont_byte (drop n s)"
    using n(1) by (intro dropWhile_append2) (auto simp: list_all_iff)
  with n(2) show ?thesis by (simp add: utf8_drop_conts)
qed

lemma utf8_valid_before_ascii: "utf8_valid (p @ c # t) \<Longrightarrow> byte c < 0x80 \<Longrightarrow> utf8_valid p"
proof (induction p rule: utf8_valid.induct)
  case 1
  then show ?case by simp
next
  case (2 a s)
  then obtain n where n: "utf8_conts a = Some n" "n \<le> length (s @ c # t)" "list_all cont_byte (take n (s @ c # t))"
      "utf8_second a (take n (s @ c # t))" "utf8_valid (drop n (s @ c # t))"
    by (auto split: option.splits)
  have le: "n \<le> length s"
  proof (rule ccontr)
    assume "\<not> n \<le> length s"
    then have "c \<in> set (take n (s @ c # t))" by (cases "n - length s") auto
    with n(3) have "cont_byte c" unfolding list_all_iff by blast
    with 2(3) show False by simp
  qed
  with n 2(1)[OF n(1)] 2(3) show ?case by (simp del: list_all_append)
qed

text \<open>The characters of a text, each as the bytes of its encoding: a byte that is not a continuation
  byte starts a character.\<close>

function characters :: "string \<Rightarrow> string list" where
  "characters [] = []"
| "characters (a # s) = (a # takeWhile cont_byte s) # characters (dropWhile cont_byte s)"
  by pat_completeness auto
termination
  by (relation "measure length") (auto simp: le_imp_less_Suc length_dropWhile_le)

end
