(* ===== verification/PyFloat.thy ===== *)
theory PyFloat
  imports PyText
begin

text \<open>
  Python \<open>float\<close>s: IEEE binary64 with round-half-even, on integers.  A finite float is a sign, a
  mantissa \<open>m\<close> and an exponent \<open>e\<close> for \<open>m * 2 ^ e\<close>; every arithmetic operation computes the exact
  ratio and rounds it once (\<open>f_round\<close>).  \<open>read_float\<close> is \<open>float(s)\<close>, \<open>show_float\<close> is \<open>repr\<close> (the shortest
  decimal that reads back), \<open>show_fixed p\<close> is the format \<open>.pf\<close>.
\<close>

datatype pyfloat = FNan | FInf bool | FFin bool int int

function bit_len :: "int \<Rightarrow> int" where
  "bit_len n = (if n \<le> 0 then 0 else 1 + bit_len (n div 2))"
  by pat_completeness auto
termination
  by (relation "measure nat") auto

declare bit_len.simps [simp del]

text \<open>The ratio \<open>num / den\<close> divided by \<open>b ^ e\<close>, as a ratio of naturals.\<close>

definition scale_ratio :: "int \<Rightarrow> int \<Rightarrow> int \<Rightarrow> int \<Rightarrow> int \<times> int" where
  "scale_ratio b num den e =
     (if 0 \<le> e then (num, den * b ^ nat e) else (num * b ^ nat (- e), den))"

definition half_even :: "int \<times> int \<Rightarrow> int" where
  "half_even pq = (case pq of (p, q) \<Rightarrow>
     (let d = p div q; r = p mod q
      in if 2 * r < q then d else if q < 2 * r then d + 1 else if even d then d else d + 1))"

text \<open>The float nearest to \<open>num / den\<close>.\<close>

definition f_round :: "bool \<Rightarrow> int \<Rightarrow> int \<Rightarrow> pyfloat" where
  "f_round neg num den =
     (if num = 0 then FFin neg 0 0
      else let e0 = bit_len num - bit_len den - 53;
               e1 = (case scale_ratio 2 num den e0 of (p, q) \<Rightarrow> if 2 ^ 53 \<le> p div q then e0 + 1 else e0);
               e = max e1 (- 1074);
               m = half_even (scale_ratio 2 num den e)
           in if 1024 < e + bit_len m then FInf neg else FFin neg m e)"

definition f_ratio :: "int \<Rightarrow> int \<Rightarrow> int \<times> int" where
  "f_ratio m e = scale_ratio 2 m 1 (- e)"

subsection \<open>Comparison and arithmetic\<close>

definition f_signed :: "bool \<Rightarrow> int \<Rightarrow> int \<Rightarrow> int" where
  "f_signed neg m k = (if neg then - m else m) * 2 ^ nat k"

fun f_lt :: "pyfloat \<Rightarrow> pyfloat \<Rightarrow> bool" where
  "f_lt (FFin s m e) (FFin s' m' e') =
     (let c = min e e' in f_signed s m (e - c) < f_signed s' m' (e' - c))"
| "f_lt (FInf s) (FFin _ _ _) = s"
| "f_lt (FFin _ _ _) (FInf s) = (\<not> s)"
| "f_lt (FInf s) (FInf s') = (s \<and> \<not> s')"
| "f_lt _ _ = False"

definition f_of_int :: "int \<Rightarrow> pyfloat" where
  "f_of_int n = f_round (n < 0) \<bar>n\<bar> 1"

text \<open>The float nearest to the integer \<open>n\<close> times \<open>2 ^ e\<close>.\<close>

definition f_of_scaled :: "int \<Rightarrow> int \<Rightarrow> pyfloat" where
  "f_of_scaled n e = (case f_ratio \<bar>n\<bar> e of (p, q) \<Rightarrow> f_round (n < 0) p q)"

fun f_neg :: "pyfloat \<Rightarrow> pyfloat" where
  "f_neg (FFin s m e) = FFin (\<not> s) m e"
| "f_neg (FInf s) = FInf (\<not> s)"
| "f_neg FNan = FNan"

fun f_add :: "pyfloat \<Rightarrow> pyfloat \<Rightarrow> pyfloat" where
  "f_add (FFin s m e) (FFin s' m' e') =
     (if m = 0 \<and> m' = 0 then FFin (s \<and> s') 0 0
      else let c = min e e' in f_of_scaled (f_signed s m (e - c) + f_signed s' m' (e' - c)) c)"
| "f_add (FInf s) (FInf s') = (if s = s' then FInf s else FNan)"
| "f_add (FInf s) (FFin _ _ _) = FInf s"
| "f_add (FFin _ _ _) (FInf s) = FInf s"
| "f_add _ _ = FNan"

definition f_sub :: "pyfloat \<Rightarrow> pyfloat \<Rightarrow> pyfloat" where
  "f_sub x y = f_add x (f_neg y)"

text \<open>Multiplication and division by a positive integer constant.\<close>

fun f_times :: "pyfloat \<Rightarrow> int \<Rightarrow> pyfloat" where
  "f_times (FFin s m e) k = (case f_ratio (m * k) e of (p, q) \<Rightarrow> f_round s p q)"
| "f_times x k = x"

fun f_over :: "pyfloat \<Rightarrow> int \<Rightarrow> pyfloat" where
  "f_over (FFin s m e) k = (case f_ratio m e of (p, q) \<Rightarrow> f_round s p (q * k))"
| "f_over x k = x"

text \<open>\<open>int(x)\<close>: towards zero; \<open>None\<close> where Python raises.\<close>

fun f_trunc :: "pyfloat \<Rightarrow> int option" where
  "f_trunc (FFin s m e) =
     (case f_ratio m e of (p, q) \<Rightarrow> Some (if s then - (p div q) else p div q))"
| "f_trunc _ = None"

subsection \<open>Reading\<close>

text \<open>A run of digits that may be empty: its value and how many digits it has.\<close>

definition read_run :: "string \<Rightarrow> (int \<times> nat) option" where
  "read_run s = (if s = [] then Some (0, 0)
     else map_option (\<lambda>v. (v, length (filter (\<lambda>c. digit_val c \<noteq> None) s))) (read_digits 0 False s))"

definition split_sign :: "string \<Rightarrow> bool \<times> string" where
  "split_sign s = (case s of
       [] \<Rightarrow> (False, [])
     | c # cs \<Rightarrow> if c = CHR ''-'' then (True, cs) else if c = CHR ''+'' then (False, cs) else (False, s))"

definition read_exponent :: "string option \<Rightarrow> int option" where
  "read_exponent ex = (case ex of None \<Rightarrow> Some 0
     | Some t \<Rightarrow> (case split_sign t of (neg, ds) \<Rightarrow>
         map_option (\<lambda>v. if neg then - v else v) (read_digits 0 False ds)))"

definition read_decimal :: "bool \<Rightarrow> string \<Rightarrow> pyfloat option" where
  "read_decimal neg s =
     (case split_first (CHR ''e'') s of (mant, ex) \<Rightarrow>
      case split_first (CHR ''.'') mant of (ip, fp) \<Rightarrow>
      case (read_run ip, read_run (case fp of None \<Rightarrow> [] | Some f \<Rightarrow> f), read_exponent ex) of
        (Some (i, ni), Some (f, nf), Some x) \<Rightarrow>
          if ni + nf = 0 then None
          else (case scale_ratio 10 (i * 10 ^ nf + f) 1 (int nf - x) of (p, q) \<Rightarrow> Some (f_round neg p q))
      | _ \<Rightarrow> None)"

definition read_float :: "string \<Rightarrow> pyfloat option" where
  "read_float s =
     (case split_sign (lower (c_strip s)) of (neg, t) \<Rightarrow>
        if t = ''inf'' \<or> t = ''infinity'' then Some (FInf neg)
        else if t = ''nan'' then Some FNan
        else read_decimal neg t)"

subsection \<open>Printing\<close>

definition pad_left :: "nat \<Rightarrow> string \<Rightarrow> string" where
  "pad_left n s = replicate (n - length s) (CHR ''0'') @ s"

text \<open>The format \<open>.pf\<close>.\<close>

fun show_fixed :: "nat \<Rightarrow> pyfloat \<Rightarrow> string" where
  "show_fixed p (FFin s m e) =
     (let n = half_even (case f_ratio m e of (a, b) \<Rightarrow> (a * 10 ^ p, b)) in
      (if s then ''-'' else []) @ show_digits (n div 10 ^ p)
      @ (if p = 0 then [] else ''.'' @ pad_left p (show_digits (n mod 10 ^ p))))"
| "show_fixed p (FInf s) = (if s then ''-inf'' else ''inf'')"
| "show_fixed p FNan = ''nan''"

text \<open>The position of the decimal point: \<open>10 ^ (k - 1) <= a / b < 10 ^ k\<close>.\<close>

definition dec_point :: "int \<Rightarrow> int \<Rightarrow> int" where
  "dec_point a b =
     (let k = int (length (show_digits a)) - int (length (show_digits b))
      in case scale_ratio 10 a b k of (p, q) \<Rightarrow> if p < q then k else k + 1)"

text \<open>\<open>a / b\<close> rounded to \<open>n\<close> significant digits: the digits as a number, and the decimal point.\<close>

definition sig_digits :: "nat \<Rightarrow> int \<Rightarrow> int \<Rightarrow> int \<times> int" where
  "sig_digits n a b =
     (let k = dec_point a b; d = half_even (scale_ratio 10 a b (k - int n))
      in if d = 10 ^ n then (10 ^ (n - 1), k + 1) else (d, k))"

definition reads_back :: "int \<Rightarrow> int \<Rightarrow> nat \<Rightarrow> bool" where
  "reads_back m e n =
     (case (case f_ratio m e of (p, q) \<Rightarrow> sig_digits n p q) of (d, k) \<Rightarrow>
        (case scale_ratio 10 d 1 (int n - k) of (p, q) \<Rightarrow>
           \<not> f_lt (f_round False p q) (FFin False m e) \<and> \<not> f_lt (FFin False m e) (f_round False p q)))"

definition show_sci_exp :: "int \<Rightarrow> string" where
  "show_sci_exp x = (if x < 0 then ''e-'' else ''e+'') @ pad_left 2 (show_digits \<bar>x\<bar>)"

definition layout_repr :: "string \<Rightarrow> int \<Rightarrow> string" where
  "layout_repr ds k =
     (if k < - 3 \<or> 16 < k then
        (case ds of [d] \<Rightarrow> [d] | d # rest \<Rightarrow> d # ''.'' @ rest | [] \<Rightarrow> []) @ show_sci_exp (k - 1)
      else if k \<le> 0 then ''0.'' @ replicate (nat (- k)) (CHR ''0'') @ ds
      else if int (length ds) \<le> k then ds @ replicate (nat k - length ds) (CHR ''0'') @ ''.0''
      else take (nat k) ds @ ''.'' @ drop (nat k) ds)"

fun show_float :: "pyfloat \<Rightarrow> string" where
  "show_float (FFin s m e) =
     (if s then ''-'' else []) @
     (if m = 0 then ''0.0''
      else let n = (case find (reads_back m e) [1..<18] of Some n \<Rightarrow> n | None \<Rightarrow> 17)
           in case (case f_ratio m e of (p, q) \<Rightarrow> sig_digits n p q) of (d, k) \<Rightarrow>
                layout_repr (show_digits d) k)"
| "show_float (FInf s) = (if s then ''-inf'' else ''inf'')"
| "show_float FNan = ''nan''"

subsection \<open>Facts\<close>

lemma f_lt_nan_left [simp]: "\<not> f_lt FNan x"
  by (cases x) simp_all

lemma f_lt_nan_right [simp]: "\<not> f_lt x FNan"
  by (cases x) simp_all

lemma f_lt_irrefl [simp]: "\<not> f_lt x x"
  by (cases x) auto

lemma f_signed_shift: "0 \<le> j \<Longrightarrow> 0 \<le> k \<Longrightarrow> f_signed s m (j + k) = f_signed s m j * 2 ^ nat k"
  by (simp add: f_signed_def nat_add_distrib power_add)

lemma f_lt_at:
  assumes "c \<le> e" and "c \<le> e'"
  shows "f_lt (FFin s m e) (FFin s' m' e') = (f_signed s m (e - c) < f_signed s' m' (e' - c))"
proof -
  define d where "d = min e e'"
  have "f_signed s m (e - c) = f_signed s m (e - d) * 2 ^ nat (d - c)"
    and "f_signed s' m' (e' - c) = f_signed s' m' (e' - d) * 2 ^ nat (d - c)"
    using f_signed_shift[of "e - d" "d - c" s m] f_signed_shift[of "e' - d" "d - c" s' m'] assms
    by (auto simp: d_def)
  then show ?thesis by (simp add: d_def Let_def)
qed

lemma f_lt_trans:
  assumes xy: "f_lt x y" and yz: "f_lt y z"
  shows "f_lt x z"
proof -
  have fin: "f_lt (FFin s m e) (FFin t n f)"
    if "f_lt (FFin s m e) (FFin u k g)" and "f_lt (FFin u k g) (FFin t n f)" for s m e u k g t n f
  proof -
    define c where "c = min e (min g f)"
    have "c \<le> e" "c \<le> g" "c \<le> f" by (auto simp: c_def)
    with that show ?thesis by (simp only: f_lt_at)
  qed
  show ?thesis
    using xy yz by (cases x; cases y; cases z) (simp_all del: f_lt.simps(1), erule (1) fin)
qed

end
