(* ===== verification/Environment.thy ===== *)
theory Environment
  imports PyFloat
begin

text \<open>
  What the server relies on and does not define: drivers and the hardware behind them, transports,
  loading of driver code, clocks, files and the sockets of the clients.

  All of it is one value \<open>'w\<close>, the outside world, and the record \<open>env\<close> of the functions that read and
  change it.  Python objects that live outside the server's own code (driver instances, driver
  classes, transports) are handles, natural numbers.  A call returns an \<open>outcome\<close>: a value, a
  \<open>DriverError\<close>, a timeout (of the watchdog, or a \<open>TimeoutError\<close> the call raised itself, which
  \<open>asyncio.TimeoutError\<close> also is) or another exception, with its text.  As the world may hold any
  state, nothing is assumed about two calls giving the same answer.

  Address routing, \<open>testcore/transport.py\<close>'s \<open>resolve_transport\<close>, is modelled here.
\<close>

subsection \<open>Outcomes and exceptions\<close>

datatype 'a outcome = Ret 'a | RaisesDriver string | TimesOut string | Raises string

datatype exn =
    is_IdleError: IdleError string
  | is_NotInitError: NotInitError string
  | is_LockedError: LockedError string
  | is_FaultError: FaultError string
  | is_DriverError: DriverError string
  | is_OtherError: OtherError string

fun exn_text :: "exn \<Rightarrow> string" where
  "exn_text (IdleError e) = e"
| "exn_text (NotInitError e) = e"
| "exn_text (LockedError e) = e"
| "exn_text (FaultError e) = e"
| "exn_text (DriverError e) = e"
| "exn_text (OtherError e) = e"

text \<open>An action reads and changes a state and may raise.\<close>

type_synonym ('a, 's) act = "'s \<Rightarrow> (exn + 'a) \<times> 's"

definition ret :: "'a \<Rightarrow> ('a, 's) act" where
  "ret v s = (Inr v, s)"

definition raise :: "exn \<Rightarrow> ('a, 's) act" where
  "raise e s = (Inl e, s)"

definition bind_ex :: "('a, 's) act \<Rightarrow> ('a \<Rightarrow> ('b, 's) act) \<Rightarrow> ('b, 's) act" where
  "bind_ex m f s = (case m s of (Inl e, s') \<Rightarrow> (Inl e, s') | (Inr v, s') \<Rightarrow> f v s')"

text \<open>\<open>try: m except Exception: h\<close>.\<close>

definition catch :: "('a, 's) act \<Rightarrow> (exn \<Rightarrow> ('a, 's) act) \<Rightarrow> ('a, 's) act" where
  "catch m h s = (case m s of (Inl e, s') \<Rightarrow> h e s' | (Inr v, s') \<Rightarrow> (Inr v, s'))"

definition modify :: "('s \<Rightarrow> 's) \<Rightarrow> (unit, 's) act" where
  "modify u s = (Inr (), u s)"

named_theorems act_simps \<open>unfolding actions\<close>

lemma act_unfold [act_simps]:
  "ret v s = (Inr v, s)"
  "raise e s = (Inl e, s)"
  "modify u s = (Inr (), u s)"
  "bind_ex m f s = (case m s of (Inl e, s') \<Rightarrow> (Inl e, s') | (Inr v, s') \<Rightarrow> f v s')"
  "catch m h s = (case m s of (Inl e, s') \<Rightarrow> h e s' | (Inr v, s') \<Rightarrow> (Inr v, s'))"
  by (simp_all add: ret_def raise_def modify_def bind_ex_def catch_def)

subsection \<open>Transports\<close>

datatype opt_val = OInt int | OFloat pyfloat | OStr string

type_synonym transport_opts = "(string, opt_val) dict"

datatype transport_spec =
    VisaTransport string transport_opts
  | SocketTransport string int transport_opts
  | SerialTransport string transport_opts

text \<open>\<open>s.split('::')\<close>.\<close>

function split_colons :: "string \<Rightarrow> string list" where
  "split_colons s =
     (case find_sub ''::'' s of
        None \<Rightarrow> [s]
      | Some i \<Rightarrow> take i s # split_colons (drop (i + 2) s))"
  by pat_completeness auto
termination
  by (relation "measure length") (auto dest: find_sub_bound)

declare split_colons.simps [simp del]

text \<open>Python's \<open>TypeError\<close> for an option that is also given by position.\<close>

definition clash :: "string \<Rightarrow> string list \<Rightarrow> transport_opts \<Rightarrow> exn option" where
  "clash func positional opts =
     map_option (\<lambda>k. OtherError (func @ ''() got multiple values for argument '' @ squote # k @ [squote]))
       (find (\<lambda>k. k \<in> set positional) (dict_keys opts))"

definition visa_transport :: "string \<Rightarrow> transport_opts \<Rightarrow> exn + transport_spec" where
  "visa_transport address opts =
     (case clash ''VisaTransport.__init__'' [''self'', ''address''] opts of
        Some e \<Rightarrow> Inl e | None \<Rightarrow> Inr (VisaTransport address opts))"

definition socket_transport :: "string \<Rightarrow> int \<Rightarrow> transport_opts \<Rightarrow> exn + transport_spec" where
  "socket_transport host port opts =
     (case clash ''SocketTransport.__init__'' [''self'', ''host'', ''port''] opts of
        Some e \<Rightarrow> Inl e | None \<Rightarrow> Inr (SocketTransport host port opts))"

definition serial_transport :: "string \<Rightarrow> transport_opts \<Rightarrow> exn + transport_spec" where
  "serial_transport port opts =
     (case clash ''SerialTransport.__init__'' [''self'', ''port''] opts of
        Some e \<Rightarrow> Inl e | None \<Rightarrow> Inr (SerialTransport port opts))"

text \<open>\<open>resolve_transport\<close> up to the constructor it calls.\<close>

definition resolve_transport :: "string \<Rightarrow> transport_opts \<Rightarrow> exn + transport_spec" where
  "resolve_transport address opts =
     (case clash ''resolve_transport'' [''address''] opts of
        Some e \<Rightarrow> Inl e
      | None \<Rightarrow>
          let up = upper address in
          if endswith up ''::INSTR'' \<or> endswith up ''::SOCKET'' then visa_transport address opts
          else if startswith up ''GPIB'' \<or> startswith up ''USB'' then visa_transport address opts
          else if startswith up ''COM'' \<or> startswith up ''/DEV/TTY'' then serial_transport address opts
          else if startswith up ''TCPIP'' then
            (case split_colons address of
               _ # host # port # _ \<Rightarrow>
                 (case read_int port of
                    Some n \<Rightarrow> socket_transport host n opts
                  | None \<Rightarrow> visa_transport address opts)
             | _ \<Rightarrow> visa_transport address opts)
          else
            (case split_last colon address of
               (host, Some port) \<Rightarrow>
                 (case read_int port of
                    Some n \<Rightarrow> socket_transport host n opts
                  | None \<Rightarrow> visa_transport address opts)
             | (_, None) \<Rightarrow> visa_transport address opts))"

subsection \<open>The environment\<close>

record connect_config =
  cfg_address :: "string option"
  cfg_transport :: "nat option"

text \<open>Importing a module gives the \<open>BaseDriver\<close> subclasses found in it, in the order of \<open>dir\<close>.\<close>

datatype imported = Module "nat list" | NoModule | ImportRaises exn

record 'w env =
  import_file :: "string \<Rightarrow> 'w \<Rightarrow> imported \<times> 'w"
  import_bundled :: "string \<Rightarrow> 'w \<Rightarrow> imported \<times> 'w"
  class_name :: "nat \<Rightarrow> 'w \<Rightarrow> string"
  bundled_packages :: "'w \<Rightarrow> string list"
  new_driver :: "nat \<Rightarrow> 'w \<Rightarrow> nat outcome \<times> 'w"
  open_transport :: "transport_spec \<Rightarrow> 'w \<Rightarrow> nat outcome \<times> 'w"
  d_connect :: "nat \<Rightarrow> connect_config \<Rightarrow> 'w \<Rightarrow> unit outcome \<times> 'w"
  d_disconnect :: "nat \<Rightarrow> 'w \<Rightarrow> unit outcome \<times> 'w"
  d_init :: "nat \<Rightarrow> bool \<Rightarrow> 'w \<Rightarrow> unit outcome \<times> 'w"
  d_configure :: "nat \<Rightarrow> string \<Rightarrow> 'w \<Rightarrow> unit outcome \<times> 'w"
  d_discover :: "nat \<Rightarrow> 'w \<Rightarrow> string list outcome \<times> 'w"
  d_read :: "nat \<Rightarrow> string \<Rightarrow> 'w \<Rightarrow> string outcome \<times> 'w"
  d_write :: "nat \<Rightarrow> string \<Rightarrow> string \<Rightarrow> 'w \<Rightarrow> unit outcome \<times> 'w"
  d_passthrough :: "nat \<Rightarrow> string \<Rightarrow> 'w \<Rightarrow> string outcome \<times> 'w"
  d_load :: "nat \<Rightarrow> string \<Rightarrow> string \<Rightarrow> 'w \<Rightarrow> string outcome \<times> 'w"
  d_save :: "nat \<Rightarrow> string \<Rightarrow> string \<Rightarrow> 'w \<Rightarrow> string outcome \<times> 'w"
  d_wait_complete :: "nat \<Rightarrow> 'w \<Rightarrow> unit outcome \<times> 'w"
  d_safe_state :: "nat \<Rightarrow> 'w \<Rightarrow> unit outcome \<times> 'w"
  d_info :: "nat \<Rightarrow> 'w \<Rightarrow> (string \<times> string) list outcome \<times> 'w"
  wall_time :: "'w \<Rightarrow> pyfloat"
  monotonic :: "'w \<Rightarrow> pyfloat"
  perf_counter :: "'w \<Rightarrow> pyfloat"
  can_write :: "'w \<Rightarrow> int \<Rightarrow> bool"
  read_lines :: "string \<Rightarrow> 'w \<Rightarrow> string list option"

end
