(* ===== verification/Journal.thy ===== *)
theory Journal
  imports PyFloat
begin

text \<open>
  \<open>testcore/journal.py\<close>: the ring buffer of recent commands, and the \<open>deque(maxlen=n)\<close> under it.  The
  law of a bounded deque is the locale \<open>ring_buffer\<close>; it is interpreted for the journal here and for
  the response times of an instrument in its own theory.
\<close>

subsection \<open>Bounded deques\<close>

definition last_n :: "nat \<Rightarrow> 'a list \<Rightarrow> 'a list" where
  "last_n n xs = drop (length xs - n) xs"

definition deque_append :: "nat \<Rightarrow> 'a list \<Rightarrow> 'a \<Rightarrow> 'a list" where
  "deque_append n xs x = last_n n (xs @ [x])"

lemma length_last_n [simp]: "length (last_n n xs) = min n (length xs)"
  by (simp add: last_n_def)

lemma last_n_all [simp]: "length xs \<le> n \<Longrightarrow> last_n n xs = xs"
  by (simp add: last_n_def)

lemma last_n_last_n: "last_n n (last_n n xs @ ys) = last_n n (xs @ ys)"
proof (cases "length xs \<le> n")
  case True
  then show ?thesis by simp
next
  case False
  then have "last_n n xs @ ys = drop (length xs - n) (xs @ ys)" by (simp add: last_n_def)
  with False show ?thesis by (simp add: last_n_def[of n "_ @ ys"] last_n_def[of n "drop _ _"] add.commute)
qed

lemma last_n_subset: "set (last_n n xs) \<subseteq> set xs"
  by (auto simp: last_n_def dest: in_set_dropD)

locale ring_buffer =
  fixes push :: "'x \<Rightarrow> 's \<Rightarrow> 's"
    and items :: "'s \<Rightarrow> 'x list"
    and cap :: "'s \<Rightarrow> nat"
  assumes items_push: "items (push x s) = last_n (cap s) (items s @ [x])"
    and cap_push: "cap (push x s) = cap s"
begin

lemma push_bounded: "length (items (push x s)) \<le> cap s"
  by (simp add: items_push)

text \<open>Whatever was pushed, the buffer holds the end of the history.\<close>

lemma history: "length (items s) \<le> cap s \<Longrightarrow> items (fold push xs s) = last_n (cap s) (items s @ xs)"
proof (induction xs arbitrary: s)
  case Nil
  then show ?case by simp
next
  case (Cons x xs)
  have "length (items (push x s)) \<le> cap (push x s)" by (simp add: items_push cap_push)
  from Cons.IH[OF this] show ?case
    using last_n_last_n[of "cap s" "items s @ [x]" xs] by (simp add: items_push cap_push)
qed

end

subsection \<open>Journal\<close>

record journal_entry =
  entry_ts :: pyfloat
  entry_session :: int
  entry_client :: string
  entry_command :: string
  entry_status :: string

record journal =
  entries :: "journal_entry list"
  journal_maxlen :: nat

definition new_journal :: "nat \<Rightarrow> journal" where
  "new_journal n = \<lparr> entries = [], journal_maxlen = n \<rparr>"

definition EXCLUDED :: "string list" where
  "EXCLUDED = [''PING'', ''JOURNAL'', ''COMMAND'']"

definition entry_name :: "journal_entry \<Rightarrow> string" where
  "entry_name e = (if entry_client e = [] then ''session:'' @ show_int (entry_session e) else entry_client e)"

definition to_str :: "journal_entry \<Rightarrow> string" where
  "to_str e = show_fixed 6 (entry_ts e) @ '' ['' @ entry_name e @ ''] '' @ entry_command e @ '' -> '' @ entry_status e"

definition to_str_rel :: "journal_entry \<Rightarrow> pyfloat \<Rightarrow> string" where
  "to_str_rel e prev_ts =
     ''+'' @ show_fixed 6 (f_sub (entry_ts e) prev_ts)
     @ '' ['' @ entry_name e @ ''] '' @ entry_command e @ '' -> '' @ entry_status e"

definition append_entry :: "journal_entry \<Rightarrow> journal \<Rightarrow> journal" where
  "append_entry e j = j\<lparr>entries := deque_append (journal_maxlen j) (entries j) e\<rparr>"

definition excluded :: "string list \<Rightarrow> bool" where
  "excluded command = ((case command of [] \<Rightarrow> [] | c # _ \<Rightarrow> upper c) \<in> set EXCLUDED)"

definition journal_entry_of :: "pyfloat \<Rightarrow> int \<Rightarrow> string \<Rightarrow> string list \<Rightarrow> string \<Rightarrow> journal_entry" where
  "journal_entry_of now sid client command status =
     \<lparr> entry_ts = now, entry_session = sid, entry_client = client,
       entry_command = join '' '' command, entry_status = status \<rparr>"

definition journal_record :: "journal \<Rightarrow> pyfloat \<Rightarrow> int \<Rightarrow> string \<Rightarrow> string list \<Rightarrow> string \<Rightarrow> journal" where
  "journal_record j now sid client command status =
     (if excluded command then j
      else append_entry (journal_entry_of now sid client command status) j)"

text \<open>\<open>list(entries)[-count:]\<close>: a negative count drops from the front, and \<open>-0\<close> is \<open>0\<close>, the whole list.\<close>

definition journal_tail :: "journal \<Rightarrow> int \<Rightarrow> journal_entry list" where
  "journal_tail j count =
     (if int (length (entries j)) \<le> count then entries j
      else if count \<le> 0 then drop (nat (- count)) (entries j)
      else last_n (nat count) (entries j))"

text \<open>The callers pass an offset that is not negative; a count may be anything.\<close>

definition journal_head :: "journal \<Rightarrow> nat \<Rightarrow> int option \<Rightarrow> journal_entry list" where
  "journal_head j offset count =
     (if length (entries j) \<le> offset then []
      else let result = drop offset (entries j) in
        case count of
          None \<Rightarrow> result
        | Some c \<Rightarrow> if 0 \<le> c then take (nat c) result else take (length result - nat (- c)) result)"

definition journal_all :: "journal \<Rightarrow> journal_entry list" where
  "journal_all j = entries j"

definition journal_clear :: "journal \<Rightarrow> nat \<times> journal" where
  "journal_clear j = (length (entries j), j\<lparr>entries := []\<rparr>)"

interpretation journal_ring: ring_buffer append_entry entries journal_maxlen
  by unfold_locales (simp_all add: append_entry_def deque_append_def)

definition journal_ok :: "journal \<Rightarrow> bool" where
  "journal_ok j = (length (entries j) \<le> journal_maxlen j)"

lemma new_journal_ok: "journal_ok (new_journal n)"
  by (simp add: journal_ok_def new_journal_def)

lemma journal_record_ok: "journal_ok j \<Longrightarrow> journal_ok (journal_record j now sid client command status)"
  using journal_ring.push_bounded[of _ j] by (simp add: journal_record_def journal_ok_def journal_ring.cap_push)

lemma journal_clear_ok: "journal_ok (snd (journal_clear j))"
  by (simp add: journal_ok_def journal_clear_def)

text \<open>What the journal holds after a series of commands: the last of those it does not leave out.\<close>

lemma journal_history:
  "journal_ok j \<Longrightarrow>
   entries (fold (\<lambda>(now, sid, client, command, status) j. journal_record j now sid client command status) h j)
     = last_n (journal_maxlen j)
         (entries j @ map (\<lambda>(now, sid, client, command, status). journal_entry_of now sid client command status)
                        (filter (\<lambda>(_, _, _, command, _). \<not> excluded command) h))"
proof -
  assume j: "journal_ok j"
  have "fold (\<lambda>(now, sid, client, command, status) j. journal_record j now sid client command status) h j
      = fold append_entry
          (map (\<lambda>(now, sid, client, command, status). journal_entry_of now sid client command status)
             (filter (\<lambda>(_, _, _, command, _). \<not> excluded command) h)) j" for j
    by (induction h arbitrary: j) (auto simp: journal_record_def)
  with journal_ring.history j show ?thesis by (simp add: journal_ok_def)
qed

lemma journal_tail_last: "0 < n \<Longrightarrow> journal_tail j (int n) = last_n n (entries j)"
  by (simp add: journal_tail_def)

subsection \<open>Properties\<close>

text \<open>C18: the journal is a bounded, faithful log: after any series of commands it holds the last ones, at most
  its size, of what it held and of the commands that are not left out, in order; and \<open>tail\<close> of a positive
  count gives the last entries of it.\<close>

theorem journal_is_last_commands:
  assumes "journal_ok j" "0 < n"
  shows "let j' = fold (\<lambda>(now, sid, client, command, status) j. journal_record j now sid client command status) h j in
           journal_ok j'
           \<and> entries j' = last_n (journal_maxlen j)
               (entries j @ map (\<lambda>(now, sid, client, command, status). journal_entry_of now sid client command status)
                  (filter (\<lambda>(_, _, _, command, _). \<not> excluded command) h))
           \<and> journal_tail j' (int n) = last_n n (entries j')"
proof -
  have "journal_ok (fold (\<lambda>(now, sid, client, command, status) j. journal_record j now sid client command status) h j)"
    by (rule fold_invariant_on[where P = journal_ok]) (use assms(1) in \<open>auto simp: journal_record_ok split: prod.splits\<close>)
  with journal_history[OF assms(1), of h] journal_tail_last[OF assms(2)] show ?thesis by (simp add: Let_def)
qed

theorem journal_is_last_commands_witness:
  "let j' = fold (\<lambda>(now, sid, client, command, status) j. journal_record j now sid client command status)
             [(FNan, 1, [], [''KGET'', ''a''], ''ok''), (FNan, 1, [], [''PING''], ''ok'')] (new_journal 1)
   in map entry_command (entries j') = [''KGET a'']"
proof -
  note j = journal_is_last_commands[OF new_journal_ok, of 1 "[(FNan, 1, [], [''KGET'', ''a''], ''ok''), (FNan, 1, [], [''PING''], ''ok'')]" 1]
  have "map entry_command (last_n 1 (map (\<lambda>(now, sid, client, command, status). journal_entry_of now sid client command status)
         (filter (\<lambda>(_, _, _, command, _). \<not> excluded command)
            [(FNan, 1, [], [''KGET'', ''a''], ''ok''), (FNan, 1, [], [''PING''], ''ok'')]))) = [''KGET a'']"
    by code_simp
  with j show ?thesis by (simp add: Let_def new_journal_def)
qed

end
