(* ===== verification/Instruments.thy ===== *)
theory Instruments
  imports Environment Journal
begin

text \<open>
  \<open>testcore/instruments.py\<close> and \<open>testcore/drivers/__init__.py\<close>: the registry, the life cycle of an
  instrument, and the guarded driver calls.

  The registry's state is the base of the server's state record, so every operation here is an action
  on any extension of it.  An instrument is reached by its name: the code hands around the object, and
  an object leaves the registry only in \<open>remove\<close>, after the tasks that hold it were cancelled.
  \<open>spawned\<close> is the queue of the event publications started with \<open>asyncio.create_task\<close>, which run
  later.  A driver call is one step, from taking the instrument's lock to releasing it, so \<open>_busy\<close> is
  false between steps and has no field.
\<close>

subsection \<open>State\<close>

datatype instrument_state = IDLE | LOCKED | READY | UNRESPONSIVE | FAULT

fun state_name :: "instrument_state \<Rightarrow> string" where
  "state_name IDLE = ''IDLE''"
| "state_name LOCKED = ''LOCKED''"
| "state_name READY = ''READY''"
| "state_name UNRESPONSIVE = ''UNRESPONSIVE''"
| "state_name FAULT = ''FAULT''"

record instrument =
  iname :: string
  driver :: nat
  driver_path :: string
  connect_cfg :: connect_config
  topts :: transport_opts
  istate :: instrument_state
  resources :: "string list"
  lock_owner :: "int option"
  total_calls :: nat
  total_errors :: nat
  response_times :: "pyfloat list"
  health_interval :: "pyfloat option"
  health_failures :: nat
  last_call_ok :: pyfloat

definition RESPONSE_TIMES_MAX :: nat where
  "RESPONSE_TIMES_MAX = 1000"

definition add_response_time :: "pyfloat \<Rightarrow> instrument \<Rightarrow> instrument" where
  "add_response_time t i = i\<lparr>response_times := deque_append RESPONSE_TIMES_MAX (response_times i) t\<rparr>"

interpretation response_ring: ring_buffer add_response_time response_times "\<lambda>_. RESPONSE_TIMES_MAX"
  by unfold_locales (simp_all add: add_response_time_def deque_append_def)

text \<open>The sum is taken from left to right, as \<open>sum\<close> does on floats up to Python 3.11.\<close>

definition mean_response_ms :: "instrument \<Rightarrow> pyfloat" where
  "mean_response_ms i =
     (if response_times i = [] then f_of_int 0
      else f_times (f_over (fold (\<lambda>t acc. f_add acc t) (response_times i) (f_of_int 0))
                      (int (length (response_times i))))
             1000)"

record 'w registry =
  instruments :: "(string, instrument) dict"
  driver_modules :: "(string, nat) dict"
  driver_timeout :: pyfloat
  spawned :: "(string \<times> string \<times> string) list"
  world :: 'w

definition slow_timeout :: "('w, 'z) registry_scheme \<Rightarrow> pyfloat" where
  "slow_timeout s = f_times (driver_timeout s) 12"

definition upd_inst :: "string \<Rightarrow> (instrument \<Rightarrow> instrument) \<Rightarrow> ('w, 'z) registry_scheme \<Rightarrow> ('w, 'z) registry_scheme" where
  "upd_inst name f s =
     (case dict_get (instruments s) name of
        None \<Rightarrow> s
      | Some i \<Rightarrow> s\<lparr>instruments := dict_set (instruments s) name (f i)\<rparr>)"

definition spawn :: "string \<Rightarrow> string \<Rightarrow> string \<Rightarrow> ('w, 'z) registry_scheme \<Rightarrow> ('w, 'z) registry_scheme" where
  "spawn event_type name reason s = s\<lparr>spawned := spawned s @ [(event_type, name, reason)]\<rparr>"

subsection \<open>Calls out of the server\<close>

text \<open>A synchronous call: its exception propagates.\<close>

fun outcome_exn :: "'a outcome \<Rightarrow> exn + 'a" where
  "outcome_exn (Ret v) = Inr v"
| "outcome_exn (RaisesDriver e) = Inl (DriverError e)"
| "outcome_exn (TimesOut e) = Inl (OtherError e)"
| "outcome_exn (Raises e) = Inl (OtherError e)"

definition call_out :: "('w \<Rightarrow> 'a outcome \<times> 'w) \<Rightarrow> ('a, ('w, 'z) registry_scheme) act" where
  "call_out func s = (case func (world s) of (r, w) \<Rightarrow> (outcome_exn r, s\<lparr>world := w\<rparr>))"

definition quoted :: "string \<Rightarrow> string" where
  "quoted s = squote # s @ [squote]"

definition arrow :: string where
  "arrow = [CHR 0xE2, CHR 0x86, CHR 0x92]"

definition get_inst :: "string \<Rightarrow> (instrument, ('w, 'z) registry_scheme) act" where
  "get_inst name s =
     (case dict_get (instruments s) name of
        None \<Rightarrow> (Inl (DriverError (''instrument '' @ quoted name @ '' not found'')), s)
      | Some i \<Rightarrow> (Inr i, s))"

text \<open>\<open>_call_driver\<close>: the watchdog.\<close>

definition call_driver :: "'w env \<Rightarrow> string \<Rightarrow> pyfloat \<Rightarrow> ('w \<Rightarrow> 'a outcome \<times> 'w)
    \<Rightarrow> ('a, ('w, 'z) registry_scheme) act" where
  "call_driver env name t func s =
     (case func (world s) of (r, w) \<Rightarrow>
        let s1 = s\<lparr>world := w\<rparr> in
        case r of
          Ret v \<Rightarrow> (Inr v, upd_inst name (\<lambda>i. i\<lparr>last_call_ok := monotonic env w\<rparr>) s1)
        | TimesOut _ \<Rightarrow>
            (Inl (DriverError (''driver timeout ('' @ show_float t @ ''s) '' @ arrow @ '' UNRESPONSIVE'')),
             spawn ''UNRESPONSIVE'' name ''driver_timeout''
               (upd_inst name (\<lambda>i. i\<lparr>istate := UNRESPONSIVE, total_errors := Suc (total_errors i)\<rparr>) s1))
        | RaisesDriver e \<Rightarrow> (Inl (DriverError e), s1)
        | Raises e \<Rightarrow> (Inl (OtherError e), s1))"

text \<open>\<open>_tracked_call\<close>: a driver error is counted; any other exception is a fault.\<close>

definition tracked_call :: "'w env \<Rightarrow> string \<Rightarrow> pyfloat \<Rightarrow> ('w \<Rightarrow> 'a outcome \<times> 'w)
    \<Rightarrow> ('a, ('w, 'z) registry_scheme) act" where
  "tracked_call env name t func s =
     (case call_driver env name t func s of
        (Inr v, s1) \<Rightarrow>
          (Inr v, upd_inst name (\<lambda>i. add_response_time (f_sub (perf_counter env (world s1)) (perf_counter env (world s)))
                     (i\<lparr>total_calls := Suc (total_calls i)\<rparr>)) s1)
      | (Inl (DriverError e), s1) \<Rightarrow>
          (Inl (DriverError e), upd_inst name (\<lambda>i. i\<lparr>total_errors := Suc (total_errors i)\<rparr>) s1)
      | (Inl e, s1) \<Rightarrow>
          (Inl (DriverError (exn_text e)),
           spawn ''FAULT'' name (exn_text e)
             (upd_inst name (\<lambda>i. i\<lparr>istate := FAULT, total_errors := Suc (total_errors i)\<rparr>) s1)))"

subsection \<open>Loading drivers\<close>

definition is_file_path :: "string \<Rightarrow> bool" where
  "is_file_path name = (CHR ''/'' \<in> set name \<or> CHR 0x5C \<in> set name \<or> endswith name ''.py'')"

definition import_with :: "(string \<Rightarrow> 'w \<Rightarrow> imported \<times> 'w) \<Rightarrow> string \<Rightarrow> (imported, ('w, 'z) registry_scheme) act" where
  "import_with f name s = (case f name (world s) of (m, w) \<Rightarrow> (Inr m, s\<lparr>world := w\<rparr>))"

definition load_from_file :: "'w env \<Rightarrow> string \<Rightarrow> (nat, ('w, 'z) registry_scheme) act" where
  "load_from_file env path =
     bind_ex (import_with (import_file env) path) (\<lambda>m.
       case m of
         NoModule \<Rightarrow> raise (DriverError (''cannot load module from '' @ path))
       | ImportRaises (DriverError e) \<Rightarrow> raise (DriverError e)
       | ImportRaises e \<Rightarrow> raise (DriverError (''cannot load module from '' @ path @ '': '' @ exn_text e))
       | Module [] \<Rightarrow> raise (DriverError (''no BaseDriver subclass found in '' @ path))
       | Module (c # _) \<Rightarrow> ret c)"

text \<open>\<open>NoModule\<close> is the \<open>ImportError\<close> of \<open>importlib.import_module\<close>.\<close>

definition resolve_driver :: "'w env \<Rightarrow> string \<Rightarrow> (nat, ('w, 'z) registry_scheme) act" where
  "resolve_driver env name =
     bind_ex (import_with (import_bundled env) (''testcore.drivers.'' @ name)) (\<lambda>m.
       case m of
         NoModule \<Rightarrow> raise (DriverError (''bundled driver '' @ quoted name @ '' not found''))
       | ImportRaises e \<Rightarrow> raise e
       | Module [] \<Rightarrow> raise (DriverError (''no BaseDriver subclass in driver '' @ quoted name))
       | Module (c # _) \<Rightarrow> ret c)"

definition list_bundled :: "'w env \<Rightarrow> ('w, 'z) registry_scheme \<Rightarrow> string list" where
  "list_bundled env s = sort (bundled_packages env (world s))"

definition load_driver_module :: "'w env \<Rightarrow> string \<Rightarrow> (nat, ('w, 'z) registry_scheme) act" where
  "load_driver_module env name s =
     (case dict_get (driver_modules s) name of
        Some c \<Rightarrow> (Inr c, s)
      | None \<Rightarrow>
          bind_ex (if is_file_path name then load_from_file env name else resolve_driver env name) (\<lambda>c.
          bind_ex (modify (\<lambda>s. s\<lparr>driver_modules := dict_set (driver_modules s) name c\<rparr>)) (\<lambda>_. ret c)) s)"

subsection \<open>Registry operations\<close>

text \<open>\<open>resolve_transport\<close> with the constructor it calls.\<close>

definition make_transport :: "'w env \<Rightarrow> string \<Rightarrow> transport_opts \<Rightarrow> (nat, ('w, 'z) registry_scheme) act" where
  "make_transport env address opts =
     (case resolve_transport address opts of
        Inl e \<Rightarrow> raise e
      | Inr spec \<Rightarrow> call_out (open_transport env spec))"

text \<open>\<open>if address\<close>: an empty address counts as none.\<close>

definition given :: "string option \<Rightarrow> string option" where
  "given a = (case a of Some [] \<Rightarrow> None | _ \<Rightarrow> a)"

definition new_instrument :: "'w env \<Rightarrow> string \<Rightarrow> nat \<Rightarrow> string \<Rightarrow> connect_config \<Rightarrow> transport_opts \<Rightarrow> 'w \<Rightarrow> instrument" where
  "new_instrument env name drv path cfg opts w =
     \<lparr> iname = name, driver = drv, driver_path = path, connect_cfg = cfg, topts = opts, istate = IDLE,
       resources = [], lock_owner = None, total_calls = 0, total_errors = 0, response_times = [],
       health_interval = None, health_failures = 0, last_call_ok = monotonic env w \<rparr>"

definition registry_add :: "'w env \<Rightarrow> string \<Rightarrow> string \<Rightarrow> string option \<Rightarrow> transport_opts
    \<Rightarrow> (instrument, ('w, 'z) registry_scheme) act" where
  "registry_add env name driver_name address opts s =
     (if dict_mem (instruments s) name
      then (Inl (DriverError (''instrument '' @ quoted name @ '' already exists'')), s)
      else
        bind_ex (load_driver_module env driver_name) (\<lambda>c.
        bind_ex (call_out (new_driver env c)) (\<lambda>drv.
        bind_ex (case given address of
                   None \<Rightarrow> ret \<lparr> cfg_address = None, cfg_transport = None \<rparr>
                 | Some a \<Rightarrow> bind_ex (make_transport env a opts)
                               (\<lambda>t. ret \<lparr> cfg_address = Some a, cfg_transport = Some t \<rparr>)) (\<lambda>cfg.
        bind_ex (call_out (d_connect env drv cfg)) (\<lambda>_ s.
          let inst = new_instrument env name drv driver_name cfg opts (world s)
          in (Inr inst, s\<lparr>instruments := dict_set (instruments s) name inst\<rparr>))))) s)"

text \<open>A call whose exception is only logged.\<close>

definition quietly :: "(unit, 's) act \<Rightarrow> (unit, 's) act" where
  "quietly m = catch m (\<lambda>_. ret ())"

definition registry_remove :: "'w env \<Rightarrow> string \<Rightarrow> (unit, ('w, 'z) registry_scheme) act" where
  "registry_remove env name =
     bind_ex (get_inst name) (\<lambda>inst.
     bind_ex (quietly (call_out (d_safe_state env (driver inst)))) (\<lambda>_.
     bind_ex (quietly (call_out (d_disconnect env (driver inst)))) (\<lambda>_.
       modify (\<lambda>s. s\<lparr>instruments := dict_del (instruments s) name\<rparr>))))"

definition owned_by_text :: "string \<Rightarrow> int \<Rightarrow> string" where
  "owned_by_text name own = name @ '' owned by session '' @ show_int own"

definition registry_lock :: "string \<Rightarrow> int \<Rightarrow> (unit, ('w, 'z) registry_scheme) act" where
  "registry_lock name sid =
     bind_ex (get_inst name) (\<lambda>inst.
       if istate inst \<noteq> IDLE then
         (case lock_owner inst of
            Some own \<Rightarrow> if own \<noteq> sid then raise (LockedError (owned_by_text name own)) else ret ()
          | None \<Rightarrow> raise (DriverError (''instrument '' @ quoted name @ '' is not IDLE'')))
       else modify (upd_inst name (\<lambda>i. i\<lparr>istate := LOCKED, lock_owner := Some sid\<rparr>)))"

definition registry_unlock :: "'w env \<Rightarrow> string \<Rightarrow> int \<Rightarrow> (unit, ('w, 'z) registry_scheme) act" where
  "registry_unlock env name sid =
     bind_ex (get_inst name) (\<lambda>inst.
       case lock_owner inst of
         None \<Rightarrow> raise (IdleError (name @ '' not locked''))
       | Some own \<Rightarrow>
           if own \<noteq> sid then raise (LockedError (owned_by_text name own))
           else
             catch
               (bind_ex (call_out (d_safe_state env (driver inst))) (\<lambda>_.
                  modify (upd_inst name (\<lambda>i. i\<lparr>istate := IDLE, lock_owner := None, resources := []\<rparr>))))
               (\<lambda>_. modify (upd_inst name (\<lambda>i. i\<lparr>istate := FAULT, lock_owner := None, resources := []\<rparr>))))"

definition requires_reset :: "string \<Rightarrow> instrument_state \<Rightarrow> string" where
  "requires_reset name st = name @ '' is '' @ state_name st @ '', requires INSTRUMENT.RESET''"

definition registry_init :: "'w env \<Rightarrow> string \<Rightarrow> string option \<Rightarrow> bool \<Rightarrow> (unit, ('w, 'z) registry_scheme) act" where
  "registry_init env name config_path selftest s =
     bind_ex (get_inst name) (\<lambda>inst.
       if istate inst = IDLE then raise (IdleError (name @ '' not locked''))
       else if istate inst \<in> {FAULT, UNRESPONSIVE} then raise (FaultError (requires_reset name (istate inst)))
       else
         bind_ex (case given config_path of
                    None \<Rightarrow> ret ()
                  | Some p \<Rightarrow> call_driver env name (slow_timeout s) (d_configure env (driver inst) p)) (\<lambda>_.
         bind_ex (call_driver env name (slow_timeout s) (d_init env (driver inst) selftest)) (\<lambda>_.
         bind_ex (call_driver env name (driver_timeout s) (d_discover env (driver inst))) (\<lambda>res.
           modify (upd_inst name (\<lambda>i. i\<lparr>resources := res, istate := READY\<rparr>)))))) s"

definition registry_align :: "'w env \<Rightarrow> string \<Rightarrow> (unit, ('w, 'z) registry_scheme) act" where
  "registry_align env name s =
     bind_ex (get_inst name) (\<lambda>inst.
       if istate inst \<noteq> LOCKED then
         (if istate inst = IDLE then raise (IdleError (name @ '' not locked''))
          else if istate inst = READY then raise (DriverError (''instrument '' @ quoted name @ '' is already READY''))
          else raise (FaultError (requires_reset name (istate inst))))
       else
         bind_ex (call_driver env name (driver_timeout s) (d_discover env (driver inst))) (\<lambda>res.
           modify (upd_inst name (\<lambda>i. i\<lparr>resources := res, istate := READY\<rparr>)))) s"

definition registry_reset :: "'w env \<Rightarrow> string \<Rightarrow> (unit, ('w, 'z) registry_scheme) act" where
  "registry_reset env name =
     bind_ex (get_inst name) (\<lambda>inst.
       if istate inst \<notin> {UNRESPONSIVE, FAULT}
       then raise (DriverError (''instrument '' @ quoted name @ '' is not in FAULT/UNRESPONSIVE state''))
       else
         bind_ex (quietly (call_out (d_disconnect env (driver inst)))) (\<lambda>_.
         bind_ex (case given (cfg_address (connect_cfg inst)) of
                    None \<Rightarrow> ret (connect_cfg inst)
                  | Some a \<Rightarrow>
                      bind_ex (make_transport env a (topts inst)) (\<lambda>t.
                        let cfg = (connect_cfg inst)\<lparr>cfg_transport := Some t\<rparr> in
                        bind_ex (modify (upd_inst name (\<lambda>i. i\<lparr>connect_cfg := cfg\<rparr>))) (\<lambda>_. ret cfg))) (\<lambda>cfg.
         bind_ex (call_out (d_connect env (driver inst) cfg)) (\<lambda>_.
           modify (upd_inst name (\<lambda>i. i\<lparr>istate := LOCKED, resources := []\<rparr>))))))"

definition check_ready :: "instrument \<Rightarrow> (unit, 's) act" where
  "check_ready inst =
     (case istate inst of
        IDLE \<Rightarrow> raise (IdleError (iname inst @ '' not locked''))
      | LOCKED \<Rightarrow> raise (NotInitError (iname inst @ '' requires INIT or ALIGN''))
      | READY \<Rightarrow> ret ()
      | st \<Rightarrow> raise (FaultError (requires_reset (iname inst) st)))"

text \<open>The operations that need READY have one form: look up, check, then a tracked call.\<close>

definition ready_call :: "'w env \<Rightarrow> string \<Rightarrow> pyfloat \<Rightarrow> (nat \<Rightarrow> 'w \<Rightarrow> 'a outcome \<times> 'w)
    \<Rightarrow> ('a, ('w, 'z) registry_scheme) act" where
  "ready_call env name t func =
     bind_ex (get_inst name) (\<lambda>inst.
     bind_ex (check_ready inst) (\<lambda>_.
       tracked_call env name t (func (driver inst))))"

definition registry_read :: "'w env \<Rightarrow> string \<Rightarrow> string \<Rightarrow> (string, ('w, 'z) registry_scheme) act" where
  "registry_read env name res s = ready_call env name (driver_timeout s) (\<lambda>h. d_read env h res) s"

definition registry_write :: "'w env \<Rightarrow> string \<Rightarrow> string \<Rightarrow> string \<Rightarrow> (unit, ('w, 'z) registry_scheme) act" where
  "registry_write env name res val s = ready_call env name (driver_timeout s) (\<lambda>h. d_write env h res val) s"

definition registry_passthrough :: "'w env \<Rightarrow> string \<Rightarrow> string \<Rightarrow> (string, ('w, 'z) registry_scheme) act" where
  "registry_passthrough env name command s =
     ready_call env name (driver_timeout s) (\<lambda>h. d_passthrough env h command) s"

definition registry_save :: "'w env \<Rightarrow> string \<Rightarrow> string \<Rightarrow> string \<Rightarrow> (string, ('w, 'z) registry_scheme) act" where
  "registry_save env name target path s = ready_call env name (slow_timeout s) (\<lambda>h. d_save env h target path) s"

definition registry_load :: "'w env \<Rightarrow> string \<Rightarrow> string \<Rightarrow> string \<Rightarrow> (string, ('w, 'z) registry_scheme) act" where
  "registry_load env name target path s = ready_call env name (slow_timeout s) (\<lambda>h. d_load env h target path) s"

definition registry_wait :: "'w env \<Rightarrow> string \<Rightarrow> (unit, ('w, 'z) registry_scheme) act" where
  "registry_wait env name s = ready_call env name (slow_timeout s) (d_wait_complete env) s"

definition registry_ping :: "'w env \<Rightarrow> string \<Rightarrow> (string, ('w, 'z) registry_scheme) act" where
  "registry_ping env name s =
     bind_ex (get_inst name) (\<lambda>inst.
       if istate inst \<in> {FAULT, UNRESPONSIVE} then raise (FaultError (name @ '' is '' @ state_name (istate inst)))
       else call_driver env name (driver_timeout s) (d_passthrough env (driver inst) ''*IDN?'')) s"

definition list_instruments :: "('w, 'z) registry_scheme \<Rightarrow> string list" where
  "list_instruments s = sort (dict_keys (instruments s))"

definition list_drivers :: "('w, 'z) registry_scheme \<Rightarrow> string list" where
  "list_drivers s = sort (dict_keys (driver_modules s))"

end
