(* ===== verification/Glob.thy ===== *)
theory Glob
  imports PyText
begin

text \<open>
  \<open>fnmatch.fnmatch\<close> of the standard library, on POSIX (names are compared as they are).  A pattern is
  read into tokens, character by character; \<open>[seq]\<close> and \<open>[!seq]\<close> hold single characters and ranges in
  code point order, which is the byte order of the encodings.
\<close>

datatype glob_token =
    GStar
  | GAny
  | GLit string
  | GSet bool "(string \<times> string) list" \<comment> \<open>negated?, ranges\<close>

fun set_ranges :: "string list \<Rightarrow> (string \<times> string) list" where
  "set_ranges (a # m # b # cs) =
     (if m = ''-'' then (a, b) # set_ranges cs else (a, a) # set_ranges (m # b # cs))"
| "set_ranges cs = map (\<lambda>c. (c, c)) cs"

text \<open>The body of a set after \<open>[\<close>: a leading \<open>!\<close>, then the characters up to the closing bracket (a \<open>]\<close> in
  first place is a member); \<open>None\<close> when it is not closed.\<close>

definition drop_mark :: "string \<Rightarrow> string list \<Rightarrow> bool \<times> string list" where
  "drop_mark m cs = (case cs of [] \<Rightarrow> (False, []) | c # t \<Rightarrow> if c = m then (True, t) else (False, cs))"

definition read_set :: "string list \<Rightarrow> (glob_token \<times> string list) option" where
  "read_set cs =
     (case drop_mark ''!'' cs of (neg, cs1) \<Rightarrow>
      case drop_mark '']'' cs1 of (first, cs2) \<Rightarrow>
      case dropWhile (\<lambda>c. c \<noteq> '']'') cs2 of
        [] \<Rightarrow> None
      | _ # rest \<Rightarrow>
          Some (GSet neg (set_ranges ((if first then ['']''] else []) @ takeWhile (\<lambda>c. c \<noteq> '']'') cs2)), rest))"

lemma drop_mark_length: "drop_mark m cs = (b, t) \<Longrightarrow> length t \<le> length cs"
  by (auto simp: drop_mark_def split: list.splits if_splits)

lemma read_set_shorter:
  assumes "read_set cs = Some (t, rest)"
  shows "length rest < length cs"
proof -
  obtain neg cs1 where 1: "drop_mark ''!'' cs = (neg, cs1)" by fastforce
  obtain first cs2 where 2: "drop_mark '']'' cs1 = (first, cs2)" by fastforce
  obtain x where "dropWhile (\<lambda>c. c \<noteq> '']'') cs2 = x # rest"
    using assms by (auto simp: read_set_def 1 2 split: list.splits)
  then have "Suc (length rest) \<le> length cs2"
    using length_dropWhile_le[of "\<lambda>c. c \<noteq> '']''" cs2] by simp
  with drop_mark_length[OF 1] drop_mark_length[OF 2] show ?thesis by simp
qed

function glob_tokens :: "string list \<Rightarrow> glob_token list" where
  "glob_tokens [] = []"
| "glob_tokens (c # cs) =
     (if c = ''*'' then GStar # glob_tokens cs
      else if c = ''?'' then GAny # glob_tokens cs
      else if c = ''['' then
        (case read_set cs of
           None \<Rightarrow> GLit c # glob_tokens cs
         | Some (t, rest) \<Rightarrow> t # glob_tokens rest)
      else GLit c # glob_tokens cs)"
  by pat_completeness auto
termination
  by (relation "measure length") (auto simp: less_SucI read_set_shorter)

fun token_accepts :: "glob_token \<Rightarrow> string \<Rightarrow> bool" where
  "token_accepts GStar c = False"
| "token_accepts GAny c = True"
| "token_accepts (GLit d) c = (c = d)"
| "token_accepts (GSet neg rs) c = (neg \<noteq> list_ex (\<lambda>(lo, hi). lo \<le> c \<and> c \<le> hi) rs)"

fun glob_match :: "glob_token list \<Rightarrow> string list \<Rightarrow> bool" where
  "glob_match [] s = (s = [])"
| "glob_match (GStar # p) [] = glob_match p []"
| "glob_match (GStar # p) (c # s) = (glob_match p (c # s) \<or> glob_match (GStar # p) s)"
| "glob_match (t # p) [] = False"
| "glob_match (t # p) (c # s) = (token_accepts t c \<and> glob_match p s)"

definition fnmatch :: "string \<Rightarrow> string \<Rightarrow> bool" where
  "fnmatch name pattern = glob_match (glob_tokens (characters pattern)) (characters name)"

subsection \<open>Prefix patterns\<close>

lemma glob_match_star [simp]: "glob_match [GStar] s"
  by (induction s) auto

lemma glob_match_lits:
  "glob_match (map GLit p @ q) s \<longleftrightarrow> (\<exists>t. s = p @ t \<and> glob_match q t)"
  by (induction p arbitrary: s; case_tac s) auto

lemma glob_tokens_plain:
  "set cs \<inter> {''*'', ''?'', ''[''} = {} \<Longrightarrow> glob_tokens (cs @ ds) = map GLit cs @ glob_tokens ds"
  by (induction cs) auto

lemma characters_append:
  assumes "utf8_valid p" and "\<And>c t'. t = c # t' \<Longrightarrow> \<not> cont_byte c"
  shows "characters (p @ t) = characters p @ characters t"
  using assms(1)
proof (induction p rule: characters.induct)
  case 1
  then show ?case by simp
next
  case (2 a s)
  have "takeWhile cont_byte (s @ t) = takeWhile cont_byte s
        \<and> dropWhile cont_byte (s @ t) = dropWhile cont_byte s @ t"
  proof (cases "\<forall>c \<in> set s. cont_byte c")
    case True
    then have "takeWhile cont_byte (s @ t) = s @ takeWhile cont_byte t"
      and "dropWhile cont_byte (s @ t) = dropWhile cont_byte t"
      by (auto simp: takeWhile_append2 dropWhile_append2)
    moreover have "takeWhile cont_byte t = [] \<and> dropWhile cont_byte t = t"
      using assms(2) by (cases t) auto
    ultimately show ?thesis using True by (simp add: takeWhile_eq_all_conv[THEN iffD2] dropWhile_eq_Nil_conv[THEN iffD2])
  next
    case False
    then obtain x where "x \<in> set s" "\<not> cont_byte x" by blast
    then show ?thesis
      using takeWhile_append1[of x s cont_byte t] dropWhile_append1[of x s cont_byte t] by simp
  qed
  then show ?case using 2(1)[OF utf8_valid_tail[OF 2(2)]] by simp
qed

lemma characters_concat: "concat (characters s) = s"
  by (induction s rule: characters.induct) auto

text \<open>A text that begins with the bytes of a valid text begins with its characters.\<close>

lemma characters_prefix:
  assumes "utf8_valid p" and "utf8_valid (p @ t)"
  shows "characters (p @ t) = characters p @ characters t"
  using assms(1) by (rule characters_append) (use utf8_valid_suffix[OF assms] utf8_valid_head in blast)

lemma startswith_characters:
  assumes "utf8_valid p" and "utf8_valid s"
  shows "startswith s p \<longleftrightarrow> (\<exists>cs. characters s = characters p @ cs)"
proof
  assume "startswith s p"
  then obtain t where "s = p @ t" by (auto simp: startswith_iff)
  with assms show "\<exists>cs. characters s = characters p @ cs" using characters_prefix by blast
next
  assume "\<exists>cs. characters s = characters p @ cs"
  then obtain cs where "characters s = characters p @ cs" by blast
  then have "s = p @ concat cs"
    by (metis characters_concat concat_append)
  then show "startswith s p" by simp
qed

text \<open>A pattern that is a plain prefix followed by one star is a prefix test.\<close>

lemma characters_ascii_member:
  "c \<notin> set p \<Longrightarrow> [c] \<notin> set (characters p)"
  by (induction p rule: characters.induct) (auto dest: set_dropWhileD)

theorem fnmatch_prefix:
  assumes "utf8_valid p" and "utf8_valid s"
    and "CHR ''*'' \<notin> set p" "CHR ''?'' \<notin> set p" "CHR ''['' \<notin> set p"
  shows "fnmatch s (p @ ''*'') = startswith s p"
proof -
  have star: "\<not> cont_byte (CHR ''*'')" by (simp add: byte_def)
  then have c: "characters (p @ ''*'') = characters p @ [''*'']"
    using characters_append[OF assms(1), of "''*''"] by simp
  have "set (characters p) \<inter> {''*'', ''?'', ''[''} = {}"
    using assms(3-5) characters_ascii_member by fastforce
  then have "glob_tokens (characters (p @ ''*'')) = map GLit (characters p) @ [GStar]"
    unfolding c by (simp add: glob_tokens_plain)
  then show ?thesis
    by (simp add: fnmatch_def glob_match_lits startswith_characters[OF assms(1,2)])
qed

end
