(* ===== verification/Store.thy ===== *)
theory Store
  imports Glob PyFloat
begin

text \<open>
  \<open>testcore/store.py\<close>: the key-value store with reserved prefixes, read-only keys owned by a session,
  and the structured measurement entries.

  A \<open>ValueError\<close> is \<open>Inl\<close> of its text.  \<open>sid\<close> is the caller's session id, \<open>None\<close> where the caller passes
  none.  \<open>now\<close> is what \<open>time.time()\<close> returns.
\<close>

subsection \<open>State\<close>

record meas_value =
  meas_val :: "string option"
  meas_ts :: pyfloat
  meas_status :: string

record store =
  data :: "(string, string) dict"
  owners :: "(string, int) dict"
  meas :: "(string, meas_value) dict"

definition new_store :: store where
  "new_store = \<lparr> data = [], owners = [], meas = [] \<rparr>"

definition RESERVED_PREFIXES :: "string list" where
  "RESERVED_PREFIXES = [''_sys:'', ''_drv:'', ''_inst:'', ''_sess:'', ''_lock:'', ''_watch:'', ''_meas:'']"

definition is_reserved :: "string \<Rightarrow> bool" where
  "is_reserved key = list_ex (startswith key) RESERVED_PREFIXES"

subsection \<open>Operations on keys\<close>

text \<open>\<open>Some\<close> is the text of the exception.\<close>

definition check_owner :: "store \<Rightarrow> string \<Rightarrow> int option \<Rightarrow> string option" where
  "check_owner st key sid =
     (if owners st = [] then None
      else case dict_get (owners st) key of
        None \<Rightarrow> None
      | Some own \<Rightarrow>
          if Some own \<noteq> sid
          then Some (''READONLY key '' @ squote # key @ squote # '' owned by session '' @ show_int own)
          else None)"

definition kv_set :: "store \<Rightarrow> string \<Rightarrow> string \<Rightarrow> bool \<Rightarrow> bool \<Rightarrow> bool \<Rightarrow> int option
    \<Rightarrow> string + (bool \<times> store)" where
  "kv_set st key val nx xx ro sid =
     (if is_reserved key then Inl (''READONLY cannot SET '' @ key)
      else case check_owner st key sid of
        Some e \<Rightarrow> Inl e
      | None \<Rightarrow>
          let ex = dict_mem (data st) key in
          if nx \<and> ex then Inr (False, st)
          else if xx \<and> \<not> ex then Inr (False, st)
          else
            let st1 = st\<lparr>data := dict_set (data st) key val\<rparr> in
            Inr (True,
              case sid of
                None \<Rightarrow> st1
              | Some s \<Rightarrow>
                  if ro then st1\<lparr>owners := dict_set (owners st) key s\<rparr>
                  else if owners st \<noteq> [] \<and> dict_get (owners st) key = Some s
                  then st1\<lparr>owners := dict_del (owners st) key\<rparr>
                  else st1))"

definition kv_get :: "store \<Rightarrow> string \<Rightarrow> string option" where
  "kv_get st key = dict_get (data st) key"

definition kv_mget :: "store \<Rightarrow> string list \<Rightarrow> string option list" where
  "kv_mget st keys = map (dict_get (data st)) keys"

text \<open>The first loop of \<open>mset\<close> and of \<open>delete\<close>: the exception of the first key that may not be
  changed.\<close>

fun check_keys :: "store \<Rightarrow> string \<Rightarrow> string list \<Rightarrow> int option \<Rightarrow> string option" where
  "check_keys st verb [] sid = None"
| "check_keys st verb (key # keys) sid =
     (if is_reserved key then Some (''READONLY cannot '' @ verb @ '' '' @ key)
      else case check_owner st key sid of Some e \<Rightarrow> Some e | None \<Rightarrow> check_keys st verb keys sid)"

definition kv_mset :: "store \<Rightarrow> (string \<times> string) list \<Rightarrow> int option \<Rightarrow> string + store" where
  "kv_mset st pairs sid =
     (case check_keys st ''SET'' (map fst pairs) sid of
        Some e \<Rightarrow> Inl e
      | None \<Rightarrow> Inr (st\<lparr>data := fold (\<lambda>(key, val) d. dict_set d key val) pairs (data st)\<rparr>))"

fun delete_loop :: "bool \<Rightarrow> string list \<Rightarrow> nat \<Rightarrow> store \<Rightarrow> nat \<times> store" where
  "delete_loop has_owners [] count st = (count, st)"
| "delete_loop has_owners (key # keys) count st =
     (if dict_mem (data st) key
      then delete_loop has_owners keys (Suc count)
             (st\<lparr>data := dict_del (data st) key,
                 owners := (if has_owners then dict_del (owners st) key else owners st)\<rparr>)
      else delete_loop has_owners keys count st)"

definition kv_delete :: "store \<Rightarrow> string list \<Rightarrow> int option \<Rightarrow> string + (nat \<times> store)" where
  "kv_delete st keys sid =
     (case check_keys st ''DEL'' keys sid of
        Some e \<Rightarrow> Inl e
      | None \<Rightarrow> Inr (delete_loop (owners st \<noteq> []) keys 0 st))"

definition kv_exists :: "store \<Rightarrow> string list \<Rightarrow> nat" where
  "kv_exists st keys = length (filter (dict_mem (data st)) keys)"

definition kv_keys :: "store \<Rightarrow> string \<Rightarrow> string list" where
  "kv_keys st pattern =
     (if pattern = ''*'' then filter (\<lambda>k. \<not> is_reserved k) (dict_keys (data st))
      else if endswith pattern ''*'' \<and> \<not> contains (butlast pattern) ''*''
          \<and> \<not> contains pattern ''?'' \<and> \<not> contains pattern ''[''
      then filter (\<lambda>k. \<not> is_reserved k \<and> startswith k (butlast pattern)) (dict_keys (data st))
      else filter (\<lambda>k. \<not> is_reserved k \<and> fnmatch k pattern) (dict_keys (data st)))"

definition kv_dbsize :: "store \<Rightarrow> nat" where
  "kv_dbsize st = length (filter (\<lambda>k. \<not> is_reserved k) (dict_keys (data st)))"

definition flush_key :: "int option \<Rightarrow> string \<Rightarrow> store \<Rightarrow> store" where
  "flush_key sid k st =
     (case dict_get (owners st) k of
        Some own \<Rightarrow>
          if Some own \<noteq> sid then st
          else st\<lparr>data := dict_del (data st) k, owners := dict_del (owners st) k\<rparr>
      | None \<Rightarrow> st\<lparr>data := dict_del (data st) k, owners := dict_del (owners st) k\<rparr>)"

definition kv_flushdb :: "store \<Rightarrow> int option \<Rightarrow> store" where
  "kv_flushdb st sid = fold (flush_key sid) (filter (\<lambda>k. \<not> is_reserved k) (dict_keys (data st))) st"

definition release_owner :: "store \<Rightarrow> int \<Rightarrow> store" where
  "release_owner st sid =
     st\<lparr>owners := fold (\<lambda>k d. dict_del d k) (map fst (filter (\<lambda>(k, v). v = sid) (owners st))) (owners st)\<rparr>"

subsection \<open>Measurements\<close>

definition meas_key :: "string \<Rightarrow> string \<Rightarrow> string" where
  "meas_key inst res = ''_meas:'' @ inst @ '':'' @ res"

definition write_meas :: "store \<Rightarrow> string \<Rightarrow> string \<Rightarrow> string option \<Rightarrow> string \<Rightarrow> pyfloat \<Rightarrow> store" where
  "write_meas st inst res val status now =
     st\<lparr>meas := dict_set (meas st) (meas_key inst res)
                 \<lparr> meas_val = val, meas_ts = now, meas_status = status \<rparr>\<rparr>"

text \<open>The entries are objects: the list returned shares them with the store, so it shows them as they
  are after the loop.\<close>

definition invalidate_meas :: "store \<Rightarrow> string \<Rightarrow> pyfloat \<Rightarrow> (string \<times> string \<times> meas_value) list \<times> store" where
  "invalidate_meas st inst now =
     (let prefix = ''_meas:'' @ inst @ '':'';
          hit = (\<lambda>key m. startswith key prefix \<and> meas_status m \<noteq> ''STALE'');
          stale = (\<lambda>m. m\<lparr>meas_ts := now, meas_status := ''STALE''\<rparr>)
      in (map (\<lambda>(key, m). (inst, drop (length prefix) key, stale m))
            (filter (\<lambda>(key, m). hit key m) (meas st)),
          st\<lparr>meas := dict_map (\<lambda>key m. if hit key m then stale m else m) (meas st)\<rparr>))"

definition get_meas :: "store \<Rightarrow> string \<Rightarrow> string \<Rightarrow> meas_value option" where
  "get_meas st inst res = dict_get (meas st) (meas_key inst res)"

text \<open>An empty instrument name counts as none given.\<close>

definition meas_selected :: "string option \<Rightarrow> string \<Rightarrow> bool" where
  "meas_selected inst key =
     (case inst of
        None \<Rightarrow> True
      | Some i \<Rightarrow> i = [] \<or> startswith key (''_meas:'' @ i @ '':''))"

text \<open>\<open>inst, res = raw.split(':', 1)\<close>, then \<open>inst res\<close>.\<close>

definition display_key :: "string \<Rightarrow> string" where
  "display_key key =
     (case split_first colon (drop (length ''_meas:'') key) of
        (inst, Some res) \<Rightarrow> inst @ '' '' @ res
      | (inst, None) \<Rightarrow> inst)"

definition get_all_meas :: "store \<Rightarrow> string option \<Rightarrow> (string \<times> meas_value) list" where
  "get_all_meas st inst =
     map (\<lambda>(key, m). (display_key key, m)) (filter (\<lambda>(key, m). meas_selected inst key) (meas st))"

definition get_meas_keys :: "store \<Rightarrow> string option \<Rightarrow> string list" where
  "get_meas_keys st inst = map display_key (filter (meas_selected inst) (dict_keys (meas st)))"

subsection \<open>The invariant\<close>

text \<open>Dictionaries have distinct keys, only keys that exist are owned, no client key is reserved, and
  the measurement keys have the form \<open>meas_key\<close> gives them.\<close>

definition store_ok :: "store \<Rightarrow> bool" where
  "store_ok st =
     (dict_ok (data st) \<and> dict_ok (owners st) \<and> dict_ok (meas st)
      \<and> list_all (dict_mem (data st)) (dict_keys (owners st))
      \<and> list_all (\<lambda>k. \<not> is_reserved k) (dict_keys (data st))
      \<and> list_all (\<lambda>k. \<exists>i r. k = meas_key i r) (dict_keys (meas st)))"

lemma list_all_keys: "list_all P (dict_keys d) \<longleftrightarrow> (\<forall>k. dict_get d k \<noteq> None \<longrightarrow> P k)"
  by (auto simp: list_all_iff dict_keys_get)

lemmas store_ok_iff = store_ok_def[unfolded list_all_keys]

lemma store_okD:
  assumes "store_ok st"
  shows "dict_ok (data st)" "dict_ok (owners st)" "dict_ok (meas st)"
    and "dict_get (owners st) k = Some s \<Longrightarrow> dict_mem (data st) k"
    and "dict_get (data st) k = Some v \<Longrightarrow> \<not> is_reserved k"
    and "dict_get (meas st) k = Some m \<Longrightarrow> \<exists>i r. k = meas_key i r"
  using assms by (auto simp: store_ok_iff)

lemma new_store_ok: "store_ok new_store"
  by (simp add: store_ok_iff new_store_def)

lemma check_owner_None: "check_owner st key sid = None \<longleftrightarrow> (\<forall>s. dict_get (owners st) key = Some s \<longrightarrow> Some s = sid)"
  by (auto simp: check_owner_def split: option.splits)

lemma check_keys_None:
  "check_keys st verb keys sid = None \<longleftrightarrow> (\<forall>k \<in> set keys. \<not> is_reserved k \<and> check_owner st k sid = None)"
  by (induction keys) (auto split: option.splits)

lemma kv_set_ok:
  assumes "store_ok st" "kv_set st key val nx xx ro sid = Inr (b, st')"
  shows "store_ok st'"
  using assms
  by (auto simp: kv_set_def Let_def store_ok_iff dict_simps dict_ok_set dict_ok_del
      split: if_splits option.splits)

lemma dict_set_all_get:
  "dict_get (fold (\<lambda>(k, v) d. dict_set d k v) ps d) k
     = (case map_of (rev ps) k of Some v \<Rightarrow> Some v | None \<Rightarrow> dict_get d k)"
  by (rule pydict.get_set_all)

lemma kv_mset_ok: "store_ok st \<Longrightarrow> kv_mset st pairs sid = Inr st' \<Longrightarrow> store_ok st'"
  by (auto simp: kv_mset_def store_ok_iff dict_set_all_get pydict.ok_set_all dict_mem_def check_keys_None
      dest!: map_of_SomeD split: option.splits) (metis fst_conv)

text \<open>Deleting a key that is there, with its ownership.\<close>

definition drop_key :: "string \<Rightarrow> store \<Rightarrow> store" where
  "drop_key k st = st\<lparr>data := dict_del (data st) k, owners := dict_del (owners st) k\<rparr>"

lemma drop_key_ok: "store_ok st \<Longrightarrow> store_ok (drop_key k st)"
  by (auto simp: store_ok_iff drop_key_def dict_simps dict_ok_del split: if_splits)

lemma drop_key_get [simp]:
  "dict_get (data (drop_key k st)) k' = (if k' = k then None else dict_get (data st) k')"
  "dict_get (owners (drop_key k st)) k' = (if k' = k then None else dict_get (owners st) k')"
  "meas (drop_key k st) = meas st"
  by (simp_all add: drop_key_def dict_simps)

lemma dict_del_Nil [simp]: "dict_del [] k = []"
  by (simp add: dict_del_def)

lemma delete_loop_Cons:
  "\<not> h \<longrightarrow> owners st = [] \<Longrightarrow>
   delete_loop h (k # ks) n st =
     (if dict_mem (data st) k then delete_loop h ks (Suc n) (drop_key k st) else delete_loop h ks n st)"
  by (simp add: drop_key_def)

lemma delete_loop_spec:
  "\<not> h \<longrightarrow> owners st = [] \<Longrightarrow> store_ok st \<Longrightarrow> delete_loop h ks n st = (c, st') \<Longrightarrow>
   store_ok st' \<and> meas st' = meas st
   \<and> (\<forall>k. dict_get (data st') k = (if k \<in> set ks then None else dict_get (data st) k))
   \<and> (\<forall>k. dict_get (owners st') k = (if k \<in> set ks then None else dict_get (owners st) k))
   \<and> c = n + card {k \<in> set ks. dict_mem (data st) k}"
proof (induction ks arbitrary: n st)
  case Nil
  then show ?case by simp
next
  case (Cons k ks)
  show ?case
  proof (cases "dict_mem (data st) k")
    case False
    then have e: "{x. (x = k \<or> x \<in> set ks) \<and> dict_mem (data st) x} = {x \<in> set ks. dict_mem (data st) x}" by auto
    have "dict_get (owners st) k = None"
      using False store_okD(4)[OF Cons.prems(2), of k] by (cases "dict_get (owners st) k") auto
    moreover have "dict_get (data st) k = None" using False by (simp add: dict_mem_def)
    ultimately show ?thesis
      using False Cons.IH[of st n] Cons.prems by (auto simp: delete_loop_Cons e simp del: delete_loop.simps)
  next
    case True
    have m: "dict_mem (data (drop_key k st)) x \<longleftrightarrow> x \<noteq> k \<and> dict_mem (data st) x" for x
      by (simp add: dict_mem_def)
    have "{x. (x = k \<or> x \<in> set ks) \<and> dict_mem (data st) x}
        = insert k {x \<in> set ks. x \<noteq> k \<and> dict_mem (data st) x}"
      using True by auto
    then have card: "card {x. (x = k \<or> x \<in> set ks) \<and> dict_mem (data st) x}
        = Suc (card {x \<in> set ks. x \<noteq> k \<and> dict_mem (data st) x})" by simp
    have "\<not> h \<longrightarrow> owners (drop_key k st) = []" using Cons.prems(1) by (simp add: drop_key_def)
    from Cons.IH[OF this drop_key_ok[OF Cons.prems(2)], of "Suc n"] Cons.prems True show ?thesis
      by (auto simp: delete_loop_Cons m card simp del: delete_loop.simps)
  qed
qed

lemma kv_delete_spec:
  assumes "store_ok st" "kv_delete st ks sid = Inr (c, st')"
  shows "store_ok st'" "meas st' = meas st"
    and "dict_get (data st') k = (if k \<in> set ks then None else dict_get (data st) k)"
    and "dict_get (owners st') k = (if k \<in> set ks then None else dict_get (owners st) k)"
    and "c = card {k \<in> set ks. dict_mem (data st) k}"
  using delete_loop_spec[of "owners st \<noteq> []" st ks 0 c st'] assms
  by (simp_all add: kv_delete_def split: option.splits)

subsection \<open>Flushing and releasing\<close>

definition foreign :: "store \<Rightarrow> int option \<Rightarrow> string \<Rightarrow> bool" where
  "foreign st sid k = (\<exists>own. dict_get (owners st) k = Some own \<and> Some own \<noteq> sid)"

lemma flush_key_eq: "flush_key sid k st = (if foreign st sid k then st else drop_key k st)"
  by (auto simp: flush_key_def foreign_def drop_key_def split: option.splits)

lemma flush_loop_spec:
  "store_ok st \<Longrightarrow> distinct ks \<Longrightarrow>
   store_ok (fold (flush_key sid) ks st) \<and> meas (fold (flush_key sid) ks st) = meas st
   \<and> (\<forall>k. dict_get (data (fold (flush_key sid) ks st)) k
             = (if k \<in> set ks \<and> \<not> foreign st sid k then None else dict_get (data st) k))
   \<and> (\<forall>k. dict_get (owners (fold (flush_key sid) ks st)) k
             = (if k \<in> set ks \<and> \<not> foreign st sid k then None else dict_get (owners st) k))"
proof (induction ks arbitrary: st)
  case Nil
  then show ?case by simp
next
  case (Cons k ks)
  have f: "foreign (drop_key k st) sid x \<longleftrightarrow> x \<noteq> k \<and> foreign st sid x" for x by (simp add: foreign_def)
  show ?case
    using Cons.IH[of "flush_key sid k st"] Cons.prems drop_key_ok[of st k] f
    by (auto simp: flush_key_eq)
qed

lemma kv_flushdb_spec:
  assumes "store_ok st"
  shows "store_ok (kv_flushdb st sid)" "meas (kv_flushdb st sid) = meas st"
    and "dict_get (data (kv_flushdb st sid)) k = (if foreign st sid k then dict_get (data st) k else None)"
    and "dict_get (owners (kv_flushdb st sid)) k = (if foreign st sid k then dict_get (owners st) k else None)"
proof -
  have d: "distinct (filter (\<lambda>k. \<not> is_reserved k) (dict_keys (data st)))"
    using store_okD(1)[OF assms] by (simp add: dict_ok_def dict_keys_def)
  have n: "dict_get (data st) k = None \<Longrightarrow> dict_get (owners st) k = None"
    using store_okD(4)[OF assms, of k] by (cases "dict_get (owners st) k") (auto simp: dict_mem_def)
  note s = flush_loop_spec[OF assms d, of sid, folded kv_flushdb_def]
  show "store_ok (kv_flushdb st sid)" "meas (kv_flushdb st sid) = meas st" using s by auto
  show "dict_get (data (kv_flushdb st sid)) k = (if foreign st sid k then dict_get (data st) k else None)"
    using s store_okD(5)[OF assms, of k] by (cases "dict_get (data st) k") (auto simp: dict_keys_get)
  show "dict_get (owners (kv_flushdb st sid)) k = (if foreign st sid k then dict_get (owners st) k else None)"
    using s store_okD(5)[OF assms, of k] n by (auto simp: dict_keys_get)
qed

lemma release_owner_spec:
  assumes "store_ok st"
  shows "dict_get (owners (release_owner st sid)) k
           = (if dict_get (owners st) k = Some sid then None else dict_get (owners st) k)"
    and "data (release_owner st sid) = data st" "meas (release_owner st sid) = meas st"
    and "store_ok (release_owner st sid)"
proof -
  show g: "dict_get (owners (release_owner st sid)) k
      = (if dict_get (owners st) k = Some sid then None else dict_get (owners st) k)" for k
    using store_okD(2)[OF assms] by (auto simp: release_owner_def fold_del_get dict_get_items image_iff split_beta)
  show "data (release_owner st sid) = data st" "meas (release_owner st sid) = meas st"
    by (simp_all add: release_owner_def)
  have "dict_ok (owners (release_owner st sid))"
    using store_okD(2)[OF assms]
    by (auto simp: release_owner_def intro!: fold_invariant_on[where P = dict_ok] dict_ok_del)
  with assms g show "store_ok (release_owner st sid)"
    by (auto simp: store_ok_iff) (auto simp: release_owner_def split: if_splits)
qed

subsection \<open>Read-only keys\<close>

lemma write_meas_ok: "store_ok st \<Longrightarrow> store_ok (write_meas st i r v s now)"
  by (auto simp: store_ok_iff write_meas_def dict_simps dict_ok_set)

lemma invalidate_meas_ok: "store_ok st \<Longrightarrow> store_ok (snd (invalidate_meas st i now))"
  by (auto simp: store_ok_iff invalidate_meas_def Let_def dict_simps)

text \<open>The operations that change the store, as one step of a session: an exception leaves the store as it
  was.  The last two are the measurements that a read or a guard files and that an unlock makes stale.\<close>

datatype kv_op =
    OpSet string string bool bool bool
  | OpMset "(string \<times> string) list"
  | OpDelete "string list"
  | OpFlush
  | OpRelease
  | OpMeas string string "string option" string pyfloat
  | OpStale string pyfloat

fun kv_step :: "kv_op \<Rightarrow> int \<Rightarrow> store \<Rightarrow> store" where
  "kv_step (OpSet k v nx xx ro) sid st =
     (case kv_set st k v nx xx ro (Some sid) of Inr (_, st') \<Rightarrow> st' | Inl _ \<Rightarrow> st)"
| "kv_step (OpMset ps) sid st = (case kv_mset st ps (Some sid) of Inr st' \<Rightarrow> st' | Inl _ \<Rightarrow> st)"
| "kv_step (OpDelete ks) sid st = (case kv_delete st ks (Some sid) of Inr (_, st') \<Rightarrow> st' | Inl _ \<Rightarrow> st)"
| "kv_step OpFlush sid st = kv_flushdb st (Some sid)"
| "kv_step OpRelease sid st = release_owner st sid"
| "kv_step (OpMeas inst res val status now) sid st = write_meas st inst res val status now"
| "kv_step (OpStale inst now) sid st = snd (invalidate_meas st inst now)"

lemma kv_step_ok: "store_ok st \<Longrightarrow> store_ok (kv_step a sid st)"
  by (cases a) (auto split: sum.splits prod.splits
      intro: kv_set_ok kv_mset_ok kv_delete_spec(1) kv_flushdb_spec(1) release_owner_spec(4) write_meas_ok invalidate_meas_ok)

definition key_owner :: "store \<Rightarrow> string \<Rightarrow> int option" where
  "key_owner st k = dict_get (owners st) k"

lemma kv_step_foreign:
  assumes "store_ok st" "key_owner st k = Some own" "sid \<noteq> own"
  shows "key_owner (kv_step a sid st) k = Some own \<and> kv_get (kv_step a sid st) k = kv_get st k"
proof (cases a)
  case (OpSet key v nx xx ro)
  with assms show ?thesis
    by (auto simp: kv_set_def key_owner_def kv_get_def Let_def dict_simps check_owner_None split: option.splits)
next
  case (OpMset ps)
  show ?thesis
  proof (cases "kv_mset st ps (Some sid)")
    case (Inr st')
    with assms(2,3) have "k \<notin> fst ` set ps"
      by (auto simp: kv_mset_def check_keys_None check_owner_None key_owner_def split: option.splits)
    then have "map_of (rev ps) k = None" by (simp add: map_of_eq_None_iff)
    with OpMset Inr assms(2) show ?thesis
      by (auto simp: kv_mset_def key_owner_def kv_get_def dict_set_all_get split: option.splits)
  qed (use OpMset assms in simp)
next
  case (OpDelete ks)
  show ?thesis
  proof (cases "kv_delete st ks (Some sid)")
    case (Inr r)
    obtain c st' where r: "r = (c, st')" by fastforce
    with assms(2,3) Inr have "k \<notin> set ks"
      by (auto simp: kv_delete_def check_keys_None check_owner_None key_owner_def split: option.splits)
    with kv_delete_spec(3,4)[OF assms(1) Inr[unfolded r], of k] OpDelete Inr r assms(2) show ?thesis
      by (simp add: key_owner_def kv_get_def)
  qed (use OpDelete assms in simp)
next
  case OpFlush
  have "foreign st (Some sid) k" using assms by (simp add: foreign_def key_owner_def)
  with OpFlush kv_flushdb_spec(3,4)[OF assms(1), of "Some sid" k] assms(2) show ?thesis
    by (simp add: key_owner_def kv_get_def)
next
  case OpRelease
  with release_owner_spec[OF assms(1), of sid] assms show ?thesis
    by (simp add: key_owner_def kv_get_def)
qed (use assms(2) in \<open>simp_all add: write_meas_def invalidate_meas_def Let_def key_owner_def kv_get_def\<close>)

interpretation ro_keys: owned_by_session kv_step key_owner kv_get store_ok
  by unfold_locales (auto simp: kv_step_ok kv_step_foreign)

subsection \<open>Listing keys\<close>

lemma contains_char: "contains s [c] \<longleftrightarrow> c \<in> set s"
proof -
  have "find_sub [c] s = None \<longleftrightarrow> c \<notin> set s" by (induction s) auto
  then show ?thesis by (simp add: contains_def)
qed

lemma endswith_star: "endswith p ''*'' \<Longrightarrow> p = butlast p @ ''*''"
proof -
  assume "endswith p ''*''"
  then obtain t where "rev p = ''*'' @ t" by (auto simp: endswith_def startswith_iff)
  then have "p = rev t @ ''*''" using arg_cong[of "rev p" _ rev] by fastforce
  then show ?thesis by simp
qed

lemma kv_keys_fnmatch:
  assumes "utf8_valid pattern" "list_all utf8_valid (dict_keys (data st))"
  shows "kv_keys st pattern = filter (\<lambda>k. \<not> is_reserved k \<and> fnmatch k pattern) (dict_keys (data st))"
proof -
  have fast: "fnmatch k (p @ ''*'') = startswith k p"
    if "k \<in> set (dict_keys (data st))" "utf8_valid (p @ ''*'')"
       "CHR ''*'' \<notin> set p" "CHR ''?'' \<notin> set p" "CHR ''['' \<notin> set p" for k p
    using that assms(2) by (intro fnmatch_prefix utf8_valid_before_ascii[of p _ "[]"]) (auto simp: list_all_iff byte_def)
  show ?thesis
  proof (cases "pattern = ''*''")
    case True
    have "fnmatch k ''*''" if "k \<in> set (dict_keys (data st))" for k
      using fast[of k "[]"] that assms True by simp
    with True show ?thesis by (auto simp: kv_keys_def intro: filter_cong)
  next
    case False
    show ?thesis
    proof (cases "endswith pattern ''*'' \<and> \<not> contains (butlast pattern) ''*''
          \<and> \<not> contains pattern ''?'' \<and> \<not> contains pattern ''[''")
      case slow: False
      with False show ?thesis by (auto simp: kv_keys_def)
    next
      case True
      define p where "p = butlast pattern"
      have p: "pattern = p @ ''*''" using endswith_star True by (simp add: p_def)
      with True have "CHR ''*'' \<notin> set p" "CHR ''?'' \<notin> set p" "CHR ''['' \<notin> set p"
        by (simp_all add: contains_char)
      with fast[of _ p] assms(1) p have "fnmatch k pattern = startswith k p"
        if "k \<in> set (dict_keys (data st))" for k using that by simp
      with True False show ?thesis by (auto simp: kv_keys_def p_def[symmetric] intro: filter_cong)
    qed
  qed
qed

subsection \<open>Measurements are filed under instrument and resource\<close>

lemma meas_key_inject: "colon \<notin> set i \<Longrightarrow> colon \<notin> set i' \<Longrightarrow> meas_key i r = meas_key i' r' \<Longrightarrow> i = i' \<and> r = r'"
proof -
  assume a: "colon \<notin> set i" "colon \<notin> set i'" "meas_key i r = meas_key i' r'"
  then have "split_first colon (i @ colon # r) = split_first colon (i' @ colon # r')"
    by (simp only: meas_key_def append.simps same_append_eq list.inject simp_thms)
  then have "(i, Some r) = (i', Some r')" unfolding split_first_notin[OF a(1)] split_first_notin[OF a(2)] .
  then show "i = i' \<and> r = r'" by simp
qed

lemma meas_prefix: "colon \<notin> set i \<Longrightarrow> colon \<notin> set j \<Longrightarrow>
    startswith (meas_key j r) (''_meas:'' @ i @ '':'') \<longleftrightarrow> j = i"
proof -
  assume ij: "colon \<notin> set i" "colon \<notin> set j"
  have "startswith (meas_key j r) (''_meas:'' @ i @ '':'') \<longleftrightarrow> (\<exists>t. meas_key j r = meas_key i t)"
    by (simp only: startswith_iff meas_key_def append_assoc append.simps)
  also have "\<dots> \<longleftrightarrow> j = i" using meas_key_inject[OF ij(2,1)] by auto
  finally show ?thesis .
qed

lemma display_meas_key: "colon \<notin> set i \<Longrightarrow> display_key (meas_key i r) = i @ '' '' @ r"
  using split_first_notin[of colon i r] by (simp add: display_key_def meas_key_def)

lemma get_meas_write:
  "colon \<notin> set i \<Longrightarrow> colon \<notin> set j \<Longrightarrow>
   get_meas (write_meas st i r v s now) j q
     = (if j = i \<and> q = r then Some \<lparr> meas_val = v, meas_ts = now, meas_status = s \<rparr> else get_meas st j q)"
  using meas_key_inject[of j i q r] by (auto simp: get_meas_def write_meas_def dict_simps)

lemma get_meas_invalidate:
  "colon \<notin> set i \<Longrightarrow> colon \<notin> set j \<Longrightarrow>
   get_meas (snd (invalidate_meas st i now)) j q
     = map_option (\<lambda>m. if j = i \<and> meas_status m \<noteq> ''STALE'' then m\<lparr>meas_ts := now, meas_status := ''STALE''\<rparr> else m)
         (get_meas st j q)"
  using meas_prefix[of i j q]
  by (auto simp: get_meas_def invalidate_meas_def Let_def dict_simps intro!: option.map_cong0)

subsection \<open>Properties\<close>

text \<open>C25: every operation that changes the store, those on measurements included, keeps it well formed: keys are distinct, no client key has a reserved prefix,
  only existing keys have an owner, and the measurement entries have measurement keys.\<close>

theorem store_well_formed:
  "store_ok st \<Longrightarrow> store_ok (fold (\<lambda>(a, sid). kv_step a sid) history st)"
  by (rule ro_keys.history_inv)

theorem store_well_formed_witness:
  "store_ok (fold (\<lambda>(a, sid). kv_step a sid) [(OpSet ''a'' ''1'' False False True, 1), (OpDelete [''a''], 2), (OpMeas ''psu'' ''V'' (Some ''3'') ''OK'' (f_of_int 0), 1), (OpStale ''psu'' (f_of_int 1), 1)] new_store)"
  by (rule store_well_formed[OF new_store_ok])

text \<open>C7: a read-only key is safe from other sessions: whatever they set, delete, flush or release, in any
  number and order, the key keeps its value and its owner.\<close>

theorem read_only_keys_safe:
  assumes "store_ok st" "dict_get (owners st) k = Some own" "list_all (\<lambda>(a, sid). sid \<noteq> own) history"
  shows "let st' = fold (\<lambda>(a, sid). kv_step a sid) history st in
           dict_get (owners st') k = Some own \<and> kv_get st' k = kv_get st k"
  using ro_keys.history_keeps[of st k own history] assms by (simp add: key_owner_def)

theorem read_only_keys_safe_witness:
  "let st = \<lparr> data = [(''a'', ''1'')], owners = [(''a'', 1)], meas = [] \<rparr>;
       st' = fold (\<lambda>(a, sid). kv_step a sid) [(OpDelete [''a''], 2), (OpFlush, 3)] st in
     dict_get (owners st') ''a'' = Some 1 \<and> kv_get st' ''a'' = kv_get st ''a''"
  unfolding Let_def
  by (rule read_only_keys_safe[unfolded Let_def])
    (simp_all add: store_ok_def dict_ok_def dict_keys_def dict_mem_def dict_get_def is_reserved_def RESERVED_PREFIXES_def)

text \<open>C8: \<open>KMSET\<close> is all or nothing.  It is refused exactly when one of its keys is reserved or read-only for
  another session, and then nothing is stored; otherwise every pair is, the last one winning for a key
  given twice, and other keys keep their value.\<close>

theorem mset_all_or_nothing:
  "case kv_mset st pairs sid of
     Inl e \<Rightarrow> (\<exists>k \<in> set (map fst pairs). is_reserved k \<or> check_owner st k sid \<noteq> None)
   | Inr st' \<Rightarrow>
       \<not> (\<exists>k \<in> set (map fst pairs). is_reserved k \<or> check_owner st k sid \<noteq> None)
       \<and> (\<forall>k. kv_get st' k = (case map_of (rev pairs) k of Some v \<Rightarrow> Some v | None \<Rightarrow> kv_get st k))
       \<and> owners st' = owners st"
  using check_keys_None[of st "''SET''" "map fst pairs" sid]
  by (auto simp: kv_mset_def kv_get_def dict_set_all_get split: option.splits)

theorem mset_all_or_nothing_witness:
  "kv_get \<lparr> data = [(''a'', ''2''), (''b'', ''3'')], owners = [], meas = [] \<rparr> ''a'' = Some ''2''
   \<and> kv_get \<lparr> data = [(''a'', ''2''), (''b'', ''3'')], owners = [], meas = [] \<rparr> ''c'' = kv_get new_store ''c''"
proof -
  have "kv_mset new_store [(''a'', ''1''), (''b'', ''3''), (''a'', ''2'')] (Some 1)
      = Inr \<lparr> data = [(''a'', ''2''), (''b'', ''3'')], owners = [], meas = [] \<rparr>"
    by (simp add: kv_mset_def new_store_def is_reserved_def RESERVED_PREFIXES_def check_owner_def dict_set_def)
  with mset_all_or_nothing[where st = new_store and pairs = "[(''a'', ''1''), (''b'', ''3''), (''a'', ''2'')]" and sid = "Some 1"]
  show ?thesis by simp
qed

text \<open>C27: \<open>KDEL\<close> removes exactly the keys given, with their ownership, and counts those that existed, once
  each.\<close>

theorem delete_removes_and_counts:
  assumes "store_ok st" "kv_delete st ks sid = Inr (n, st')"
  shows "kv_get st' k = (if k \<in> set ks then None else kv_get st k)
         \<and> dict_get (owners st') k = (if k \<in> set ks then None else dict_get (owners st) k)
         \<and> n = card {k \<in> set ks. kv_get st k \<noteq> None}"
  using kv_delete_spec[OF assms] by (simp add: kv_get_def dict_mem_def)

theorem delete_removes_and_counts_witness:
  "kv_get new_store ''a'' = (if ''a'' \<in> set [''a'', ''a''] then None else kv_get new_store ''a'')
   \<and> dict_get (owners new_store) ''a'' = (if ''a'' \<in> set [''a'', ''a''] then None else dict_get (owners new_store) ''a'')
   \<and> 1 = card {k \<in> set [''a'', ''a'']. kv_get \<lparr> data = [(''a'', ''1'')], owners = [(''a'', 1)], meas = [] \<rparr> k \<noteq> None}"
proof -
  let ?st = "\<lparr> data = [(''a'', ''1'')], owners = [(''a'', 1)], meas = [] \<rparr>"
  have "store_ok ?st"
    by (simp add: store_ok_def dict_ok_def dict_keys_def dict_mem_def dict_get_def is_reserved_def RESERVED_PREFIXES_def)
  moreover have "kv_delete ?st [''a'', ''a''] (Some 1) = Inr (1, new_store)"
    by (simp add: kv_delete_def new_store_def is_reserved_def RESERVED_PREFIXES_def check_owner_def dict_get_def
        dict_mem_def dict_del_def)
  ultimately show ?thesis
    using delete_removes_and_counts[of ?st "[''a'', ''a'']" "Some 1" 1 new_store "''a''"]
    by (simp add: kv_get_def new_store_def)
qed

text \<open>C28: the fast path of \<open>KKEYS\<close> is an optimisation only: for every pattern the result is the client keys
  that \<open>fnmatch\<close> matches, in the order of the store.\<close>

theorem keys_fast_path_agrees:
  assumes "utf8_valid pattern" "list_all utf8_valid (dict_keys (data st))"
  shows "kv_keys st pattern = filter (\<lambda>k. \<not> is_reserved k \<and> fnmatch k pattern) (dict_keys (data st))"
  by (rule kv_keys_fnmatch[OF assms])

theorem keys_fast_path_agrees_witness:
  "kv_keys \<lparr> data = [(''a1'', ''x''), (''b'', ''y'')], owners = [], meas = [] \<rparr> ''a*''
     = filter (\<lambda>k. \<not> is_reserved k \<and> fnmatch k ''a*'') [''a1'', ''b'']"
  using keys_fast_path_agrees[of "''a*''" "\<lparr> data = [(''a1'', ''x''), (''b'', ''y'')], owners = [], meas = [] \<rparr>"]
  by (simp add: dict_keys_def utf8_conts_def utf8_second_def byte_def)

text \<open>C29: measurements are filed per instrument and resource, as long as instrument names have no colon: a
  write changes its own entry only, and marking an instrument stale changes the entries of that
  instrument only, keeping their values.\<close>

theorem measurements_separate:
  assumes "colon \<notin> set i" "colon \<notin> set j"
  shows "get_meas (write_meas st i r v status now) j q
           = (if j = i \<and> q = r then Some \<lparr> meas_val = v, meas_ts = now, meas_status = status \<rparr> else get_meas st j q)
         \<and> get_meas (snd (invalidate_meas st i now)) j q
           = map_option (\<lambda>m. if j = i \<and> meas_status m \<noteq> ''STALE''
                              then m\<lparr>meas_ts := now, meas_status := ''STALE''\<rparr> else m) (get_meas st j q)"
  using get_meas_write[OF assms] get_meas_invalidate[OF assms] by (rule conjI)

theorem measurements_separate_witness:
  "get_meas (write_meas new_store ''vsg'' ''FREQ'' (Some ''1.0'') ''OK'' FNan) ''awg'' ''FREQ'' = None"
  using measurements_separate[of "''vsg''" "''awg''" new_store "''FREQ''" "Some ''1.0''" "''OK''" FNan "''FREQ''"]
  by (simp add: get_meas_def new_store_def)

end
