(* ===== verification/Protocol.thy ===== *)
theory Protocol
  imports PyText
begin

text \<open>
  \<open>testcore/protocol.py\<close>: the RESP parser with inline commands and the serializer.

  A parse function returns a value and the number of bytes consumed; \<open>(RNil, 0)\<close> is the source's
  \<open>(None, 0)\<close>, "need more data".  An exception is \<open>Inl (e, b)\<close>, where \<open>b\<close> is what \<open>self.buffer\<close> holds
  when it is raised: the nested-array fallback replaces the buffer by its tail and an exception
  leaves it so.  \<open>BadUtf8\<close> is \<open>UnicodeDecodeError\<close>, which is not a \<open>RESPProtocolError\<close>;
  \<open>UnknownType\<close> is raised by the parser of the client library only, which shares the type.
\<close>

subsection \<open>Values and errors\<close>

datatype resp = RNil | RStr string | RInt int | RList "resp list"

datatype parse_error =
    InvalidInteger string
  | InvalidBulkLength string
  | InvalidArrayCount string
  | MissingCrlf
  | UnexpectedType char
  | UnknownType char
  | BufferOverflow nat
  | BadUtf8

type_synonym 'm parsed = "(parse_error \<times> string) + ('m \<times> nat)"

abbreviation incomplete :: "'e + (resp \<times> nat)" where
  "incomplete \<equiv> Inr (RNil, 0)"

definition slice :: "string \<Rightarrow> nat \<Rightarrow> nat \<Rightarrow> string" where
  "slice b i j = take (j - i) (drop i b)"

text \<open>\<open>repr\<close> of a byte string, as in the text of a \<open>ValueError\<close> of \<open>int\<close>.\<close>

definition repr_byte :: "char \<Rightarrow> char \<Rightarrow> string" where
  "repr_byte q c =
     (if c = q \<or> c = CHR 0x5C then [CHR 0x5C, c]
      else if c = CHR 0x09 then CHR 0x5C # ''t''
      else if c = CHR 0x0A then CHR 0x5C # ''n''
      else if c = CHR 0x0D then CHR 0x5C # ''r''
      else if 0x20 \<le> byte c \<and> byte c < 0x7F then [c]
      else CHR 0x5C # CHR ''x'' # map (\<lambda>n. ''0123456789abcdef'' ! n) [byte c div 16, byte c mod 16])"

definition repr_bytes :: "string \<Rightarrow> string" where
  "repr_bytes b =
     (let q = (if squote \<in> set b \<and> dquote \<notin> set b then dquote else squote)
      in CHR ''b'' # q # concat (map (repr_byte q) b) @ [q])"

text \<open>\<open>repr\<close> of a string; characters outside ASCII are kept.\<close>

definition repr_str_byte :: "char \<Rightarrow> char \<Rightarrow> string" where
  "repr_str_byte q c = (if 0x80 \<le> byte c then [c] else repr_byte q c)"

definition repr_str :: "string \<Rightarrow> string" where
  "repr_str s =
     (let q = (if squote \<in> set s \<and> dquote \<notin> set s then dquote else squote)
      in q # concat (map (repr_str_byte q) s) @ [q])"

definition int_error_text :: "string \<Rightarrow> string" where
  "int_error_text b = ''invalid literal for int() with base 10: '' @ take 200 (repr_bytes (take 200 b))"

text \<open>\<open>chr(b)\<close> of a byte, as UTF-8.\<close>

definition chr_text :: "char \<Rightarrow> string" where
  "chr_text c = (if byte c < 0x80 then [c] else [char_of (0xC0 + byte c div 64), char_of (0x80 + byte c mod 64)])"

text \<open>\<open>str(e)\<close> for the messages the server sends; \<open>BadUtf8\<close> is never sent.\<close>

fun error_text :: "parse_error \<Rightarrow> string" where
  "error_text (InvalidInteger b) = ''Invalid integer: '' @ int_error_text b"
| "error_text (InvalidBulkLength b) = ''Invalid bulk string length: '' @ int_error_text b"
| "error_text (InvalidArrayCount b) = ''Invalid array count: '' @ int_error_text b"
| "error_text MissingCrlf = ''Missing CRLF after bulk string''"
| "error_text (UnexpectedType c) = ''Unexpected type byte in array: '' @ chr_text c"
| "error_text (UnknownType c) = ''Unknown RESP type byte: '' @ chr_text c"
| "error_text (BufferOverflow n) = ''buffer overflow ('' @ show_nat n @ '' bytes)''"
| "error_text BadUtf8 = []"

subsection \<open>Inline commands\<close>

definition find_newline :: "string \<Rightarrow> (nat \<times> nat) option" where
  "find_newline buf =
     (case find_at crlf buf 0 of
        Some i \<Rightarrow> Some (i, 2)
      | None \<Rightarrow> (case find_at [CHR 0x0A] buf 0 of Some i \<Rightarrow> Some (i, 1) | None \<Rightarrow> None))"

abbreviation inline_blank :: "char \<Rightarrow> bool" where
  "inline_blank c \<equiv> c = CHR 0x20 \<or> c = CHR 0x09"

text \<open>The loop over the command line: skip blanks, then a quoted or an unquoted argument.\<close>

function inline_split :: "string \<Rightarrow> string list" where
  "inline_split s =
     (case dropWhile inline_blank s of
        [] \<Rightarrow> []
      | c # t \<Rightarrow>
          if c = dquote
          then takeWhile (\<lambda>x. x \<noteq> dquote) t # inline_split (drop 1 (dropWhile (\<lambda>x. x \<noteq> dquote) t))
          else (c # takeWhile (\<lambda>x. \<not> inline_blank x) t) # inline_split (dropWhile (\<lambda>x. \<not> inline_blank x) t))"
  by pat_completeness auto
termination
proof (relation "measure length")
  show "wf (measure length)" by simp
next
  fix s :: string and c t
  assume s: "dropWhile inline_blank s = c # t"
  have "Suc (length t) \<le> length s"
    using length_dropWhile_le[of inline_blank s] by (simp add: s)
  moreover have "length (dropWhile (\<lambda>x. x \<noteq> dquote) t) \<le> length t"
    and "length (dropWhile (\<lambda>x. \<not> inline_blank x) t) \<le> length t"
    by (rule length_dropWhile_le)+
  ultimately show "(drop 1 (dropWhile (\<lambda>x. x \<noteq> dquote) t), s) \<in> measure length"
    and "(dropWhile (\<lambda>x. \<not> inline_blank x) t, s) \<in> measure length"
    by auto
qed

declare inline_split.simps [simp del]

definition parse_inline_command :: "string \<Rightarrow> resp parsed" where
  "parse_inline_command buf =
     (case find_newline buf of
        None \<Rightarrow> incomplete
      | Some (i, nl) \<Rightarrow>
          (case utf8_decode (take i buf) of
             None \<Rightarrow> Inl (BadUtf8, buf)
           | Some line \<Rightarrow> Inr (RList (map RStr (inline_split (strip line))), i + nl)))"

subsection \<open>Single values\<close>

definition parse_integer :: "string \<Rightarrow> parse_error + (resp \<times> nat)" where
  "parse_integer buf =
     (case find_at crlf buf 0 of
        None \<Rightarrow> incomplete
      | Some cr \<Rightarrow>
          (case read_int (slice buf 1 cr) of
             None \<Rightarrow> Inl (InvalidInteger (slice buf 1 cr))
           | Some n \<Rightarrow> Inr (RInt n, cr + 2)))"

definition parse_simple_string :: "string \<Rightarrow> parse_error + (resp \<times> nat)" where
  "parse_simple_string buf =
     (case find_at crlf buf 0 of
        None \<Rightarrow> incomplete
      | Some cr \<Rightarrow>
          (case utf8_decode (slice buf 1 cr) of
             None \<Rightarrow> Inl BadUtf8
           | Some s \<Rightarrow> Inr (RStr s, cr + 2)))"

definition parse_error_line :: "string \<Rightarrow> parse_error + (resp \<times> nat)" where
  "parse_error_line buf =
     (case find_at crlf buf 0 of
        None \<Rightarrow> incomplete
      | Some cr \<Rightarrow>
          (case utf8_decode (slice buf 1 cr) of
             None \<Rightarrow> Inl BadUtf8
           | Some s \<Rightarrow> Inr (RStr (''ERR_'' @ s), cr + 2)))"

definition parse_bulk_string :: "string \<Rightarrow> parse_error + (resp \<times> nat)" where
  "parse_bulk_string buf =
     (case find_at crlf buf 0 of
        None \<Rightarrow> incomplete
      | Some cr \<Rightarrow>
          (case read_int (slice buf 1 cr) of
             None \<Rightarrow> Inl (InvalidBulkLength (slice buf 1 cr))
           | Some len \<Rightarrow>
               if len < 0 then Inr (RNil, cr + 2)
               else let str_start = cr + 2; str_end = str_start + nat len in
                 if length buf < str_end + 2 then incomplete
                 else if slice buf str_end (str_end + 2) \<noteq> crlf then Inl MissingCrlf
                 else (case utf8_decode (slice buf str_start str_end) of
                         None \<Rightarrow> Inl BadUtf8
                       | Some s \<Rightarrow> Inr (RStr s, str_end + 2))))"

subsection \<open>Arrays\<close>

text \<open>The items of an array that are not arrays; \<open>rest\<close> is the buffer from \<open>pos\<close> on, so the search for
  CRLF starts at its second byte.\<close>

definition array_bulk :: "string \<Rightarrow> parse_error + (resp \<times> nat)" where
  "array_bulk rest =
     (case find_at crlf rest 1 of
        None \<Rightarrow> incomplete
      | Some cr \<Rightarrow>
          (case read_int (slice rest 1 cr) of
             None \<Rightarrow> Inl (InvalidBulkLength (slice rest 1 cr))
           | Some len \<Rightarrow>
               if len < 0 then Inr (RNil, cr + 2)
               else let str_start = cr + 2; str_end = str_start + nat len in
                 if length rest < str_end + 2 then incomplete
                 else if slice rest str_end (str_end + 2) \<noteq> crlf then Inl MissingCrlf
                 else (case utf8_decode (slice rest str_start str_end) of
                         None \<Rightarrow> Inl BadUtf8
                       | Some s \<Rightarrow> Inr (RStr s, str_end + 2))))"

definition array_integer :: "string \<Rightarrow> parse_error + (resp \<times> nat)" where
  "array_integer rest =
     (case find_at crlf rest 1 of
        None \<Rightarrow> incomplete
      | Some cr \<Rightarrow>
          (case read_int (slice rest 1 cr) of
             None \<Rightarrow> Inl (InvalidInteger (slice rest 1 cr))
           | Some n \<Rightarrow> Inr (RInt n, cr + 2)))"

definition array_simple :: "string \<Rightarrow> parse_error + (resp \<times> nat)" where
  "array_simple rest =
     (case find_at crlf rest 1 of
        None \<Rightarrow> incomplete
      | Some cr \<Rightarrow>
          (case utf8_decode (slice rest 1 cr) of
             None \<Rightarrow> Inl BadUtf8
           | Some s \<Rightarrow> Inr (RStr s, cr + 2)))"

definition array_error :: "string \<Rightarrow> parse_error + (resp \<times> nat)" where
  "array_error rest =
     (case find_at crlf rest 1 of
        None \<Rightarrow> incomplete
      | Some cr \<Rightarrow>
          (case utf8_decode (slice rest 1 cr) of
             None \<Rightarrow> Inl BadUtf8
           | Some s \<Rightarrow> Inr (RStr (''ERR_'' @ s), cr + 2)))"

definition array_leaf :: "string \<Rightarrow> parse_error + (resp \<times> nat)" where
  "array_leaf rest =
     (case rest of [] \<Rightarrow> incomplete | tb # _ \<Rightarrow>
      if tb = CHR ''$'' then array_bulk rest
      else if tb = CHR '':'' then array_integer rest
      else if tb = CHR ''+'' then array_simple rest
      else if tb = CHR ''-'' then array_error rest
      else Inl (UnexpectedType tb))"

definition lift_error :: "string \<Rightarrow> parse_error + (resp \<times> nat) \<Rightarrow> resp parsed" where
  "lift_error buf r = (case r of Inl e \<Rightarrow> Inl (e, buf) | Inr v \<Rightarrow> Inr v)"

lemma find_at_bound: "find_at p s k = Some i \<Longrightarrow> k \<le> i \<and> (p \<noteq> [] \<longrightarrow> i + length p \<le> length s)"
  by (cases "k \<le> length s") (auto simp: find_at_def dest: find_sub_bound)

function parse_array :: "string \<Rightarrow> resp parsed"
  and array_items :: "string \<Rightarrow> string \<Rightarrow> int \<Rightarrow> nat \<Rightarrow> resp list \<Rightarrow> resp parsed" where
  "parse_array buf =
     (case find_at crlf buf 0 of
        None \<Rightarrow> incomplete
      | Some cr \<Rightarrow>
          (case read_int (slice buf 1 cr) of
             None \<Rightarrow> Inl (InvalidArrayCount (slice buf 1 cr), buf)
           | Some count \<Rightarrow>
               if count < 0 then Inr (RNil, cr + 2)
               else array_items buf (drop (cr + 2) buf) count (cr + 2) []))"
| "array_items buf rest n pos items =
     (if n \<le> 0 then Inr (RList items, pos)
      else case rest of
        [] \<Rightarrow> incomplete
      | tb # _ \<Rightarrow>
          (case (if tb = CHR ''*'' then parse_array rest else lift_error buf (array_leaf rest)) of
             Inl e \<Rightarrow> Inl e
           | Inr (item, used) \<Rightarrow>
               if used = 0 then incomplete
               else array_items buf (drop used rest) (n - 1) (pos + used) (items @ [item])))"
  by pat_completeness auto

termination
proof (relation "measure (\<lambda>x. case x of Inl b \<Rightarrow> 2 * length b | Inr (b, r, n, p, i) \<Rightarrow> 2 * length r + 1)", goal_cases)
  case (2 buf cr count)
  then show ?case using find_at_bound[of crlf buf 0 cr] by (auto simp: crlf_def)
qed auto

declare parse_array.simps [simp del] array_items.simps [simp del]

subsection \<open>Messages and feeding\<close>

definition parse_message :: "string \<Rightarrow> resp parsed" where
  "parse_message buf =
     (case buf of
        [] \<Rightarrow> incomplete
      | tb # _ \<Rightarrow>
          if tb = CHR ''*'' then parse_array buf
          else if tb = CHR ''$'' then lift_error buf (parse_bulk_string buf)
          else if tb = CHR ''+'' then lift_error buf (parse_simple_string buf)
          else if tb = CHR ''-'' then lift_error buf (parse_error_line buf)
          else if tb = CHR '':'' then lift_error buf (parse_integer buf)
          else parse_inline_command buf)"

text \<open>The loop of \<open>feed\<close>, for any message parser: parse and delete until more data is needed.  An
  exception discards the messages parsed so far and leaves the buffer it was raised with.\<close>

function drain :: "(string \<Rightarrow> ('m) parsed) \<Rightarrow> string \<Rightarrow> (parse_error + 'm list) \<times> string" where
  "drain parse buf =
     (case parse buf of
        Inl (e, b) \<Rightarrow> (Inl e, b)
      | Inr (m, consumed) \<Rightarrow>
          if consumed = 0 \<or> buf = [] then (Inr [], buf)
          else (case drain parse (drop consumed buf) of
                  (Inl e, b) \<Rightarrow> (Inl e, b)
                | (Inr ms, b) \<Rightarrow> (Inr (m # ms), b)))"
  by pat_completeness auto
termination
  by (relation "measure (\<lambda>(p, b). length b)") auto

declare drain.simps [simp del]

record resp_parser =
  buffer :: string
  max_buffer_size :: nat

definition MAX_BUFFER_SIZE :: nat where
  "MAX_BUFFER_SIZE = 1024 * 1024"

definition new_parser :: "nat option \<Rightarrow> resp_parser" where
  "new_parser limit = \<lparr> buffer = [],
     max_buffer_size = (case limit of Some n \<Rightarrow> if n = 0 then MAX_BUFFER_SIZE else n | None \<Rightarrow> MAX_BUFFER_SIZE) \<rparr>"

definition feed :: "resp_parser \<Rightarrow> string \<Rightarrow> (parse_error + resp list) \<times> resp_parser" where
  "feed p data =
     (let buf = buffer p @ data in
      if max_buffer_size p < length buf
      then (Inl (BufferOverflow (max_buffer_size p)), p\<lparr>buffer := []\<rparr>)
      else (case drain parse_message buf of (r, b) \<Rightarrow> (r, p\<lparr>buffer := b\<rparr>)))"

subsection \<open>Serializer\<close>

text \<open>The items \<open>RESPSerializer.array\<close> takes; it raises \<open>ValueError\<close> on any other type, and no caller
  builds one.\<close>

datatype ritem = ANull | AStr string | AInt int

definition null_reply :: string where "null_reply = ''$-1'' @ crlf"

definition simple_string :: "string \<Rightarrow> string" where
  "simple_string s = ''+'' @ s @ crlf"

definition bulk_string :: "string \<Rightarrow> string" where
  "bulk_string s = ''$'' @ show_nat (length s) @ crlf @ s @ crlf"

definition integer :: "int \<Rightarrow> string" where
  "integer n = '':'' @ show_int n @ crlf"

definition error :: "string \<Rightarrow> string" where
  "error msg = ''-ERR '' @ msg @ crlf"

fun array_item :: "ritem \<Rightarrow> string" where
  "array_item ANull = null_reply"
| "array_item (AStr s) = bulk_string s"
| "array_item (AInt n) = integer n"

definition array :: "ritem list \<Rightarrow> string" where
  "array items = ''*'' @ show_nat (length items) @ crlf @ concat (map array_item items)"

definition array_strs :: "string list \<Rightarrow> string" where
  "array_strs xs = array (map AStr xs)"

abbreviation ok_reply :: string where
  "ok_reply \<equiv> simple_string ''OK''"

end
