(* ===== verification/Json.thy ===== *)
theory Json
  imports PyFloat
begin

text \<open>
  \<open>json.dumps\<close> of the standard library (\<open>ensure_ascii\<close>, the default): the compact form with the
  separators \<open>(',', ':')\<close> and the indented form.  A \<open>dict\<close> is an object in insertion order.
\<close>

datatype json =
    JNull
  | JBool bool
  | JInt int
  | JFloat pyfloat
  | JStr string
  | JArr "json list"
  | JObj "(string \<times> json) list"

definition json_opt :: "string option \<Rightarrow> json" where
  "json_opt v = (case v of None \<Rightarrow> JNull | Some s \<Rightarrow> JStr s)"

definition hex_digit :: "nat \<Rightarrow> char" where
  "hex_digit n = ''0123456789abcdef'' ! n"

definition hex4 :: "nat \<Rightarrow> string" where
  "hex4 n = map (\<lambda>k. hex_digit (n div 16 ^ k mod 16)) [3, 2, 1, 0]"

text \<open>The code point of one character, from the bytes of its encoding.\<close>

definition code_point :: "string \<Rightarrow> nat" where
  "code_point c = (case map byte c of
       [a] \<Rightarrow> a
     | [a, b] \<Rightarrow> (a - 0xC0) * 64 + (b - 0x80)
     | [a, b, d] \<Rightarrow> ((a - 0xE0) * 64 + (b - 0x80)) * 64 + (d - 0x80)
     | [a, b, d, e] \<Rightarrow> (((a - 0xF0) * 64 + (b - 0x80)) * 64 + (d - 0x80)) * 64 + (e - 0x80)
     | _ \<Rightarrow> 0)"

definition unicode_escape :: "nat \<Rightarrow> string" where
  "unicode_escape n = CHR 0x5C # ''u'' @ hex4 n"

definition escape_char :: "string \<Rightarrow> string" where
  "escape_char c =
     (if c = [dquote] then [CHR 0x5C, dquote]
      else if c = [CHR 0x5C] then [CHR 0x5C, CHR 0x5C]
      else if c = [CHR 0x0A] then CHR 0x5C # ''n''
      else if c = [CHR 0x0D] then CHR 0x5C # ''r''
      else if c = [CHR 0x09] then CHR 0x5C # ''t''
      else if c = [CHR 0x0C] then CHR 0x5C # ''f''
      else if c = [CHR 0x08] then CHR 0x5C # ''b''
      else let n = code_point c in
        if 0x20 \<le> n \<and> n \<le> 0x7E then c
        else if n < 0x10000 then unicode_escape n
        else unicode_escape (0xD800 + (n - 0x10000) div 0x400)
             @ unicode_escape (0xDC00 + (n - 0x10000) mod 0x400))"

definition json_string :: "string \<Rightarrow> string" where
  "json_string s = [dquote] @ concat (map escape_char (characters s)) @ [dquote]"

definition json_float :: "pyfloat \<Rightarrow> string" where
  "json_float x = (case x of FNan \<Rightarrow> ''NaN''
     | FInf s \<Rightarrow> if s then ''-Infinity'' else ''Infinity''
     | _ \<Rightarrow> show_float x)"

text \<open>\<open>json.dumps(v, separators=(',', ':'))\<close>.\<close>

fun dumps :: "json \<Rightarrow> string" where
  "dumps JNull = ''null''"
| "dumps (JBool b) = (if b then ''true'' else ''false'')"
| "dumps (JInt n) = show_int n"
| "dumps (JFloat x) = json_float x"
| "dumps (JStr s) = json_string s"
| "dumps (JArr vs) = ''['' @ join '','' (map dumps vs) @ '']''"
| "dumps (JObj kvs) = ''{'' @ join '','' (map (\<lambda>(k, v). json_string k @ '':'' @ dumps v) kvs) @ ''}''"

text \<open>\<open>json.dumps(v, indent=2)\<close>, at nesting depth \<open>d\<close>.\<close>

definition new_line :: "nat \<Rightarrow> string" where
  "new_line d = CHR 0x0A # replicate (2 * d) space"

fun dumps_indent :: "nat \<Rightarrow> json \<Rightarrow> string" where
  "dumps_indent d JNull = ''null''"
| "dumps_indent d (JBool b) = (if b then ''true'' else ''false'')"
| "dumps_indent d (JInt n) = show_int n"
| "dumps_indent d (JFloat x) = json_float x"
| "dumps_indent d (JStr s) = json_string s"
| "dumps_indent d (JArr vs) =
     (if vs = [] then ''[]''
      else ''['' @ new_line (Suc d) @ join ('','' @ new_line (Suc d)) (map (dumps_indent (Suc d)) vs)
           @ new_line d @ '']'')"
| "dumps_indent d (JObj kvs) =
     (if kvs = [] then ''{}''
      else ''{'' @ new_line (Suc d)
           @ join ('','' @ new_line (Suc d))
               (map (\<lambda>(k, v). json_string k @ '': '' @ dumps_indent (Suc d) v) kvs)
           @ new_line d @ ''}'')"

end
