(* ===== verification/Events.thy ===== *)
theory Events
  imports Protocol Glob Json
begin

text \<open>
  \<open>testcore/events.py\<close>: the publish/subscribe bus.

  A handler is its client id (ids are never reused, so this is the identity the code compares).  The
  set of subscriptions of a channel is a list without duplicates; the order in which the code visits
  a set is unspecified, and here it is the order of subscription.  Writing to a client is a function
  of the handler: \<open>True\<close> when \<open>_write\<close> returns, \<open>False\<close> when it raises.
\<close>

definition VALID_CHANNELS :: "string list" where
  "VALID_CHANNELS = [''watch'', ''instrument'', ''lock'', ''session'', ''kv'', ''meas'']"

fun parse_channel_bases :: "string list \<Rightarrow> string \<Rightarrow> string \<times> string option" where
  "parse_channel_bases [] channel = (channel, None)"
| "parse_channel_bases (base # bases) channel =
     (if channel = base then (base, None)
      else if startswith channel (base @ '':'') then (base, Some (drop (length base + 1) channel))
      else parse_channel_bases bases channel)"

definition parse_channel :: "string \<Rightarrow> string \<times> string option" where
  "parse_channel channel = parse_channel_bases VALID_CHANNELS channel"

definition is_valid_channel :: "string \<Rightarrow> bool" where
  "is_valid_channel channel = (fst (parse_channel channel) \<in> set VALID_CHANNELS)"

text \<open>Two subscriptions are equal when handler and channel text are; the filter is a function of the
  channel text.\<close>

record subscription =
  sub_handler :: int
  sub_pattern :: "string option"
  channel_spec :: string

definition same_sub :: "subscription \<Rightarrow> subscription \<Rightarrow> bool" where
  "same_sub a b = (sub_handler a = sub_handler b \<and> channel_spec a = channel_spec b)"

type_synonym event_bus = "(string, subscription list) dict"

definition subs_of :: "event_bus \<Rightarrow> string \<Rightarrow> subscription list" where
  "subs_of bus base = (case dict_get bus base of Some subs \<Rightarrow> subs | None \<Rightarrow> [])"

definition subscribe :: "event_bus \<Rightarrow> int \<Rightarrow> string \<Rightarrow> bool \<times> event_bus" where
  "subscribe bus handler channel =
     (case parse_channel channel of (base, pattern) \<Rightarrow>
        if base \<notin> set VALID_CHANNELS then (False, bus)
        else
          let subs = subs_of bus base;
              sub = \<lparr> sub_handler = handler, sub_pattern = pattern, channel_spec = channel \<rparr>
          in if list_ex (same_sub sub) subs then (False, dict_set bus base subs)
             else (True, dict_set bus base (subs @ [sub])))"

definition unsubscribe :: "event_bus \<Rightarrow> int \<Rightarrow> string \<Rightarrow> bool \<times> event_bus" where
  "unsubscribe bus handler channel =
     (case parse_channel channel of (base, pattern) \<Rightarrow>
        let subs = subs_of bus base;
            sub = \<lparr> sub_handler = handler, sub_pattern = pattern, channel_spec = channel \<rparr>
        in if list_ex (same_sub sub) subs
           then (True, dict_set bus base (filter (\<lambda>s. \<not> same_sub sub s) subs))
           else (False, bus))"

definition unsubscribe_all :: "event_bus \<Rightarrow> int \<Rightarrow> string list \<times> event_bus" where
  "unsubscribe_all bus handler =
     (concat (map (\<lambda>(base, subs). map channel_spec (filter (\<lambda>s. sub_handler s = handler) subs)) bus),
      dict_map (\<lambda>base subs. filter (\<lambda>s. sub_handler s \<noteq> handler) subs) bus)"

definition subscriber_channels :: "event_bus \<Rightarrow> int \<Rightarrow> string list" where
  "subscriber_channels bus handler =
     concat (map (\<lambda>(base, subs). map channel_spec (filter (\<lambda>s. sub_handler s = handler) subs)) bus)"

definition subscriber_count :: "event_bus \<Rightarrow> string \<Rightarrow> nat" where
  "subscriber_count bus channel = length (subs_of bus (fst (parse_channel channel)))"

definition selected :: "string option \<Rightarrow> subscription \<Rightarrow> bool" where
  "selected filter_key sub =
     (case (sub_pattern sub, filter_key) of
        (Some p, Some k) \<Rightarrow> fnmatch k p
      | _ \<Rightarrow> True)"

definition event_message :: "string \<Rightarrow> json \<Rightarrow> string" where
  "event_message channel payload = array_strs [''event'', channel, dumps payload]"

text \<open>\<open>publish\<close> returns the messages written, in order, and the bus without the dead subscribers.  The
  number of clients reached is the number of messages.\<close>

definition publish :: "(int \<Rightarrow> bool) \<Rightarrow> event_bus \<Rightarrow> string \<Rightarrow> json \<Rightarrow> string option
    \<Rightarrow> (int \<times> string) list \<times> event_bus" where
  "publish can_write bus channel payload filter_key =
     (let subs = subs_of bus channel in
      if subs = [] then ([], bus)
      else
        let targets = filter (selected filter_key) subs;
            dead = filter (\<lambda>s. \<not> can_write (sub_handler s)) targets
        in (map (\<lambda>s. (sub_handler s, event_message channel payload))
              (filter (\<lambda>s. can_write (sub_handler s)) targets),
            if dead = [] then bus
            else dict_set bus channel (filter (\<lambda>s. \<not> list_ex (same_sub s) dead) subs)))"

subsection \<open>The events the server publishes\<close>

text \<open>\<open>us\<close> is \<open>int(time.time() * 1000000)\<close>.\<close>

definition instrument_event :: "int \<Rightarrow> string \<Rightarrow> string \<Rightarrow> (string \<times> json) list \<Rightarrow> json" where
  "instrument_event us event_type inst kwargs =
     JObj ([(''type'', JStr event_type), (''instrument'', JStr inst), (''timestamp'', JInt us)] @ kwargs)"

definition lock_event :: "int \<Rightarrow> string \<Rightarrow> string \<Rightarrow> int \<Rightarrow> (string \<times> json) list \<Rightarrow> json" where
  "lock_event us event_type inst sid kwargs =
     JObj ([(''type'', JStr event_type), (''instrument'', JStr inst), (''session_id'', JInt sid),
            (''timestamp'', JInt us)] @ kwargs)"

definition session_event :: "int \<Rightarrow> string \<Rightarrow> int \<Rightarrow> (string \<times> json) list \<Rightarrow> json" where
  "session_event us event_type sid kwargs =
     JObj ([(''type'', JStr event_type), (''session_id'', JInt sid), (''timestamp'', JInt us)] @ kwargs)"

definition kv_event :: "int \<Rightarrow> string \<Rightarrow> string \<Rightarrow> int option \<Rightarrow> json" where
  "kv_event us key val sid =
     JObj ([(''type'', JStr ''set''), (''key'', JStr key), (''value'', JStr val), (''timestamp'', JInt us)]
           @ (case sid of Some s \<Rightarrow> [(''session_id'', JInt s)] | None \<Rightarrow> []))"

definition meas_event :: "string \<Rightarrow> string \<Rightarrow> string option \<Rightarrow> pyfloat \<Rightarrow> string \<Rightarrow> json" where
  "meas_event inst res val ts status =
     JObj [(''type'', JStr ''meas''), (''instrument'', JStr inst), (''resource'', JStr res),
           (''value'', json_opt val), (''ts'', JFloat ts), (''status'', JStr status)]"

definition meas_filter_key :: "string \<Rightarrow> string \<Rightarrow> string" where
  "meas_filter_key inst res = inst @ '':'' @ res"

subsection \<open>The bus keeps its subscriptions\<close>

definition channel_ok :: "string \<Rightarrow> subscription list \<Rightarrow> bool" where
  "channel_ok base subs =
     (base \<in> set VALID_CHANNELS
      \<and> distinct (map (\<lambda>s. (sub_handler s, channel_spec s)) subs)
      \<and> list_all (\<lambda>s. parse_channel (channel_spec s) = (base, sub_pattern s)) subs)"

definition bus_ok :: "event_bus \<Rightarrow> bool" where
  "bus_ok bus = (dict_ok bus \<and> list_all (\<lambda>(base, subs). channel_ok base subs) bus)"

lemma bus_ok_iff:
  "bus_ok bus \<longleftrightarrow> dict_ok bus \<and> (\<forall>b subs. dict_get bus b = Some subs \<longrightarrow> channel_ok b subs)"
  by (auto simp: bus_ok_def list_all_iff dict_get_items[symmetric])

text \<open>Who is subscribed to what.\<close>

definition subscribed :: "event_bus \<Rightarrow> int \<Rightarrow> string \<Rightarrow> bool" where
  "subscribed bus handler channel =
     list_ex (\<lambda>s. sub_handler s = handler \<and> channel_spec s = channel) (subs_of bus (fst (parse_channel channel)))"

lemma parse_channel_base:
  "fst (parse_channel channel) \<in> set VALID_CHANNELS \<or> parse_channel channel = (channel, None)"
proof -
  have "fst (parse_channel_bases bs channel) \<in> set bs \<or> parse_channel_bases bs channel = (channel, None)" for bs
    by (induction bs) auto
  then show ?thesis by (simp add: parse_channel_def)
qed

lemma bus_ok_subs:
  assumes "bus_ok bus"
  shows "distinct (map (\<lambda>s. (sub_handler s, channel_spec s)) (subs_of bus base))"
    and "list_all (\<lambda>s. parse_channel (channel_spec s) = (base, sub_pattern s)) (subs_of bus base)"
    and "dict_get bus base = Some subs \<Longrightarrow> base \<in> set VALID_CHANNELS"
  using assms by (auto simp: bus_ok_iff channel_ok_def subs_of_def split: option.splits)

lemma bus_ok_dict_set: "bus_ok bus \<Longrightarrow> channel_ok base subs \<Longrightarrow> bus_ok (dict_set bus base subs)"
  by (auto simp: bus_ok_iff dict_ok_set dict_get_set split: if_splits)

lemma channel_ok_filter: "channel_ok base subs \<Longrightarrow> channel_ok base (filter p subs)"
  by (auto simp: channel_ok_def list_all_iff distinct_map_filter)

lemma channel_ok_subs: "bus_ok bus \<Longrightarrow> base \<in> set VALID_CHANNELS \<Longrightarrow> channel_ok base (subs_of bus base)"
  using bus_ok_subs(1,2)[of bus base] by (simp add: channel_ok_def)

lemma same_sub_eq: "same_sub a b \<longleftrightarrow> (sub_handler a, channel_spec a) = (sub_handler b, channel_spec b)"
  by (simp add: same_sub_def)

lemma subscribe_ok:
  assumes "bus_ok bus"
  shows "bus_ok (snd (subscribe bus h channel))"
proof -
  obtain base pattern where c: "parse_channel channel = (base, pattern)" by fastforce
  show ?thesis
    using channel_ok_subs[OF assms, of base] assms
    by (auto simp: subscribe_def c Let_def same_sub_def list_ex_iff channel_ok_def intro!: bus_ok_dict_set)
qed

lemma subs_of_nonempty: "bus_ok bus \<Longrightarrow> s \<in> set (subs_of bus base) \<Longrightarrow> base \<in> set VALID_CHANNELS"
  using bus_ok_subs(3)[of bus base] by (cases "dict_get bus base") (auto simp: subs_of_def)

lemma unsubscribe_ok:
  assumes "bus_ok bus"
  shows "bus_ok (snd (unsubscribe bus h channel))"
proof -
  obtain base pattern where c: "parse_channel channel = (base, pattern)" by fastforce
  show ?thesis
    using subs_of_nonempty[OF assms, of _ base] assms
    by (auto simp: unsubscribe_def c Let_def list_ex_iff intro!: bus_ok_dict_set channel_ok_filter channel_ok_subs)
qed

lemma unsubscribe_all_ok: "bus_ok bus \<Longrightarrow> bus_ok (snd (unsubscribe_all bus h))"
  by (auto simp: unsubscribe_all_def bus_ok_iff dict_simps channel_ok_filter)

lemma publish_ok:
  assumes "bus_ok bus"
  shows "bus_ok (snd (publish w bus channel payload k))"
proof (cases "subs_of bus channel")
  case Nil
  then show ?thesis using assms by (simp add: publish_def)
next
  case (Cons s l)
  then have "channel \<in> set VALID_CHANNELS" using subs_of_nonempty[OF assms, of s channel] by simp
  then show ?thesis
    using assms by (auto simp: publish_def Let_def intro!: bus_ok_dict_set channel_ok_filter channel_ok_subs)
qed

lemma subs_of_set: "subs_of (dict_set bus b subs) b' = (if b' = b then subs else subs_of bus b')"
  by (simp add: subs_of_def dict_simps)

lemma subscribed_subscribe:
  assumes "is_valid_channel channel"
  shows "subscribed (snd (subscribe bus h channel)) h' channel'
           \<longleftrightarrow> (h' = h \<and> channel' = channel) \<or> subscribed bus h' channel'"
proof -
  obtain base pattern where c: "parse_channel channel = (base, pattern)" by fastforce
  with assms show ?thesis
    by (auto simp: subscribe_def subscribed_def is_valid_channel_def Let_def subs_of_set same_sub_def list_ex_iff)
qed

lemma subs_of_unsubscribe:
  "subs_of (snd (unsubscribe bus h channel)) b
     = (if b = fst (parse_channel channel)
        then filter (\<lambda>s. \<not> (sub_handler s = h \<and> channel_spec s = channel)) (subs_of bus b) else subs_of bus b)"
proof -
  obtain base pattern where c: "parse_channel channel = (base, pattern)" by fastforce
  have m: "same_sub \<lparr> sub_handler = h, sub_pattern = pattern, channel_spec = channel \<rparr>
      = (\<lambda>s. sub_handler s = h \<and> channel_spec s = channel)" by (rule ext) (auto simp: same_sub_def)
  show ?thesis
  proof (cases "list_ex (\<lambda>s. sub_handler s = h \<and> channel_spec s = channel) (subs_of bus base)")
    case True
    then show ?thesis by (simp add: unsubscribe_def c Let_def m subs_of_set)
  next
    case False
    then have "filter (\<lambda>s. \<not> (sub_handler s = h \<and> channel_spec s = channel)) (subs_of bus base) = subs_of bus base"
      by (auto simp: list_ex_iff intro: filter_True)
    with False show ?thesis by (simp add: unsubscribe_def c Let_def m)
  qed
qed

lemma subscribed_unsubscribe:
  "subscribed (snd (unsubscribe bus h channel)) h' channel'
     \<longleftrightarrow> \<not> (h' = h \<and> channel' = channel) \<and> subscribed bus h' channel'"
  by (auto simp: subscribed_def subs_of_unsubscribe list_ex_iff)

lemma subs_of_unsubscribe_all:
  "subs_of (snd (unsubscribe_all bus h)) b = filter (\<lambda>s. sub_handler s \<noteq> h) (subs_of bus b)"
  by (simp add: unsubscribe_all_def subs_of_def dict_simps split: option.splits)

lemma subscribed_unsubscribe_all:
  "subscribed (snd (unsubscribe_all bus h)) h' channel \<longleftrightarrow> h' \<noteq> h \<and> subscribed bus h' channel"
  by (auto simp: subscribed_def subs_of_unsubscribe_all list_ex_iff)

text \<open>Who gets an event: the subscriptions of the channel whose filter lets the key through, of clients
  that can be written to, and each of them once.\<close>

lemma publish_messages:
  "fst (publish w bus channel payload k)
     = map (\<lambda>s. (sub_handler s, event_message channel payload))
         (filter (\<lambda>s. selected k s \<and> w (sub_handler s)) (subs_of bus channel))"
  by (simp add: publish_def Let_def conj_commute)

text \<open>Publishing drops only the subscriptions of clients it tried and failed to write to.\<close>

lemma publish_subs:
  "bus_ok bus \<Longrightarrow>
   subs_of (snd (publish w bus channel payload k)) b
     = filter (\<lambda>s. b = channel \<longrightarrow> selected k s \<longrightarrow> w (sub_handler s)) (subs_of bus b)"
proof -
  assume ok: "bus_ok bus"
  define subs where "subs = subs_of bus channel"
  have inj: "inj_on (\<lambda>s. (sub_handler s, channel_spec s)) (set subs)"
    using bus_ok_subs(1)[OF ok, of channel] by (simp add: distinct_map subs_def)
  have "list_ex (same_sub s) (filter (\<lambda>s. \<not> w (sub_handler s)) (filter (selected k) subs))
      \<longleftrightarrow> selected k s \<and> \<not> w (sub_handler s)" if "s \<in> set subs" for s
    using inj_onD[OF inj, of s] that by (auto simp: list_ex_iff same_sub_eq)
  then have f: "filter (\<lambda>s. \<not> list_ex (same_sub s) (filter (\<lambda>s. \<not> w (sub_handler s)) (filter (selected k) subs))) subs
      = filter (\<lambda>s. selected k s \<longrightarrow> w (sub_handler s)) subs"
    by (intro filter_cong) auto
  have n: "filter (\<lambda>s. \<not> w (sub_handler s)) (filter (selected k) subs) = []
      \<Longrightarrow> filter (\<lambda>s. selected k s \<longrightarrow> w (sub_handler s)) subs = subs"
    by (auto simp: filter_empty_conv intro!: filter_True)
  show ?thesis
  proof (cases "b = channel")
    case True
    then show ?thesis using f n by (auto simp: publish_def Let_def subs_def[symmetric] subs_of_set simp del: filter_filter)
  next
    case False
    then show ?thesis by (simp add: publish_def Let_def subs_of_set)
  qed
qed

end
