(* ===== verification/ServerState.thy ===== *)
theory ServerState
  imports Instruments Store Events
begin

text \<open>
  The state of a running server, and what its parts share: writing to clients and publishing events.

  The globals of the code (\<open>get_registry\<close>, \<open>get_store\<close>, \<open>get_journal\<close>, \<open>get_event_bus\<close>,
  \<open>get_watch_manager\<close>, \<open>get_health_monitor\<close>, \<open>get_server\<close>) are the fields of one record that extends
  the registry.  \<open>sent\<close> is the sequence of the writes to clients, in order.  The server's two
  dictionaries \<open>clients\<close> (tasks) and \<open>client_handlers\<close> always have the same keys and are one field.
\<close>

subsection \<open>State\<close>

text \<open>A guard; \<open>watch_alive\<close> says that its task is still running: an exception the loop does not catch
  ends the task and leaves the entry.\<close>

record watch_entry =
  interval_ms :: int
  min_val :: "pyfloat option"
  max_val :: "pyfloat option"
  watch_alive :: bool

record client =
  address :: string
  client_name :: "string option"
  cmd_count :: nat
  monitoring :: bool
  subscribing :: bool
  pending_monitor :: bool
  connect_time :: pyfloat
  parser :: resp_parser
  running :: bool

record 'w server = "'w registry" +
  kv :: store
  jrnl :: journal
  bus :: event_bus
  watches :: "(string, (string, watch_entry) dict) dict"
  health_tasks :: "(string, pyfloat option) dict"
  clients :: "(int, client) dict"
  monitors :: "int list"
  next_client_id :: int
  host :: string
  port :: int
  max_clients :: int
  start_time :: pyfloat
  total_connections :: nat
  total_commands :: nat
  rejected_connections :: nat
  server_running :: bool
  sent :: "(int \<times> string) list"

definition new_server :: "string \<Rightarrow> int \<Rightarrow> int \<Rightarrow> pyfloat \<Rightarrow> nat \<Rightarrow> pyfloat \<Rightarrow> 'w \<Rightarrow> 'w server" where
  "new_server h p maxc timeout jlen now w =
     \<lparr> instruments = [], driver_modules = [], driver_timeout = timeout, spawned = [], world = w,
       kv = new_store, jrnl = new_journal jlen, bus = [], watches = [], health_tasks = [],
       clients = [], monitors = [], next_client_id = 1, host = h, port = p, max_clients = maxc,
       start_time = now, total_connections = 0, total_commands = 0, rejected_connections = 0,
       server_running = False, sent = [] \<rparr>"

definition upd_client :: "int \<Rightarrow> (client \<Rightarrow> client) \<Rightarrow> 'w server \<Rightarrow> 'w server" where
  "upd_client cid f s =
     (case dict_get (clients s) cid of
        None \<Rightarrow> s
      | Some c \<Rightarrow> s\<lparr>clients := dict_set (clients s) cid (f c)\<rparr>)"

definition now :: "'w env \<Rightarrow> 'w server \<Rightarrow> pyfloat" where
  "now env s = wall_time env (world s)"

text \<open>\<open>int(time.time() * 1000000)\<close>; the clock is finite.\<close>

definition now_us :: "'w env \<Rightarrow> 'w server \<Rightarrow> int" where
  "now_us env s = (case f_trunc (f_times (now env s) 1000000) of Some n \<Rightarrow> n | None \<Rightarrow> 0)"

subsection \<open>Writing and publishing\<close>

text \<open>\<open>ClientHandler._write\<close>: whether it returned.\<close>

definition client_write :: "'w env \<Rightarrow> int \<Rightarrow> string \<Rightarrow> 'w server \<Rightarrow> bool \<times> 'w server" where
  "client_write env cid bytes s =
     (if can_write env (world s) cid then (True, s\<lparr>sent := sent s @ [(cid, bytes)]\<rparr>) else (False, s))"

definition publish_on :: "'w env \<Rightarrow> string \<Rightarrow> json \<Rightarrow> string option \<Rightarrow> 'w server \<Rightarrow> 'w server" where
  "publish_on env channel payload key s =
     (case publish (can_write env (world s)) (bus s) channel payload key of
        (msgs, b) \<Rightarrow> s\<lparr>bus := b, sent := sent s @ msgs\<rparr>)"

definition publish_instrument :: "'w env \<Rightarrow> string \<Rightarrow> string \<Rightarrow> (string \<times> json) list \<Rightarrow> 'w server \<Rightarrow> 'w server" where
  "publish_instrument env event_type name kwargs s =
     publish_on env ''instrument'' (instrument_event (now_us env s) event_type name kwargs) None s"

definition publish_lock :: "'w env \<Rightarrow> string \<Rightarrow> string \<Rightarrow> int \<Rightarrow> (string \<times> json) list \<Rightarrow> 'w server \<Rightarrow> 'w server" where
  "publish_lock env event_type name sid kwargs s =
     publish_on env ''lock'' (lock_event (now_us env s) event_type name sid kwargs) None s"

definition publish_session :: "'w env \<Rightarrow> string \<Rightarrow> int \<Rightarrow> (string \<times> json) list \<Rightarrow> 'w server \<Rightarrow> 'w server" where
  "publish_session env event_type sid kwargs s =
     publish_on env ''session'' (session_event (now_us env s) event_type sid kwargs) None s"

definition publish_kv :: "'w env \<Rightarrow> string \<Rightarrow> string \<Rightarrow> int option \<Rightarrow> 'w server \<Rightarrow> 'w server" where
  "publish_kv env key val sid s =
     publish_on env ''kv'' (kv_event (now_us env s) key val sid) (Some key) s"

definition publish_meas :: "'w env \<Rightarrow> string \<Rightarrow> string \<Rightarrow> string option \<Rightarrow> pyfloat \<Rightarrow> string \<Rightarrow> 'w server \<Rightarrow> 'w server" where
  "publish_meas env inst res val ts status s =
     publish_on env ''meas'' (meas_event inst res val ts status) (Some (meas_filter_key inst res)) s"

text \<open>The event loop runs the first publication that \<open>create_task\<close> queued.\<close>

definition run_spawned :: "'w env \<Rightarrow> 'w server \<Rightarrow> 'w server" where
  "run_spawned env s =
     (case spawned s of
        [] \<Rightarrow> s
      | (event_type, name, reason) # rest \<Rightarrow>
          publish_instrument env event_type name [(''reason'', JStr reason)] (s\<lparr>spawned := rest\<rparr>))"

subsection \<open>Watch manager\<close>

text \<open>\<open>testcore/watch.py\<close>.\<close>

definition inst_watches :: "'w server \<Rightarrow> string \<Rightarrow> (string, watch_entry) dict" where
  "inst_watches s name = (case dict_get (watches s) name of Some d \<Rightarrow> d | None \<Rightarrow> [])"

definition watch_stop :: "string \<Rightarrow> string \<Rightarrow> 'w server \<Rightarrow> bool \<times> 'w server" where
  "watch_stop name res s =
     (if dict_mem (inst_watches s name) res then
        let d = dict_del (inst_watches s name) res in
        (True, s\<lparr>watches := (if d = [] then dict_del (watches s) name else dict_set (watches s) name d)\<rparr>)
      else (False, s))"

definition watch_start :: "string \<Rightarrow> string \<Rightarrow> int \<Rightarrow> pyfloat option \<Rightarrow> pyfloat option \<Rightarrow> 'w server \<Rightarrow> 'w server" where
  "watch_start name res ms lo hi s =
     (let s1 = snd (watch_stop name res s);
          e = \<lparr> interval_ms = ms, min_val = lo, max_val = hi, watch_alive = True \<rparr>
      in s1\<lparr>watches := dict_set (watches s1) name (dict_set (inst_watches s1 name) res e)\<rparr>)"

definition watch_stop_instrument :: "string \<Rightarrow> 'w server \<Rightarrow> 'w server" where
  "watch_stop_instrument name s = s\<lparr>watches := dict_del (watches s) name\<rparr>"

definition watch_stop_all :: "'w server \<Rightarrow> 'w server" where
  "watch_stop_all s = s\<lparr>watches := []\<rparr>"

definition has_watch :: "'w server \<Rightarrow> string \<Rightarrow> string \<Rightarrow> bool" where
  "has_watch s name res = dict_mem (inst_watches s name) res"

definition watch_line :: "string \<Rightarrow> string \<Rightarrow> watch_entry \<Rightarrow> string" where
  "watch_line name res e =
     join '':'' ([name, res, show_int (interval_ms e)]
       @ (case min_val e of Some v \<Rightarrow> [''MIN='' @ show_float v] | None \<Rightarrow> [])
       @ (case max_val e of Some v \<Rightarrow> [''MAX='' @ show_float v] | None \<Rightarrow> []))"

definition list_watches :: "'w server \<Rightarrow> string option \<Rightarrow> string list" where
  "list_watches s inst =
     concat (map (\<lambda>(name, d). map (\<lambda>(res, e). watch_line name res e) d)
       (filter (\<lambda>(name, d). case given inst of None \<Rightarrow> True | Some i \<Rightarrow> name = i) (watches s)))"

subsection \<open>Measurements with their events\<close>

definition file_meas :: "'w env \<Rightarrow> string \<Rightarrow> string \<Rightarrow> string option \<Rightarrow> string \<Rightarrow> 'w server \<Rightarrow> 'w server" where
  "file_meas env inst res val status s = s\<lparr>kv := write_meas (kv s) inst res val status (now env s)\<rparr>"

subsection \<open>The guard loop\<close>

text \<open>\<open>fval < min or fval > max\<close>; a comparison with NaN is false.\<close>

definition violated :: "pyfloat option \<Rightarrow> pyfloat option \<Rightarrow> pyfloat \<Rightarrow> bool" where
  "violated lo hi v =
     ((case lo of Some m \<Rightarrow> f_lt v m | None \<Rightarrow> False) \<or> (case hi of Some m \<Rightarrow> f_lt m v | None \<Rightarrow> False))"

definition float_opt :: "pyfloat option \<Rightarrow> json" where
  "float_opt v = (case v of Some f \<Rightarrow> JStr (show_float f) | None \<Rightarrow> JNull)"

definition guard_trip :: "'w env \<Rightarrow> string \<Rightarrow> nat \<Rightarrow> string \<Rightarrow> string \<Rightarrow> pyfloat option \<Rightarrow> pyfloat option
    \<Rightarrow> 'w server \<Rightarrow> 'w server" where
  "guard_trip env name drv res val lo hi s =
     (let s1 = snd (quietly (call_out (d_safe_state env drv)) s);
          s2 = upd_inst name (\<lambda>i. i\<lparr>istate := FAULT\<rparr>) s1;
          s3 = file_meas env name res (Some val) ''GUARD_FAULT'' s2;
          s4 = publish_meas env name res (Some val) (now env s3) ''GUARD_FAULT'' s3
      in publish_instrument env ''GUARD_FAULT'' name
           [(''resource'', JStr res), (''value'', JStr val), (''min'', float_opt lo), (''max'', float_opt hi)] s4)"

text \<open>One turn of \<open>_watch_loop\<close>, after its sleep.\<close>

definition watch_turn :: "'w env \<Rightarrow> string \<Rightarrow> nat \<Rightarrow> string \<Rightarrow> watch_entry \<Rightarrow> 'w server \<Rightarrow> 'w server" where
  "watch_turn env name drv res e s =
     (case call_driver env name (driver_timeout s) (d_read env drv res) s of
        (Inr val, s1) \<Rightarrow>
          let s2 = upd_inst name (\<lambda>i. i\<lparr>total_calls := Suc (total_calls i)\<rparr>) s1;
              s3 = file_meas env name res (Some val) ''OK'' s2;
              s4 = publish_meas env name res (Some val) (now env s3) ''OK'' s3
          in if min_val e = None \<and> max_val e = None then s4
             else (case read_float val of
                     None \<Rightarrow> s4
                   | Some fval \<Rightarrow>
                       if violated (min_val e) (max_val e) fval
                       then guard_trip env name drv res val (min_val e) (max_val e) s4
                       else s4)
      | (Inl (DriverError _), s1) \<Rightarrow>
          let s2 = file_meas env name res None ''ERROR'' s1
          in publish_meas env name res None (now env s2) ''ERROR'' s2
      | (Inl _, s1) \<Rightarrow>
          s1\<lparr>watches := dict_set (watches s1) name (dict_set (inst_watches s1 name) res (e\<lparr>watch_alive := False\<rparr>))\<rparr>)"

definition watch_tick :: "'w env \<Rightarrow> string \<Rightarrow> string \<Rightarrow> 'w server \<Rightarrow> 'w server" where
  "watch_tick env name res s =
     (case (dict_get (inst_watches s name) res, dict_get (instruments s) name) of
        (Some e, Some inst) \<Rightarrow>
          if watch_alive e \<and> istate inst = READY then watch_turn env name (driver inst) res e s else s
      | _ \<Rightarrow> s)"

subsection \<open>Health monitor\<close>

text \<open>\<open>testcore/health.py\<close>; a task keeps the interval it was started with.\<close>

definition HEALTH_MAX_FAILURES :: nat where
  "HEALTH_MAX_FAILURES = 3"

definition health_start :: "string \<Rightarrow> pyfloat option \<Rightarrow> 'w server \<Rightarrow> 'w server" where
  "health_start name interval s = s\<lparr>health_tasks := dict_set (health_tasks s) name interval\<rparr>"

definition health_stop :: "string \<Rightarrow> 'w server \<Rightarrow> 'w server" where
  "health_stop name s = s\<lparr>health_tasks := dict_del (health_tasks s) name\<rparr>"

definition health_stop_all :: "'w server \<Rightarrow> 'w server" where
  "health_stop_all s = s\<lparr>health_tasks := []\<rparr>"

definition is_monitored :: "'w server \<Rightarrow> string \<Rightarrow> bool" where
  "is_monitored s name = dict_mem (health_tasks s) name"

definition health_failed :: "'w env \<Rightarrow> string \<Rightarrow> 'w server \<Rightarrow> 'w server" where
  "health_failed env name s =
     (let s1 = upd_inst name (\<lambda>i. i\<lparr>health_failures := Suc (health_failures i)\<rparr>) s in
      case dict_get (instruments s1) name of
        None \<Rightarrow> s1
      | Some inst \<Rightarrow>
          if HEALTH_MAX_FAILURES \<le> health_failures inst \<and> istate inst \<noteq> UNRESPONSIVE
          then publish_instrument env ''UNRESPONSIVE'' name [(''reason'', JStr ''health_ping_failed'')]
                 (upd_inst name (\<lambda>i. i\<lparr>istate := UNRESPONSIVE\<rparr>) s1)
          else s1)"

text \<open>One turn of \<open>_health_loop\<close>, after its sleep.\<close>

definition health_tick :: "'w env \<Rightarrow> string \<Rightarrow> 'w server \<Rightarrow> 'w server" where
  "health_tick env name s =
     (case (dict_get (health_tasks s) name, dict_get (instruments s) name) of
        (Some (Some interval), Some inst) \<Rightarrow>
          if istate inst \<in> {FAULT, UNRESPONSIVE} then s
          else if f_lt (f_sub (monotonic env (world s)) (last_call_ok inst)) interval then s
          else (case call_driver env name (driver_timeout s) (d_passthrough env (driver inst) ''*IDN?'') s of
                  (Inr _, s1) \<Rightarrow>
                    upd_inst name (\<lambda>i. i\<lparr>last_call_ok := monotonic env (world s1), health_failures := 0\<rparr>) s1
                | (Inl _, s1) \<Rightarrow> health_failed env name s1)
      | _ \<Rightarrow> s)"

end
