(* ===== verification/CommandsStore.thy ===== *)
theory CommandsStore
  imports ServerState
begin

text \<open>
  The handlers of \<open>testcore/commands.py\<close> for keys and measurements, with the vocabulary all handlers
  share: the context of a command, the common replies and the mapping of exceptions to error lines.

  A handler is an action that returns the reply's bytes; an exception it does not catch reaches the
  dispatcher.
\<close>

subsection \<open>Context and replies\<close>

record cmd_context =
  ctx_session :: "int option"
  ctx_client :: "int option"

text \<open>The context of a client's commands, and that of the configuration loader.\<close>

definition client_context :: "int \<Rightarrow> cmd_context" where
  "client_context cid = \<lparr> ctx_session = Some cid, ctx_client = Some cid \<rparr>"

definition boot_context :: cmd_context where
  "boot_context = \<lparr> ctx_session = Some 0, ctx_client = None \<rparr>"

type_synonym 'w handler = "string list \<Rightarrow> cmd_context \<Rightarrow> (string, 'w server) act"

definition fail :: "string \<Rightarrow> (string, 's) act" where
  "fail msg = ret (error msg)"

definition wrong_args :: "string \<Rightarrow> (string, 's) act" where
  "wrong_args cmd = fail (''wrong number of arguments for '' @ quoted cmd @ '' command'')"

definition reads :: "('s \<Rightarrow> 'a) \<Rightarrow> ('a, 's) act" where
  "reads f s = (Inr (f s), s)"

definition done_ok :: "(string, 's) act" where
  "done_ok = ret ok_reply"

text \<open>\<open>except (...) as e\<close>: the exceptions named are handled, the others propagate.\<close>

definition except_when :: "(exn \<Rightarrow> bool) \<Rightarrow> ('a, 's) act \<Rightarrow> (exn \<Rightarrow> ('a, 's) act) \<Rightarrow> ('a, 's) act" where
  "except_when p m h = catch m (\<lambda>e. if p e then h e else raise e)"

fun state_error :: "exn \<Rightarrow> string" where
  "state_error (IdleError e) = ''-IDLE '' @ e @ crlf"
| "state_error (NotInitError e) = ''-NOTINIT '' @ e @ crlf"
| "state_error (LockedError e) = ''-LOCKED '' @ e @ crlf"
| "state_error (FaultError e) = ''-FAULT '' @ e @ crlf"
| "state_error (DriverError e) = ''-DRIVER '' @ e @ crlf"
| "state_error (OtherError e) = error e"

fun any_state_exn :: "exn \<Rightarrow> bool" where
  "any_state_exn (OtherError _) = False"
| "any_state_exn _ = True"

fun only_driver :: "exn \<Rightarrow> bool" where
  "only_driver (DriverError _) = True"
| "only_driver _ = False"

lemma reads_simp [act_simps]: "reads f s = (Inr (f s), s)"
  by (simp add: reads_def)

lemma fail_simp [act_simps]: "fail msg s = (Inr (error msg), s)"
  by (simp add: fail_def ret_def)

lemma done_ok_simp [act_simps]: "done_ok s = (Inr ok_reply, s)"
  by (simp add: done_ok_def ret_def)

definition array_opt :: "string option list \<Rightarrow> string" where
  "array_opt vs = array (map (\<lambda>v. case v of None \<Rightarrow> ANull | Some x \<Rightarrow> AStr x) vs)"

definition require_lock :: "instrument \<Rightarrow> string \<Rightarrow> int option \<Rightarrow> (unit, 's) act" where
  "require_lock inst name sid =
     (if lock_owner inst \<noteq> sid then
        (case lock_owner inst of
           None \<Rightarrow> raise (IdleError (name @ '' not locked''))
         | Some own \<Rightarrow> raise (LockedError (owned_by_text name own)))
      else ret ())"

subsection \<open>Keys\<close>

fun set_flags :: "string list \<Rightarrow> bool \<times> bool \<times> bool \<Rightarrow> bool \<times> bool \<times> bool" where
  "set_flags [] (nx, xx, ro) = (nx, xx, ro)"
| "set_flags (a # as) (nx, xx, ro) =
     (let f = upper a in
      if f = ''NX'' then set_flags as (True, xx, ro)
      else if f = ''XX'' then set_flags as (nx, True, ro)
      else if f = ''RO'' then set_flags as (nx, xx, True)
      else set_flags as (nx, xx, ro))"

definition handle_set :: "'w env \<Rightarrow> 'w handler" where
  "handle_set env args ctx s =
     (case args of
        key # val # flags \<Rightarrow>
          (case set_flags flags (False, False, False) of (nx, xx, ro) \<Rightarrow>
             (case kv_set (kv s) key val nx xx ro (ctx_session ctx) of
                Inl e \<Rightarrow> fail e s
              | Inr (False, st) \<Rightarrow> (Inr null_reply, s\<lparr>kv := st\<rparr>)
              | Inr (True, st) \<Rightarrow> (Inr ok_reply, publish_kv env key val (ctx_session ctx) (s\<lparr>kv := st\<rparr>))))
      | _ \<Rightarrow> wrong_args ''KSET'' s)"

definition handle_get :: "'w handler" where
  "handle_get args ctx s =
     (case args of
        [] \<Rightarrow> wrong_args ''KGET'' s
      | key # _ \<Rightarrow> (Inr (case kv_get (kv s) key of None \<Rightarrow> null_reply | Some v \<Rightarrow> bulk_string v), s))"

definition handle_kmget :: "'w handler" where
  "handle_kmget args ctx s =
     (if args = [] then wrong_args ''KMGET'' s else (Inr (array_opt (kv_mget (kv s) args)), s))"

fun pairs_of :: "'a list \<Rightarrow> ('a \<times> 'a) list" where
  "pairs_of (a # b # xs) = (a, b) # pairs_of xs"
| "pairs_of _ = []"

definition handle_mset :: "'w handler" where
  "handle_mset args ctx s =
     (if length args < 2 \<or> odd (length args) then wrong_args ''KMSET'' s
      else case kv_mset (kv s) (pairs_of args) (ctx_session ctx) of
        Inl e \<Rightarrow> fail e s
      | Inr st \<Rightarrow> (Inr ok_reply, s\<lparr>kv := st\<rparr>))"

definition handle_del :: "'w handler" where
  "handle_del args ctx s =
     (if args = [] then wrong_args ''KDEL'' s
      else case kv_delete (kv s) args (ctx_session ctx) of
        Inl e \<Rightarrow> fail e s
      | Inr (n, st) \<Rightarrow> (Inr (integer (int n)), s\<lparr>kv := st\<rparr>))"

definition handle_exists :: "'w handler" where
  "handle_exists args ctx s =
     (if args = [] then wrong_args ''KEXISTS'' s else (Inr (integer (int (kv_exists (kv s) args))), s))"

definition handle_keys :: "'w handler" where
  "handle_keys args ctx s =
     (Inr (array_strs (kv_keys (kv s) (case args of [] \<Rightarrow> ''*'' | p # _ \<Rightarrow> p))), s)"

definition handle_dbsize :: "'w handler" where
  "handle_dbsize args ctx s = (Inr (integer (int (kv_dbsize (kv s)))), s)"

definition handle_flushdb :: "'w handler" where
  "handle_flushdb args ctx s = (Inr ok_reply, s\<lparr>kv := kv_flushdb (kv s) (ctx_session ctx)\<rparr>)"

definition handle_getall :: "'w handler" where
  "handle_getall args ctx s =
     (let prefix = (case args of [] \<Rightarrow> [] | p # _ \<Rightarrow> p);
          hits = filter (\<lambda>(k, v). \<not> is_reserved k \<and> (prefix = [] \<or> startswith k prefix)) (data (kv s))
      in (Inr (array_strs (concat (map (\<lambda>(k, v). [k, v]) hits))), s))"

subsection \<open>Measurements\<close>

definition meas_to_json :: "meas_value \<Rightarrow> string" where
  "meas_to_json m =
     dumps (JObj [(''value'', json_opt (meas_val m)), (''ts'', JFloat (meas_ts m)), (''status'', JStr (meas_status m))])"

definition handle_meas_get :: "'w handler" where
  "handle_meas_get args ctx s =
     (case args of
        inst # res # _ \<Rightarrow>
          (Inr (case get_meas (kv s) inst res of None \<Rightarrow> null_reply | Some m \<Rightarrow> bulk_string (meas_to_json m)), s)
      | _ \<Rightarrow> wrong_args ''MGET'' s)"

definition first_arg :: "string list \<Rightarrow> string option" where
  "first_arg args = (case args of [] \<Rightarrow> None | a # _ \<Rightarrow> Some a)"

definition handle_meas_getall :: "'w handler" where
  "handle_meas_getall args ctx s =
     (Inr (array_strs (concat (map (\<lambda>(k, m). [k, meas_to_json m]) (get_all_meas (kv s) (first_arg args))))), s)"

definition handle_meas_keys :: "'w handler" where
  "handle_meas_keys args ctx s = (Inr (array_strs (get_meas_keys (kv s) (first_arg args))), s)"

end
