(* ===== verification/CommandsInstrument.thy ===== *)
theory CommandsInstrument
  imports CommandsStore
begin

text \<open>
  The handlers of \<open>testcore/commands.py\<close> for instruments, guards, locks and resources.
\<close>

subsection \<open>Registration and life cycle\<close>

text \<open>A number in \<open>key=value\<close> becomes a number.\<close>

definition opt_of :: "string \<Rightarrow> opt_val" where
  "opt_of v =
     (case read_int v of Some n \<Rightarrow> OInt n
      | None \<Rightarrow> (case read_float v of Some f \<Rightarrow> OFloat f | None \<Rightarrow> OStr v))"

fun iadd_args :: "string list \<Rightarrow> string option \<Rightarrow> transport_opts \<Rightarrow> (string option \<times> transport_opts) option" where
  "iadd_args [] addr opts = Some (addr, opts)"
| "iadd_args (a # as) addr opts =
     (case split_first (CHR ''='') a of
        (key, Some v) \<Rightarrow> iadd_args as addr (dict_set opts key (opt_of v))
      | (_, None) \<Rightarrow> if addr = None then iadd_args as (Some a) opts else None)"

fun health_ok :: "opt_val \<Rightarrow> pyfloat option" where
  "health_ok (OInt n) = (if n < 1 \<or> 100 < n then None else Some (f_of_int n))"
| "health_ok (OFloat f) = (if f_lt f (f_of_int 1) \<or> f_lt (f_of_int 100) f then None else Some f)"
| "health_ok (OStr _) = None"

definition add_instrument :: "'w env \<Rightarrow> string \<Rightarrow> string \<Rightarrow> string option \<Rightarrow> transport_opts \<Rightarrow> pyfloat option
    \<Rightarrow> (string, 'w server) act" where
  "add_instrument env name driver_name addr opts health =
     except_when only_driver
       (bind_ex (registry_add env name driver_name addr opts) (\<lambda>_.
        bind_ex (modify (case health of
                   None \<Rightarrow> id
                 | Some h \<Rightarrow> health_start name (Some h) \<circ> upd_inst name (\<lambda>i. i\<lparr>health_interval := Some h\<rparr>))) (\<lambda>_.
        bind_ex (modify (publish_instrument env ''ADD'' name [(''driver'', JStr driver_name)])) (\<lambda>_.
          done_ok))))
       (\<lambda>e. fail (''DRIVER '' @ exn_text e))"

definition handle_instrument_add :: "'w env \<Rightarrow> 'w handler" where
  "handle_instrument_add env args ctx =
     (case args of
        name # driver_name # rest \<Rightarrow>
          if CHR '' '' \<in> set name then fail ''instrument name must not contain spaces''
          else (case iadd_args rest None [] of
            None \<Rightarrow> fail ''unexpected argument, use key=value for transport options''
          | Some (addr, opts) \<Rightarrow>
              (case dict_get opts ''health'' of
                 None \<Rightarrow> add_instrument env name driver_name addr opts None
               | Some v \<Rightarrow>
                   (case health_ok v of
                      None \<Rightarrow> fail ''health interval must be 1-100 seconds''
                    | Some h \<Rightarrow> add_instrument env name driver_name addr (dict_del opts ''health'') (Some h))))
      | _ \<Rightarrow> wrong_args ''IADD'')"

definition handle_instrument_remove :: "'w env \<Rightarrow> 'w handler" where
  "handle_instrument_remove env args ctx =
     (case args of
        [] \<Rightarrow> wrong_args ''IREMOVE''
      | name # _ \<Rightarrow>
          bind_ex (modify (health_stop name \<circ> watch_stop_instrument name)) (\<lambda>_.
            except_when only_driver
              (bind_ex (registry_remove env name) (\<lambda>_.
               bind_ex (modify (publish_instrument env ''REMOVE'' name [])) (\<lambda>_. done_ok)))
              (\<lambda>e. fail (''DRIVER '' @ exn_text e))))"

fun init_args :: "string list \<Rightarrow> string option \<Rightarrow> bool \<Rightarrow> string option \<times> bool" where
  "init_args [] path selftest = (path, selftest)"
| "init_args (a # as) path selftest =
     (if upper a = ''TST'' then init_args as path True
      else if path = None then init_args as (Some a) selftest
      else init_args as path selftest)"

definition handle_instrument_init :: "'w env \<Rightarrow> 'w handler" where
  "handle_instrument_init env args ctx =
     (case args of
        [] \<Rightarrow> wrong_args ''IINIT''
      | name # rest \<Rightarrow>
          (case init_args rest None False of (path, selftest) \<Rightarrow>
             except_when (\<lambda>e. any_state_exn e \<and> \<not> is_LockedError e)
               (bind_ex (registry_init env name path selftest) (\<lambda>_.
                bind_ex (modify (publish_instrument env ''INIT'' name [])) (\<lambda>_. done_ok)))
               (\<lambda>e. ret (state_error e))))"

definition info_lines :: "'w env \<Rightarrow> 'w server \<Rightarrow> instrument \<Rightarrow> (string \<times> string) list \<Rightarrow> string list" where
  "info_lines env s inst driver_info =
     [''name:'' @ iname inst,
      ''driver:'' @ driver_path inst,
      ''state:'' @ state_name (istate inst),
      ''resources:'' @ show_nat (length (resources inst)),
      ''lock_owner:'' @ (case lock_owner inst of
                            None \<Rightarrow> ''none'' | Some own \<Rightarrow> if own = 0 then ''none'' else show_int own),
      ''total_calls:'' @ show_nat (total_calls inst),
      ''total_errors:'' @ show_nat (total_errors inst),
      ''mean_response_ms:'' @ show_fixed 3 (mean_response_ms inst)]
     @ map (\<lambda>(k, v). k @ '':'' @ v) driver_info
     @ (case health_interval inst of
          None \<Rightarrow> []
        | Some h \<Rightarrow>
            [''health_interval:'' @ show_fixed 0 h @ ''s'',
             ''health_failures:'' @ show_nat (health_failures inst),
             ''health_last_ok:'' @ show_fixed 1 (f_sub (monotonic env (world s)) (last_call_ok inst)) @ ''s ago''])"

definition handle_instrument_info :: "'w env \<Rightarrow> 'w handler" where
  "handle_instrument_info env args ctx =
     (case args of
        [] \<Rightarrow> wrong_args ''IINFO''
      | name # _ \<Rightarrow>
          except_when only_driver
            (bind_ex (get_inst name) (\<lambda>inst.
             bind_ex (catch (call_out (d_info env (driver inst))) (\<lambda>_. ret [])) (\<lambda>driver_info.
               reads (\<lambda>s. bulk_string (join crlf (info_lines env s inst driver_info))))))
            (\<lambda>e. fail (''NORESOURCE '' @ exn_text e)))"

definition handle_instrument_list :: "'w handler" where
  "handle_instrument_list args ctx = reads (\<lambda>s. array_strs (list_instruments s))"

definition handle_instrument_resources :: "'w env \<Rightarrow> 'w handler" where
  "handle_instrument_resources env args ctx =
     (case args of
        [] \<Rightarrow> wrong_args ''IRESOURCES''
      | name # _ \<Rightarrow>
          except_when only_driver
            (bind_ex (get_inst name) (\<lambda>inst.
             bind_ex (call_out (d_discover env (driver inst))) (\<lambda>res. ret (array_strs res))))
            (\<lambda>e. fail (''NORESOURCE '' @ exn_text e)))"

definition handle_instrument_ping :: "'w env \<Rightarrow> 'w handler" where
  "handle_instrument_ping env args ctx =
     (case args of
        [] \<Rightarrow> wrong_args ''IPING''
      | name # _ \<Rightarrow>
          except_when (\<lambda>e. is_FaultError e \<or> is_DriverError e)
            (bind_ex (registry_ping env name) (\<lambda>r. ret (bulk_string r)))
            (\<lambda>e. ret (state_error e)))"

text \<open>The owner's commands: the instrument exists, the session holds its lock, then the operation.\<close>

definition owner_call :: "string \<Rightarrow> int option \<Rightarrow> ('a, 'w server) act \<Rightarrow> ('a, 'w server) act" where
  "owner_call name sid m =
     bind_ex (get_inst name) (\<lambda>inst. bind_ex (require_lock inst name sid) (\<lambda>_. m))"

definition handle_instrument_wait :: "'w env \<Rightarrow> 'w handler" where
  "handle_instrument_wait env args ctx =
     (case args of
        [] \<Rightarrow> wrong_args ''IWAIT''
      | name # _ \<Rightarrow>
          except_when any_state_exn
            (bind_ex (owner_call name (ctx_session ctx) (registry_wait env name)) (\<lambda>_. done_ok))
            (\<lambda>e. ret (state_error e)))"

definition handle_instrument_reset :: "'w env \<Rightarrow> 'w handler" where
  "handle_instrument_reset env args ctx =
     (case args of
        [] \<Rightarrow> wrong_args ''IRESET''
      | name # _ \<Rightarrow>
          except_when (\<lambda>e. is_FaultError e \<or> is_DriverError e)
            (bind_ex (registry_reset env name) (\<lambda>_.
             bind_ex (modify (publish_instrument env ''RESET'' name [])) (\<lambda>_. done_ok)))
            (\<lambda>e. ret (state_error e)))"

fun align_all :: "'w env \<Rightarrow> string list \<Rightarrow> (unit, 'w server) act" where
  "align_all env [] = ret ()"
| "align_all env (name # names) = bind_ex (registry_align env name) (\<lambda>_. align_all env names)"

definition handle_align :: "'w env \<Rightarrow> 'w handler" where
  "handle_align env args ctx =
     (if args = [] then wrong_args ''IALIGN''
      else except_when (\<lambda>e. is_IdleError e \<or> is_FaultError e \<or> is_DriverError e)
             (bind_ex (align_all env args) (\<lambda>_. done_ok))
             (\<lambda>e. ret (state_error e)))"

definition handle_driver_list :: "'w handler" where
  "handle_driver_list args ctx = reads (\<lambda>s. array_strs (list_drivers s))"

subsection \<open>Guards\<close>

fun watch_limits :: "string list \<Rightarrow> pyfloat option \<times> pyfloat option \<Rightarrow> string + (pyfloat option \<times> pyfloat option)" where
  "watch_limits [] b = Inr b"
| "watch_limits (a # as) (lo, hi) =
     (if startswith (upper a) ''MIN='' then
        (case read_float (drop 4 a) of
           None \<Rightarrow> Inl ''ERR invalid threshold MIN''
         | Some v \<Rightarrow> watch_limits as (Some v, hi))
      else if startswith (upper a) ''MAX='' then
        (case read_float (drop 4 a) of
           None \<Rightarrow> Inl ''ERR invalid threshold MAX''
         | Some v \<Rightarrow> watch_limits as (lo, Some v))
      else Inl (''ERR unknown parameter '' @ quoted a))"

definition handle_watch :: "'w env \<Rightarrow> 'w handler" where
  "handle_watch env args ctx =
     (case args of
        name # res # ms # rest \<Rightarrow>
          (case read_int ms of
             None \<Rightarrow> fail ''interval_ms must be an integer''
           | Some interval \<Rightarrow>
               if interval < 100 then fail ''ERR interval too short (minimum 100ms)''
               else (case watch_limits rest (None, None) of
                  Inl e \<Rightarrow> fail e
                | Inr (lo, hi) \<Rightarrow>
                    except_when any_state_exn
                      (owner_call name (ctx_session ctx)
                         (bind_ex (get_inst name) (\<lambda>inst.
                            if istate inst \<noteq> READY then fail ''NOTINIT instrument not READY''
                            else if res \<notin> set (resources inst) then fail (''NORESOURCE unknown resource: '' @ res)
                            else bind_ex (modify (watch_start name res interval lo hi)) (\<lambda>_. done_ok))))
                      (\<lambda>e. ret (state_error e))))
      | _ \<Rightarrow> wrong_args ''IWATCH'')"

definition stop_and_stale :: "'w env \<Rightarrow> string \<Rightarrow> 'w server \<Rightarrow> 'w server" where
  "stop_and_stale env name s =
     (let s1 = watch_stop_instrument name s in s1\<lparr>kv := snd (invalidate_meas (kv s1) name (now env s1))\<rparr>)"

definition unwatch_owned :: "'w env \<Rightarrow> int option \<Rightarrow> string \<Rightarrow> 'w server \<Rightarrow> 'w server" where
  "unwatch_owned env sid name s =
     (case dict_get (instruments s) name of
        Some inst \<Rightarrow> if lock_owner inst = sid then stop_and_stale env name s else s
      | None \<Rightarrow> s)"

definition unwatch_one :: "'w env \<Rightarrow> string \<Rightarrow> string \<Rightarrow> (string, 'w server) act" where
  "unwatch_one env name res s =
     (case watch_stop name res s of
        (False, s1) \<Rightarrow> (Inr (error ''ERR watch not found''), s1)
      | (True, s1) \<Rightarrow>
          (Inr ok_reply,
           case get_meas (kv s1) name res of
             None \<Rightarrow> s1
           | Some m \<Rightarrow>
               publish_meas env name res (meas_val m) (meas_ts m) ''STALE''
                 (file_meas env name res (meas_val m) ''STALE'' s1)))"

definition handle_unwatch :: "'w env \<Rightarrow> 'w handler" where
  "handle_unwatch env args ctx s =
     (case args of
        [] \<Rightarrow> wrong_args ''IUNWATCH'' s
      | name # rest \<Rightarrow>
          if upper name = ''ALL''
          then (Inr ok_reply, fold (unwatch_owned env (ctx_session ctx)) (list_instruments s) s)
          else (case rest of
            [] \<Rightarrow> wrong_args ''IUNWATCH'' s
          | res # _ \<Rightarrow>
              if upper res = ''ALL'' then (Inr ok_reply, stop_and_stale env name s)
              else unwatch_one env name res s))"

definition handle_watches :: "'w handler" where
  "handle_watches args ctx = reads (\<lambda>s. array_strs (list_watches s (first_arg args)))"

text \<open>\<open>int(float)\<close> raises on NaN.\<close>

definition bench_health :: "pyfloat option \<Rightarrow> exn + string" where
  "bench_health h =
     (case h of
        None \<Rightarrow> Inr ''off''
      | Some f \<Rightarrow>
          (case f_trunc f of
             None \<Rightarrow> Inl (OtherError ''cannot convert float NaN to integer'')
           | Some n \<Rightarrow> Inr (show_int n @ ''s'')))"

fun bench_lines :: "string list \<Rightarrow> (string list, 'w server) act" where
  "bench_lines [] = ret []"
| "bench_lines (name # names) =
     bind_ex (get_inst name) (\<lambda>inst.
     bind_ex (\<lambda>s. (bench_health (health_interval inst), s)) (\<lambda>health.
     bind_ex (reads (\<lambda>s. length (inst_watches s name))) (\<lambda>n.
     bind_ex (bench_lines names) (\<lambda>lines.
       ret ((name @ '' '' @ state_name (istate inst)
             @ '' owner='' @ (case lock_owner inst of None \<Rightarrow> ''-'' | Some own \<Rightarrow> show_int own)
             @ '' watches='' @ show_nat n @ '' health='' @ health) # lines)))))"

definition handle_bench :: "'w handler" where
  "handle_bench args ctx s = bind_ex (bench_lines (list_instruments s)) (\<lambda>lines. ret (array_strs lines)) s"

subsection \<open>Locks\<close>

text \<open>The first loop of \<open>ILOCK\<close>: the reply of the first instrument that cannot be locked.\<close>

fun lock_refusal :: "string list \<Rightarrow> int \<Rightarrow> 'w server \<Rightarrow> string option" where
  "lock_refusal [] sid s = None"
| "lock_refusal (name # names) sid s =
     (case get_inst name s of
        (Inl e, _) \<Rightarrow> Some (state_error e)
      | (Inr inst, _) \<Rightarrow>
          if istate inst \<noteq> IDLE then
            (if lock_owner inst = Some sid then lock_refusal names sid s
             else (case lock_owner inst of
                Some own \<Rightarrow> Some (''-LOCKED '' @ owned_by_text name own @ crlf)
              | None \<Rightarrow> Some (error (''instrument '' @ quoted name @ '' is not IDLE''))))
          else lock_refusal names sid s)"

definition take_lock :: "int \<Rightarrow> string \<Rightarrow> 'w server \<Rightarrow> 'w server" where
  "take_lock sid name = upd_inst name (\<lambda>i. if lock_owner i = Some sid then i
                                            else i\<lparr>istate := LOCKED, lock_owner := Some sid\<rparr>)"

definition handle_lock :: "'w env \<Rightarrow> 'w handler" where
  "handle_lock env args ctx s =
     (if args = [] then wrong_args ''ILOCK'' s
      else case ctx_session ctx of
        None \<Rightarrow> fail ''no session context'' s
      | Some sid \<Rightarrow>
          (case lock_refusal args sid s of
             Some reply \<Rightarrow> (Inr reply, s)
           | None \<Rightarrow>
               (Inr ok_reply,
                fold (\<lambda>name. publish_lock env ''acquired'' name sid []) args
                  (fold (take_lock sid) args s))))"

definition publish_stale :: "'w env \<Rightarrow> (string \<times> string \<times> meas_value) list \<Rightarrow> 'w server \<Rightarrow> 'w server" where
  "publish_stale env = fold (\<lambda>(inst, res, m). publish_meas env inst res (meas_val m) (meas_ts m) (meas_status m))"

definition stale_with_events :: "'w env \<Rightarrow> string \<Rightarrow> 'w server \<Rightarrow> 'w server" where
  "stale_with_events env name s =
     (case invalidate_meas (kv s) name (now env s) of
        (invalidated, st) \<Rightarrow> publish_stale env invalidated (s\<lparr>kv := st\<rparr>))"

definition unlock_with_meas :: "'w env \<Rightarrow> string \<Rightarrow> int \<Rightarrow> (unit, 'w server) act" where
  "unlock_with_meas env name sid =
     bind_ex (modify (watch_stop_instrument name)) (\<lambda>_.
     bind_ex (registry_unlock env name sid) (\<lambda>_.
     bind_ex (modify (stale_with_events env name)) (\<lambda>_.
       modify (publish_lock env ''released'' name sid []))))"

fun unlock_all_of :: "'w env \<Rightarrow> string list \<Rightarrow> int \<Rightarrow> (unit, 'w server) act" where
  "unlock_all_of env [] sid = ret ()"
| "unlock_all_of env (name # names) sid =
     bind_ex (unlock_with_meas env name sid) (\<lambda>_. unlock_all_of env names sid)"

definition unlock_owned :: "'w env \<Rightarrow> int \<Rightarrow> string \<Rightarrow> 'w server \<Rightarrow> 'w server" where
  "unlock_owned env sid name s =
     (case dict_get (instruments s) name of
        Some inst \<Rightarrow>
          if lock_owner inst = Some sid then snd (quietly (unlock_with_meas env name sid) s) else s
      | None \<Rightarrow> s)"

definition handle_unlock :: "'w env \<Rightarrow> 'w handler" where
  "handle_unlock env args ctx s =
     (case ctx_session ctx of
        None \<Rightarrow> fail ''no session context'' s
      | Some sid \<Rightarrow>
          (case args of
             [] \<Rightarrow> wrong_args ''IUNLOCK'' s
           | a # _ \<Rightarrow>
               if upper a = ''ALL''
               then (Inr ok_reply, fold (unlock_owned env sid) (list_instruments s) s)
               else except_when (\<lambda>e. is_IdleError e \<or> is_LockedError e \<or> is_DriverError e)
                      (bind_ex (unlock_all_of env args sid) (\<lambda>_. done_ok))
                      (\<lambda>e. ret (state_error e)) s))"

definition handle_locks :: "'w handler" where
  "handle_locks args ctx =
     reads (\<lambda>s. array_strs (concat (map (\<lambda>name.
       case dict_get (instruments s) name of
         Some inst \<Rightarrow> (case lock_owner inst of
                         Some own \<Rightarrow> [name @ '':session:'' @ show_int own] | None \<Rightarrow> [])
       | None \<Rightarrow> []) (list_instruments s))))"

subsection \<open>Resources\<close>

text \<open>\<open>instrument:resource\<close>; \<open>Inl\<close> is the text of the \<open>ValueError\<close>.\<close>

definition parse_resource_address :: "string \<Rightarrow> string + (string \<times> string)" where
  "parse_resource_address addr =
     (case split_first colon addr of
        (inst, Some res) \<Rightarrow>
          if inst \<noteq> [] \<and> res \<noteq> [] then Inr (inst, res)
          else Inl (''invalid resource address '' @ quoted addr @ '', expected instrument:resource'')
      | _ \<Rightarrow> Inl (''invalid resource address '' @ quoted addr @ '', expected instrument:resource''))"

definition meas_status_of :: "exn option \<Rightarrow> string" where
  "meas_status_of err =
     (case err of
        None \<Rightarrow> ''OK''
      | Some e \<Rightarrow> if contains (lower (exn_text e)) ''timeout'' then ''TIMEOUT'' else ''ERROR '' @ exn_text e)"

definition write_meas_flag :: "'w env \<Rightarrow> string \<Rightarrow> string \<Rightarrow> string option \<Rightarrow> exn option \<Rightarrow> 'w server \<Rightarrow> 'w server" where
  "write_meas_flag env name res val err s =
     (let s1 = file_meas env name res val (meas_status_of err) s in
      case get_meas (kv s1) name res of
        None \<Rightarrow> s1
      | Some m \<Rightarrow> publish_meas env name res (meas_val m) (meas_ts m) (meas_status m) s1)"

definition read_resource :: "'w env \<Rightarrow> string \<Rightarrow> string \<Rightarrow> bool \<Rightarrow> int \<Rightarrow> (string, 'w server) act" where
  "read_resource env name res meas_flag sid =
     except_when any_state_exn
       (bind_ex (owner_call name (Some sid) (registry_read env name res)) (\<lambda>result.
        bind_ex (modify (if meas_flag then write_meas_flag env name res (Some result) None else id)) (\<lambda>_.
          ret (bulk_string result))))
       (\<lambda>e. bind_ex (modify (if meas_flag \<and> \<not> is_IdleError e \<and> \<not> is_LockedError e
                             then write_meas_flag env name res None (Some e) else id)) (\<lambda>_.
              ret (state_error e)))"

definition handle_read :: "'w env \<Rightarrow> 'w handler" where
  "handle_read env args ctx =
     (if args = [] then wrong_args ''IREAD''
      else case ctx_session ctx of
        None \<Rightarrow> fail ''no session context''
      | Some sid \<Rightarrow>
          let meas_flag = (upper (last args) = ''MEAS'');
              work_args = (if meas_flag then butlast args else args)
          in (case work_args of
                [] \<Rightarrow> wrong_args ''IREAD''
              | a # rest \<Rightarrow>
                  if colon \<in> set a then
                    (case parse_resource_address a of
                       Inl e \<Rightarrow> fail e
                     | Inr (name, res) \<Rightarrow> read_resource env name res meas_flag sid)
                  else (case rest of
                       res # _ \<Rightarrow> read_resource env a res meas_flag sid
                     | [] \<Rightarrow> wrong_args ''IREAD'')))"

definition write_resource :: "'w env \<Rightarrow> string \<Rightarrow> string \<Rightarrow> string \<Rightarrow> int \<Rightarrow> (string, 'w server) act" where
  "write_resource env name res val sid =
     except_when any_state_exn
       (bind_ex (owner_call name (Some sid) (registry_write env name res val)) (\<lambda>_. done_ok))
       (\<lambda>e. ret (state_error e))"

definition handle_write :: "'w env \<Rightarrow> 'w handler" where
  "handle_write env args ctx =
     (case args of
        a # b # rest \<Rightarrow>
          (case ctx_session ctx of
             None \<Rightarrow> fail ''no session context''
           | Some sid \<Rightarrow>
               if colon \<in> set a then
                 (case parse_resource_address a of
                    Inl e \<Rightarrow> fail e
                  | Inr (name, res) \<Rightarrow> write_resource env name res b sid)
               else (case rest of
                    val # _ \<Rightarrow> write_resource env a b val sid
                  | [] \<Rightarrow> wrong_args ''IWRITE''))
      | _ \<Rightarrow> wrong_args ''IWRITE'')"

definition handle_raw :: "'w env \<Rightarrow> 'w handler" where
  "handle_raw env args ctx =
     (case args of
        name # c # cs \<Rightarrow>
          (case ctx_session ctx of
             None \<Rightarrow> fail ''no session context''
           | Some sid \<Rightarrow>
               except_when any_state_exn
                 (bind_ex (owner_call name (Some sid) (registry_passthrough env name (join '' '' (c # cs))))
                    (\<lambda>r. ret (bulk_string r)))
                 (\<lambda>e. ret (state_error e)))
      | _ \<Rightarrow> wrong_args ''IRAW'')"

text \<open>\<open>IMREAD\<close>: every address is parsed and checked first; then the coroutines check READY, in order,
  before the first of them gets a driver call; then the calls run, and the first error in the order of
  the arguments is the reply.\<close>

fun mread_targets :: "string list \<Rightarrow> int \<Rightarrow> 'w server \<Rightarrow> string + (string \<times> string) list" where
  "mread_targets [] sid s = Inr []"
| "mread_targets (addr # addrs) sid s =
     (case parse_resource_address addr of
        Inl e \<Rightarrow> Inl (error e)
      | Inr (name, res) \<Rightarrow>
          (case bind_ex (get_inst name) (\<lambda>inst. require_lock inst name (Some sid)) s of
             (Inl e, _) \<Rightarrow> Inl (state_error e)
           | (Inr _, _) \<Rightarrow>
               (case mread_targets addrs sid s of
                  Inl reply \<Rightarrow> Inl reply
                | Inr targets \<Rightarrow> Inr ((name, res) # targets))))"

definition mread_check :: "'w server \<Rightarrow> string \<times> string \<Rightarrow> exn + (string \<times> string \<times> nat)" where
  "mread_check s target =
     fst (bind_ex (get_inst (fst target)) (\<lambda>inst.
            bind_ex (check_ready inst) (\<lambda>_. ret (fst target, snd target, driver inst))) s)"

fun mread_calls :: "'w env \<Rightarrow> (exn + (string \<times> string \<times> nat)) list \<Rightarrow> 'w server \<Rightarrow> (exn + string) list \<times> 'w server" where
  "mread_calls env [] s = ([], s)"
| "mread_calls env (Inl e # cs) s = (case mread_calls env cs s of (rs, s') \<Rightarrow> (Inl e # rs, s'))"
| "mread_calls env (Inr (name, res, drv) # cs) s =
     (case tracked_call env name (driver_timeout s) (d_read env drv res) s of
        (r, s1) \<Rightarrow> (case mread_calls env cs s1 of (rs, s2) \<Rightarrow> (r # rs, s2)))"

fun first_error :: "(exn + 'a) list \<Rightarrow> exn + 'a list" where
  "first_error [] = Inr []"
| "first_error (Inl e # rs) = Inl e"
| "first_error (Inr v # rs) = (case first_error rs of Inl e \<Rightarrow> Inl e | Inr vs \<Rightarrow> Inr (v # vs))"

definition handle_readmulti :: "'w env \<Rightarrow> 'w handler" where
  "handle_readmulti env args ctx s =
     (if args = [] then wrong_args ''IMREAD'' s
      else case ctx_session ctx of
        None \<Rightarrow> fail ''no session context'' s
      | Some sid \<Rightarrow>
          (case mread_targets args sid s of
             Inl reply \<Rightarrow> (Inr reply, s)
           | Inr targets \<Rightarrow>
               (case mread_calls env (map (mread_check s) targets) s of
                  (results, s') \<Rightarrow>
                    (Inr (case first_error results of
                            Inl e \<Rightarrow> state_error e
                          | Inr vs \<Rightarrow> array_strs vs), s'))))"

definition file_call :: "string \<Rightarrow> ('w env \<Rightarrow> string \<Rightarrow> string \<Rightarrow> string \<Rightarrow> (string, 'w server) act)
    \<Rightarrow> 'w env \<Rightarrow> 'w handler" where
  "file_call cmd op env args ctx =
     (case args of
        name # target # path # _ \<Rightarrow>
          (case ctx_session ctx of
             None \<Rightarrow> fail ''no session context''
           | Some sid \<Rightarrow>
               except_when any_state_exn
                 (bind_ex (owner_call name (Some sid) (op env name target path)) (\<lambda>r. ret (bulk_string r)))
                 (\<lambda>e. ret (state_error e)))
      | _ \<Rightarrow> wrong_args cmd)"

definition handle_save :: "'w env \<Rightarrow> 'w handler" where
  "handle_save = file_call ''ISAVE'' registry_save"

definition handle_load :: "'w env \<Rightarrow> 'w handler" where
  "handle_load = file_call ''ILOAD'' registry_load"

end
