(* ===== verification/CommandsServer.thy ===== *)
theory CommandsServer
  imports CommandsInstrument
begin

text \<open>
  The handlers of \<open>testcore/commands.py\<close> about the server itself: introspection, sessions, monitor and
  subscriber mode, the journal, and the snapshot.

  The context of a client's command names a client that is connected; a handler that needs one and has
  none replies \<open>no session context\<close>.
\<close>

definition VERSION :: string where
  "VERSION = ''0.9.4''"

definition handle_ping :: "'w handler" where
  "handle_ping args ctx =
     (case args of [] \<Rightarrow> ret (simple_string ''PONG'') | m # _ \<Rightarrow> ret (bulk_string m))"

text \<open>The names in the dispatch table, in the order of registration.\<close>

definition command_names :: "string list" where
  "command_names =
     [''PING'', ''COMMAND LIST'', ''INFO'', ''TIME'', ''CLIENT ID'', ''CLIENT LIST'', ''CLIENT NAME'',
      ''MONITOR'', ''SUBSCRIBE'', ''UNSUBSCRIBE'', ''DUMP'', ''JOURNAL'',
      ''KSET'', ''KGET'', ''KMGET'', ''KMSET'', ''KDEL'', ''KEXISTS'', ''KKEYS'', ''KDBSIZE'', ''KFLUSH'', ''KGETALL'',
      ''IADD'', ''IREMOVE'', ''IINIT'', ''IINFO'', ''ILIST'', ''IRESOURCES'', ''IPING'', ''IWAIT'', ''IWATCH'',
      ''IUNWATCH'', ''IWATCHES'', ''IRESET'', ''IALIGN'', ''DRIVER LIST'',
      ''ILOCK'', ''IUNLOCK'', ''ILOCKED'',
      ''IREAD'', ''IWRITE'', ''IRAW'', ''IMREAD'', ''ILOAD'', ''ISAVE'',
      ''BENCH'', ''MGET'', ''MGETALL'', ''MKEYS'']"

definition handle_command :: "'w handler" where
  "handle_command args ctx =
     ret (array_strs (sort
       (case args of
          p # _ \<Rightarrow> if p = [] then command_names else filter (\<lambda>c. fnmatch c p) command_names
        | [] \<Rightarrow> command_names)))"

subsection \<open>INFO\<close>

definition INFO_SECTIONS :: "string list" where
  "INFO_SECTIONS = [''server'', ''clients'', ''store'', ''instruments'', ''health'']"

definition uptime_line :: "'w env \<Rightarrow> 'w server \<Rightarrow> string" where
  "uptime_line env s = ''uptime_seconds:'' @ show_fixed 0 (f_sub (now env s) (start_time s))"

definition connected_line :: "'w server \<Rightarrow> string" where
  "connected_line s = ''connected_clients:'' @ show_nat (length (clients s))"

definition info_server :: "'w env \<Rightarrow> 'w server \<Rightarrow> string list" where
  "info_server env s =
     [''# Server'', ''version:'' @ VERSION, uptime_line env s, ''host:'' @ host s, ''port:'' @ show_int (port s),
      ''max_clients:'' @ show_int (max_clients s), connected_line s, ''driver_timeout:'' @ show_float (driver_timeout s)]"

definition info_clients :: "'w server \<Rightarrow> string list" where
  "info_clients s =
     [''# Clients'', connected_line s, ''total_connections:'' @ show_nat (total_connections s),
      ''rejected_connections:'' @ show_nat (rejected_connections s),
      ''total_commands_processed:'' @ show_nat (total_commands s)]"

definition info_store :: "'w server \<Rightarrow> string list" where
  "info_store s =
     [''# Store'', ''keys:'' @ show_nat (kv_dbsize (kv s)),
      ''reserved_keys:'' @ show_nat (length (filter (\<lambda>k. list_ex (startswith k)
          [''_sys:'', ''_drv:'', ''_inst:'', ''_sess:'', ''_lock:'', ''_watch:'']) (dict_keys (data (kv s))))),
      ''monitor_clients:'' @ show_nat (length (monitors s))]"

definition count_state :: "'w server \<Rightarrow> instrument_state \<Rightarrow> string" where
  "count_state s st = show_nat (length (filter (\<lambda>i. istate i = st) (dict_values (instruments s))))"

definition info_instruments :: "'w server \<Rightarrow> string list" where
  "info_instruments s =
     [''# Instruments'', ''instrument_count:'' @ show_nat (length (list_instruments s)),
      ''locked_count:'' @ count_state s LOCKED, ''ready_count:'' @ count_state s READY,
      ''fault_count:'' @ count_state s FAULT, ''unresponsive_count:'' @ count_state s UNRESPONSIVE,
      ''total_driver_calls:'' @ show_nat (sum_list (map total_calls (dict_values (instruments s)))),
      ''total_driver_errors:'' @ show_nat (sum_list (map total_errors (dict_values (instruments s))))]"

definition faulted_names :: "'w server \<Rightarrow> string list" where
  "faulted_names s =
     concat (map (\<lambda>name. case dict_get (instruments s) name of
         Some i \<Rightarrow> if istate i \<in> {FAULT, UNRESPONSIVE} then [name @ '':'' @ state_name (istate i)] else []
       | None \<Rightarrow> []) (list_instruments s))"

definition info_health :: "'w env \<Rightarrow> 'w server \<Rightarrow> string list" where
  "info_health env s =
     (let names = faulted_names s in
      [''# Health'', uptime_line env s, ''status:'' @ (if names = [] then ''OK'' else ''DEGRADED''),
       ''faulted_instruments:'' @ show_nat (length names)]
      @ (if names = [] then [] else [''faulted_list:'' @ join '','' names]))"

definition info_sections :: "'w env \<Rightarrow> 'w server \<Rightarrow> (string \<times> string list) list" where
  "info_sections env s =
     [(''server'', info_server env s), (''clients'', info_clients s), (''store'', info_store s),
      (''instruments'', info_instruments s), (''health'', info_health env s)]"

text \<open>The sections asked for, with an empty line before each but the first.\<close>

fun separate :: "string list list \<Rightarrow> string list" where
  "separate [] = []"
| "separate [x] = x"
| "separate (x # y # ys) = x @ [] # separate (y # ys)"

definition handle_info :: "'w env \<Rightarrow> 'w handler" where
  "handle_info env args ctx s =
     (let section = (case args of [] \<Rightarrow> None | a # _ \<Rightarrow> Some (lower a)) in
      case section of
        None \<Rightarrow> (Inr (bulk_string (join crlf (separate (map snd (info_sections env s))))), s)
      | Some x \<Rightarrow>
          if x \<noteq> [] \<and> x \<notin> set INFO_SECTIONS
          then fail (''invalid INFO section '' @ quoted x @ '', valid: '' @ join '', '' INFO_SECTIONS) s
          else (Inr (bulk_string (join crlf (separate
                  (map snd (filter (\<lambda>(n, _). n = x) (info_sections env s)))))), s))"

definition handle_time :: "'w env \<Rightarrow> 'w handler" where
  "handle_time env args ctx s =
     (let t = now env s;
          seconds = (case f_trunc t of Some n \<Rightarrow> n | None \<Rightarrow> 0);
          us = (case f_trunc (f_times (f_sub t (f_of_int seconds)) 1000000) of Some n \<Rightarrow> n | None \<Rightarrow> 0)
      in (Inr (array_strs [show_int seconds, show_int us]), s))"

subsection \<open>Sessions\<close>

definition no_session :: "(string, 's) act" where
  "no_session = fail ''no session context''"

definition the_client :: "cmd_context \<Rightarrow> 'w server \<Rightarrow> (int \<times> client) option" where
  "the_client ctx s =
     (case ctx_client ctx of
        None \<Rightarrow> None
      | Some cid \<Rightarrow> map_option (Pair cid) (dict_get (clients s) cid))"

definition handle_clientid :: "'w handler" where
  "handle_clientid args ctx =
     (case ctx_session ctx of None \<Rightarrow> no_session | Some sid \<Rightarrow> ret (integer sid))"

definition name_or_empty :: "client \<Rightarrow> string" where
  "name_or_empty c = (case client_name c of None \<Rightarrow> [] | Some n \<Rightarrow> n)"

definition client_line :: "pyfloat \<Rightarrow> int \<times> client \<Rightarrow> string" where
  "client_line t cc = (case cc of (cid, c) \<Rightarrow>
     ''id='' @ show_int cid @ '' addr='' @ address c @ '' name='' @ name_or_empty c
     @ '' age='' @ show_int (case f_trunc (f_sub t (connect_time c)) of Some n \<Rightarrow> n | None \<Rightarrow> 0)
     @ '' cmd='' @ show_nat (cmd_count c))"

definition handle_clientlist :: "'w env \<Rightarrow> 'w handler" where
  "handle_clientlist env args ctx =
     reads (\<lambda>s. bulk_string (join [CHR 0x0A] (map (client_line (now env s)) (sort_key fst (clients s)))))"

definition handle_clientname :: "'w handler" where
  "handle_clientname args ctx s =
     (case the_client ctx s of
        None \<Rightarrow> no_session s
      | Some (cid, c) \<Rightarrow>
          (case args of
             [] \<Rightarrow> (Inr (case client_name c of None \<Rightarrow> null_reply | Some n \<Rightarrow> bulk_string n), s)
           | n # _ \<Rightarrow> (Inr ok_reply, upd_client cid (\<lambda>c. c\<lparr>client_name := Some n\<rparr>) s)))"

definition handle_monitor :: "'w handler" where
  "handle_monitor args ctx s =
     (case the_client ctx s of
        None \<Rightarrow> no_session s
      | Some (cid, c) \<Rightarrow>
          if subscribing c then fail ''cannot enter MONITOR while in subscriber mode'' s
          else (Inr ok_reply, upd_client cid (\<lambda>c. c\<lparr>pending_monitor := True\<rparr>) s))"

definition invalid_channel :: "string \<Rightarrow> string" where
  "invalid_channel channel =
     error (''invalid channel '' @ quoted channel @ '', valid: '' @ join '', '' (sort VALID_CHANNELS)
            @ '' (supports glob filter, e.g. kv:alert:*)'')"

fun subscribe_all :: "int \<Rightarrow> string list \<Rightarrow> string \<Rightarrow> 'w server \<Rightarrow> (string + string) \<times> 'w server" where
  "subscribe_all cid [] response s = (Inr response, s)"
| "subscribe_all cid (channel # channels) response s =
     (if \<not> is_valid_channel channel then (Inl (invalid_channel channel), s)
      else
        let s1 = s\<lparr>bus := snd (subscribe (bus s) cid channel)\<rparr>;
            total = length (subscriber_channels (bus s1) cid)
        in subscribe_all cid channels
             (response @ array [AStr ''subscribe'', AStr channel, AInt (int total)]) s1)"

definition handle_subscribe :: "'w handler" where
  "handle_subscribe args ctx s =
     (case the_client ctx s of
        None \<Rightarrow> no_session s
      | Some (cid, c) \<Rightarrow>
          if monitoring c then fail ''cannot SUBSCRIBE while in monitor mode'' s
          else if args = [] then wrong_args ''SUBSCRIBE'' s
          else (case subscribe_all cid args [] s of
             (Inl reply, s1) \<Rightarrow> (Inr reply, s1)
           | (Inr response, s1) \<Rightarrow> (Inr response, upd_client cid (\<lambda>c. c\<lparr>subscribing := True\<rparr>) s1)))"

fun unsubscribe_loop :: "int \<Rightarrow> string list \<Rightarrow> string \<Rightarrow> 'w server \<Rightarrow> string \<times> 'w server" where
  "unsubscribe_loop cid [] response s = (response, s)"
| "unsubscribe_loop cid (channel # channels) response s =
     (let s1 = s\<lparr>bus := snd (unsubscribe (bus s) cid channel)\<rparr>;
          remaining = length (subscriber_channels (bus s1) cid)
      in unsubscribe_loop cid channels
           (response @ array [AStr ''unsubscribe'', AStr channel, AInt (int remaining)]) s1)"

definition handle_unsubscribe :: "'w handler" where
  "handle_unsubscribe args ctx s =
     (case the_client ctx s of
        None \<Rightarrow> no_session s
      | Some (cid, c) \<Rightarrow>
          let channels = (if args = [] then subscriber_channels (bus s) cid else args);
              r = (if channels = []
                   then (array [AStr ''unsubscribe'', ANull, AInt 0], s)
                   else unsubscribe_loop cid channels [] s)
          in (Inr (fst r),
              if subscriber_channels (bus (snd r)) cid = []
              then upd_client cid (\<lambda>c. c\<lparr>subscribing := False\<rparr>) (snd r) else snd r))"

subsection \<open>Journal\<close>

fun rel_lines :: "pyfloat \<Rightarrow> journal_entry list \<Rightarrow> string list" where
  "rel_lines prev [] = []"
| "rel_lines prev (e # es) = to_str_rel e prev # rel_lines (entry_ts e) es"

definition journal_lines :: "bool \<Rightarrow> journal_entry list \<Rightarrow> string" where
  "journal_lines rel es =
     array_strs (case es of
        [] \<Rightarrow> []
      | e # _ \<Rightarrow> if rel then rel_lines (entry_ts e) es else map to_str es)"

definition journal_usage :: string where
  "journal_usage = ''usage: JOURNAL [count | +offset [count] | ALL | CLEAR] [REL]''"

definition journal_from :: "string \<Rightarrow> string list \<Rightarrow> journal \<Rightarrow> string + journal_entry list" where
  "journal_from offs rest j =
     (case read_int (drop 1 offs) of
        None \<Rightarrow> Inl ''invalid offset''
      | Some n \<Rightarrow>
          (case rest of
             [] \<Rightarrow> Inr (journal_head j (nat (n - 1)) None)
           | c # _ \<Rightarrow>
               (case read_int c of
                  None \<Rightarrow> Inl ''invalid count''
                | Some count \<Rightarrow>
                    if count < 0 then Inl ''count must be positive''
                    else Inr (journal_head j (nat (n - 1)) (Some count)))))"

definition handle_journal :: "'w handler" where
  "handle_journal args0 ctx s =
     (let rel = (args0 \<noteq> [] \<and> upper (last args0) = ''REL'');
          args = (if rel then butlast args0 else args0);
          show_entries = (\<lambda>r. case r of Inl e \<Rightarrow> fail e s | Inr es \<Rightarrow> (Inr (journal_lines rel es), s))
      in case args of
           [] \<Rightarrow> show_entries (Inr (journal_tail (jrnl s) 10))
         | a # rest \<Rightarrow>
             if upper a = ''ALL'' then show_entries (Inr (journal_all (jrnl s)))
             else if upper a = ''CLEAR''
             then (case journal_clear (jrnl s) of (n, j) \<Rightarrow> (Inr (integer (int n)), s\<lparr>jrnl := j\<rparr>))
             else if startswith a ''+'' then show_entries (journal_from a rest (jrnl s))
             else show_entries
               (case read_int a of
                  None \<Rightarrow> Inl journal_usage
                | Some count \<Rightarrow>
                    if count < 0 then Inl ''count must be positive'' else Inr (journal_tail (jrnl s) count)))"

subsection \<open>DUMP\<close>

definition owner_json :: "int option \<Rightarrow> json" where
  "owner_json own = (case own of None \<Rightarrow> JNull | Some n \<Rightarrow> JInt n)"

definition instrument_json :: "'w env \<Rightarrow> 'w server \<Rightarrow> instrument \<Rightarrow> json" where
  "instrument_json env s i =
     JObj [(''state'', JStr (state_name (istate i))), (''driver'', JStr (class_name env (driver i) (world s))),
           (''lock_owner'', owner_json (lock_owner i)), (''total_calls'', JInt (int (total_calls i))),
           (''total_errors'', JInt (int (total_errors i)))]"

definition session_json :: "int \<times> client \<Rightarrow> json" where
  "session_json cc = (case cc of (cid, c) \<Rightarrow>
     JObj [(''id'', JInt cid), (''name'', JStr (name_or_empty c)), (''address'', JStr (address c)),
           (''cmd_count'', JInt (int (cmd_count c)))])"

definition sorted_instruments :: "'w server \<Rightarrow> (string \<times> instrument) list" where
  "sorted_instruments s =
     concat (map (\<lambda>name. case dict_get (instruments s) name of Some i \<Rightarrow> [(name, i)] | None \<Rightarrow> []) (list_instruments s))"

definition dump_json :: "'w env \<Rightarrow> 'w server \<Rightarrow> json" where
  "dump_json env s =
     JObj [(''version'', JStr VERSION),
           (''timestamp'', JFloat (now env s)),
           (''kv'', JObj (map (\<lambda>(k, v). (k, JStr v)) (filter (\<lambda>(k, v). \<not> is_reserved k) (data (kv s))))),
           (''instruments'', JObj (map (\<lambda>(name, i). (name, instrument_json env s i)) (sorted_instruments s))),
           (''locks'', JObj (concat (map (\<lambda>(name, i). case lock_owner i of
               Some own \<Rightarrow> [(name, JInt own)] | None \<Rightarrow> []) (sorted_instruments s)))),
           (''sessions'', JArr (map session_json (clients s)))]"

definition handle_dump :: "'w env \<Rightarrow> 'w handler" where
  "handle_dump env args ctx s =
     (case the_client ctx s of
        Some (_, c) \<Rightarrow>
          if monitoring c then fail ''cannot DUMP while in monitor mode'' s
          else if subscribing c then fail ''cannot DUMP while in subscriber mode'' s
          else (Inr (bulk_string (dumps_indent 0 (dump_json env s))), s)
      | None \<Rightarrow> (Inr (bulk_string (dumps_indent 0 (dump_json env s))), s))"

end
