(* ===== verification/Dispatch.thy ===== *)
theory Dispatch
  imports CommandsServer
begin

text \<open>
  \<open>CommandDispatcher.dispatch\<close> of \<open>testcore/commands.py\<close> and \<open>testcore/server.py\<close>: the dispatch table,
  the sessions from connection to clean-up, and starting and stopping the server.

  The dispatcher runs one command at a time, under its lock; a command is one step of the model.
\<close>

subsection \<open>The dispatch table\<close>

definition handlers :: "'w env \<Rightarrow> (string \<times> 'w handler) list" where
  "handlers env =
     [(''PING'', handle_ping), (''COMMAND LIST'', handle_command), (''INFO'', handle_info env),
      (''TIME'', handle_time env), (''CLIENT ID'', handle_clientid), (''CLIENT LIST'', handle_clientlist env),
      (''CLIENT NAME'', handle_clientname), (''MONITOR'', handle_monitor), (''SUBSCRIBE'', handle_subscribe),
      (''UNSUBSCRIBE'', handle_unsubscribe), (''DUMP'', handle_dump env), (''JOURNAL'', handle_journal),
      (''KSET'', handle_set env), (''KGET'', handle_get), (''KMGET'', handle_kmget), (''KMSET'', handle_mset),
      (''KDEL'', handle_del), (''KEXISTS'', handle_exists), (''KKEYS'', handle_keys), (''KDBSIZE'', handle_dbsize),
      (''KFLUSH'', handle_flushdb), (''KGETALL'', handle_getall),
      (''IADD'', handle_instrument_add env), (''IREMOVE'', handle_instrument_remove env),
      (''IINIT'', handle_instrument_init env), (''IINFO'', handle_instrument_info env),
      (''ILIST'', handle_instrument_list), (''IRESOURCES'', handle_instrument_resources env),
      (''IPING'', handle_instrument_ping env), (''IWAIT'', handle_instrument_wait env),
      (''IWATCH'', handle_watch env), (''IUNWATCH'', handle_unwatch env), (''IWATCHES'', handle_watches),
      (''IRESET'', handle_instrument_reset env), (''IALIGN'', handle_align env), (''DRIVER LIST'', handle_driver_list),
      (''ILOCK'', handle_lock env), (''IUNLOCK'', handle_unlock env), (''ILOCKED'', handle_locks),
      (''IREAD'', handle_read env), (''IWRITE'', handle_write env), (''IRAW'', handle_raw env),
      (''IMREAD'', handle_readmulti env), (''ILOAD'', handle_load env), (''ISAVE'', handle_save env),
      (''BENCH'', handle_bench), (''MGET'', handle_meas_get), (''MGETALL'', handle_meas_getall), (''MKEYS'', handle_meas_keys)]"

lemma handlers_names: "map fst (handlers env) = command_names"
  by (simp add: handlers_def command_names_def)

definition SUBCOMMAND_ROOTS :: "string list" where
  "SUBCOMMAND_ROOTS = [''CLIENT'', ''COMMAND'', ''DRIVER'']"

definition SUBSCRIBER_ALLOWED :: "string list" where
  "SUBSCRIBER_ALLOWED = [''SUBSCRIBE'', ''UNSUBSCRIBE'', ''PING'']"

text \<open>The command's name and arguments: a root word takes its subcommand with it.\<close>

definition resolve_command :: "string \<Rightarrow> string list \<Rightarrow> string \<times> string list" where
  "resolve_command cmd args =
     (let name = upper cmd in
      if name \<in> set SUBCOMMAND_ROOTS then
        (case args of
           [] \<Rightarrow> (name, args)
         | sub # rest \<Rightarrow>
             if name @ '' '' @ upper sub \<in> set command_names then (name @ '' '' @ upper sub, rest) else (name, args))
      else (name, args))"

text \<open>\<open>try: await handler\<close>, and any exception becomes an error reply.\<close>

definition run_handler :: "'w handler \<Rightarrow> string list \<Rightarrow> cmd_context \<Rightarrow> 'w server \<Rightarrow> string \<times> 'w server" where
  "run_handler h args ctx s =
     (case h args ctx s of
        (Inr reply, s') \<Rightarrow> (reply, s')
      | (Inl e, s') \<Rightarrow> (error (''command execution failed: '' @ exn_text e), s'))"

definition client_name_of :: "cmd_context \<Rightarrow> 'w server \<Rightarrow> string" where
  "client_name_of ctx s = (case the_client ctx s of None \<Rightarrow> [] | Some (_, c) \<Rightarrow> name_or_empty c)"

definition reply_status :: "string \<Rightarrow> string" where
  "reply_status reply = (if take 1 reply = ''-'' then ''error'' else ''ok'')"

definition record_command :: "'w env \<Rightarrow> cmd_context \<Rightarrow> string list \<Rightarrow> string \<Rightarrow> 'w server \<Rightarrow> 'w server" where
  "record_command env ctx command reply s =
     s\<lparr>jrnl := journal_record (jrnl s) (now env s) (case ctx_session ctx of Some n \<Rightarrow> n | None \<Rightarrow> 0)
                (client_name_of ctx s) command (reply_status reply)\<rparr>"

definition monitor_line :: "'w env \<Rightarrow> cmd_context \<Rightarrow> string list \<Rightarrow> 'w server \<Rightarrow> string" where
  "monitor_line env ctx command s =
     (let sid = show_int (case ctx_session ctx of Some n \<Rightarrow> n | None \<Rightarrow> 0) in
      ''+'' @ show_fixed 6 (now env s) @ '' ['' @ client_name_of ctx s @ ''#'' @ sid @ ''] ''
      @ join '' '' (map (\<lambda>c. dquote # c @ [dquote]) command) @ crlf)"

text \<open>\<open>broadcast_monitors\<close>: clients that cannot be written to leave the set.\<close>

definition broadcast_monitors :: "'w env \<Rightarrow> string \<Rightarrow> 'w server \<Rightarrow> 'w server" where
  "broadcast_monitors env bytes s =
     (let ok = filter (can_write env (world s)) (monitors s)
      in s\<lparr>monitors := ok, sent := sent s @ map (\<lambda>cid. (cid, bytes)) ok\<rparr>)"

definition in_subscriber_mode :: "cmd_context \<Rightarrow> 'w server \<Rightarrow> bool" where
  "in_subscriber_mode ctx s = (case the_client ctx s of None \<Rightarrow> False | Some (_, c) \<Rightarrow> subscribing c)"

definition dispatch :: "'w env \<Rightarrow> string list \<Rightarrow> cmd_context \<Rightarrow> 'w server \<Rightarrow> string \<times> 'w server" where
  "dispatch env command ctx s =
     (case command of
        [] \<Rightarrow> (error ''empty command'', s)
      | cmd # rest \<Rightarrow>
          (case resolve_command cmd rest of (name, args) \<Rightarrow>
             (case map_of (handlers env) name of
                None \<Rightarrow> (error (''unknown command '' @ quoted name), s)
              | Some h \<Rightarrow>
                  if in_subscriber_mode ctx s \<and> name \<notin> set SUBSCRIBER_ALLOWED
                  then (error ''only SUBSCRIBE, UNSUBSCRIBE, PING allowed in subscriber mode'', s)
                  else (case run_handler h args ctx s of
                    (reply, s1) \<Rightarrow>
                      let s2 = record_command env ctx command reply s1 in
                      (reply,
                       if name \<noteq> ''MONITOR'' \<and> monitors s2 \<noteq> []
                       then broadcast_monitors env (monitor_line env ctx command s2) s2 else s2)))))"

subsection \<open>Sessions\<close>

definition new_client :: "pyfloat \<Rightarrow> string \<Rightarrow> client" where
  "new_client t addr =
     \<lparr> address = addr, client_name = None, cmd_count = 0, monitoring = False, subscribing = False,
       pending_monitor = False, connect_time = t, parser = new_parser None, running = True \<rparr>"

text \<open>\<open>_client_connected\<close>.  \<open>peer\<close> is the address of the peer.  A rejected connection gets its message
  on a writer that belongs to no client; it has the id 0 here, which no client has.\<close>

definition client_connected :: "'w env \<Rightarrow> string \<Rightarrow> 'w server \<Rightarrow> 'w server" where
  "client_connected env peer s =
     (if max_clients s \<le> int (length (clients s))
      then s\<lparr>rejected_connections := Suc (rejected_connections s),
             sent := sent s @ [(0, error (''max clients reached ('' @ show_int (max_clients s) @ '')''))]\<rparr>
      else
        let cid = next_client_id s in
        s\<lparr>next_client_id := cid + 1, total_connections := Suc (total_connections s),
          clients := dict_set (clients s) cid (new_client (now env s) peer)\<rparr>)"

text \<open>The first thing a client's task does.\<close>

definition client_start :: "'w env \<Rightarrow> int \<Rightarrow> 'w server \<Rightarrow> 'w server" where
  "client_start env cid s =
     (case dict_get (clients s) cid of
        None \<Rightarrow> s
      | Some c \<Rightarrow> publish_session env ''connect'' cid [(''address'', JStr (address c))] s)"

text \<open>\<open>str(item)\<close>; a list prints as Python does.\<close>

fun py_repr :: "resp \<Rightarrow> string" where
  "py_repr RNil = ''None''"
| "py_repr (RStr s) = repr_str s"
| "py_repr (RInt n) = show_int n"
| "py_repr (RList xs) = ''['' @ join '', '' (map py_repr xs) @ '']''"

fun py_str :: "resp \<Rightarrow> string" where
  "py_str (RStr s) = s"
| "py_str v = py_repr v"

definition count_command :: "int \<Rightarrow> 'w server \<Rightarrow> 'w server" where
  "count_command cid s =
     (upd_client cid (\<lambda>c. c\<lparr>cmd_count := Suc (cmd_count c)\<rparr>) s)\<lparr>total_commands := Suc (total_commands s)\<rparr>"

text \<open>A monitor that sends another command leaves monitor mode.\<close>

definition leave_monitor :: "int \<Rightarrow> string \<Rightarrow> 'w server \<Rightarrow> 'w server" where
  "leave_monitor cid cmd s =
     (case dict_get (clients s) cid of
        None \<Rightarrow> s
      | Some c \<Rightarrow>
          if monitoring c \<and> upper cmd \<noteq> ''MONITOR''
          then upd_client cid (\<lambda>c. c\<lparr>monitoring := False\<rparr>) (s\<lparr>monitors := filter (\<lambda>m. m \<noteq> cid) (monitors s)\<rparr>)
          else s)"

text \<open>After the reply is written, a \<open>MONITOR\<close> command takes effect.\<close>

definition enter_monitor :: "int \<Rightarrow> 'w server \<Rightarrow> 'w server" where
  "enter_monitor cid s =
     (case dict_get (clients s) cid of
        None \<Rightarrow> s
      | Some c \<Rightarrow>
          if pending_monitor c
          then upd_client cid (\<lambda>c. c\<lparr>pending_monitor := False, monitoring := True\<rparr>)
                 (s\<lparr>monitors := (if cid \<in> set (monitors s) then monitors s else monitors s @ [cid])\<rparr>)
          else s)"

text \<open>\<open>_process_message\<close>: \<open>False\<close> when a write raised, which ends the session.\<close>

definition process_message :: "'w env \<Rightarrow> int \<Rightarrow> resp \<Rightarrow> 'w server \<Rightarrow> bool \<times> 'w server" where
  "process_message env cid m s =
     (case m of
        RList [] \<Rightarrow> (True, s)
      | RList (x # xs) \<Rightarrow>
          let command = map py_str (x # xs);
              s1 = leave_monitor cid (py_str x) (count_command cid s)
          in (case dispatch env command (client_context cid) s1 of
                (reply, s2) \<Rightarrow>
                  (case client_write env cid reply s2 of
                     (False, s3) \<Rightarrow> (False, s3)
                   | (True, s3) \<Rightarrow> (True, enter_monitor cid s3)))
      | _ \<Rightarrow> client_write env cid (error ''expected array'') s)"

fun process_messages :: "'w env \<Rightarrow> int \<Rightarrow> resp list \<Rightarrow> 'w server \<Rightarrow> bool \<times> 'w server" where
  "process_messages env cid [] s = (True, s)"
| "process_messages env cid (m # ms) s =
     (case process_message env cid m s of
        (False, s1) \<Rightarrow> (False, s1)
      | (True, s1) \<Rightarrow> process_messages env cid ms s1)"

definition release_on_close :: "'w env \<Rightarrow> int \<Rightarrow> string \<Rightarrow> 'w server \<Rightarrow> 'w server" where
  "release_on_close env cid name s =
     (case dict_get (instruments s) name of
        None \<Rightarrow> s
      | Some inst \<Rightarrow>
          if lock_owner inst = Some cid then
            snd (quietly
              (bind_ex (modify (watch_stop_instrument name)) (\<lambda>_.
               bind_ex (registry_unlock env name cid) (\<lambda>_.
               bind_ex (modify (stale_with_events env name)) (\<lambda>_.
                 modify (publish_lock env ''released'' name cid [(''reason'', JStr ''disconnect'')]))))) s)
          else s)"

text \<open>\<open>ClientHandler.close\<close>.\<close>

definition client_close :: "'w env \<Rightarrow> int \<Rightarrow> 'w server \<Rightarrow> 'w server" where
  "client_close env cid s =
     (case dict_get (clients s) cid of
        None \<Rightarrow> s
      | Some c \<Rightarrow>
          if \<not> running c then s
          else
            let s1 = upd_client cid (\<lambda>c. c\<lparr>running := False\<rparr>) s;
                s2 = fold (release_on_close env cid) (list_instruments s1) s1;
                s3 = s2\<lparr>kv := release_owner (kv s2) cid\<rparr>;
                s4 = publish_session env ''disconnect'' cid [(''address'', JStr (address c))] s3
            in s4\<lparr>bus := snd (unsubscribe_all (bus s4) cid)\<rparr>)"

text \<open>The callback that runs when a client's task is done.\<close>

definition client_cleanup :: "int \<Rightarrow> 'w server \<Rightarrow> 'w server" where
  "client_cleanup cid s =
     s\<lparr>clients := dict_del (clients s) cid, monitors := filter (\<lambda>m. m \<noteq> cid) (monitors s)\<rparr>"

text \<open>One turn of the loop of \<open>handle\<close>: \<open>data\<close> is what \<open>read\<close> returned.\<close>

definition client_receive :: "'w env \<Rightarrow> int \<Rightarrow> string \<Rightarrow> 'w server \<Rightarrow> 'w server" where
  "client_receive env cid bytes s =
     (case dict_get (clients s) cid of
        None \<Rightarrow> s
      | Some c \<Rightarrow>
          if \<not> running c then s
          else if bytes = [] then client_close env cid s
          else (case feed (parser c) bytes of
            (Inl BadUtf8, p) \<Rightarrow> client_close env cid (upd_client cid (\<lambda>c. c\<lparr>parser := p\<rparr>) s)
          | (Inl e, p) \<Rightarrow>
              client_close env cid
                (snd (client_write env cid (error (error_text e)) (upd_client cid (\<lambda>c. c\<lparr>parser := p\<rparr>) s)))
          | (Inr ms, p) \<Rightarrow>
              (case process_messages env cid ms (upd_client cid (\<lambda>c. c\<lparr>parser := p\<rparr>) s) of
                 (True, s1) \<Rightarrow> s1
               | (False, s1) \<Rightarrow> client_close env cid s1)))"

subsection \<open>Configuration file and shutdown\<close>

definition bench_line :: "'w env \<Rightarrow> string \<Rightarrow> nat \<times> 'w server \<Rightarrow> nat \<times> 'w server" where
  "bench_line env raw ns =
     (case ns of (n, s) \<Rightarrow>
        let line = strip raw; parts = words line in
        if line = [] \<or> startswith line ''#'' then (n, s)
        else if length parts < 2 then (n, s)
        else (case handle_instrument_add env parts boot_context s of
                (Inr reply, s1) \<Rightarrow> (if reply = ok_reply then Suc n else n, s1)
              | (Inl _, s1) \<Rightarrow> (n, s1)))"

text \<open>\<open>load_bench_config\<close>, with the number of instruments loaded.\<close>

definition load_bench_config :: "'w env \<Rightarrow> string \<Rightarrow> 'w server \<Rightarrow> nat \<times> 'w server" where
  "load_bench_config env path s =
     (case read_lines env path (world s) of
        None \<Rightarrow> (0, s)
      | Some ls \<Rightarrow> fold (bench_line env) ls (0, s))"

definition server_start :: "'w server \<Rightarrow> 'w server" where
  "server_start s = s\<lparr>server_running := True\<rparr>"

text \<open>\<open>get_registry\<close> takes 5 seconds for a timeout of zero.\<close>

definition registry_timeout :: "pyfloat \<Rightarrow> pyfloat" where
  "registry_timeout t = (case t of FFin _ m _ \<Rightarrow> if m = 0 then f_of_int 5 else t | _ \<Rightarrow> t)"

text \<open>\<open>run_server\<close> up to \<open>serve_forever\<close>, in the process that \<open>main\<close> prepared: the registry has its driver
  timeout and the journal its size.  An empty path of the configuration file counts as none.\<close>

definition run_server :: "'w env \<Rightarrow> string \<Rightarrow> int \<Rightarrow> int \<Rightarrow> string option \<Rightarrow> pyfloat \<Rightarrow> nat \<Rightarrow> 'w \<Rightarrow> 'w server" where
  "run_server env h p maxc bench_file timeout jlen w =
     (let s = new_server h p maxc timeout jlen (wall_time env w) w
      in server_start (case given bench_file of None \<Rightarrow> s | Some path \<Rightarrow> snd (load_bench_config env path s)))"

text \<open>The command line of \<open>testcore/__main__.py\<close>, its defaults, and \<open>main\<close>.\<close>

record main_args =
  arg_bind :: string
  arg_port :: int
  arg_driver_timeout :: pyfloat
  arg_max_clients :: int
  arg_journal_size :: nat
  arg_bench :: "string option"

definition default_args :: main_args where
  "default_args =
     \<lparr> arg_bind = ''127.0.0.1'', arg_port = 6399, arg_driver_timeout = f_of_int 5, arg_max_clients = 64,
       arg_journal_size = 1000, arg_bench = None \<rparr>"

definition main :: "'w env \<Rightarrow> main_args \<Rightarrow> 'w \<Rightarrow> 'w server" where
  "main env args w =
     run_server env (arg_bind args) (arg_port args) (arg_max_clients args) (arg_bench args)
       (registry_timeout (arg_driver_timeout args)) (arg_journal_size args) w"

definition shutdown_instrument :: "'w env \<Rightarrow> string \<Rightarrow> 'w server \<Rightarrow> 'w server" where
  "shutdown_instrument env name s =
     (case dict_get (instruments s) name of
        None \<Rightarrow> s
      | Some inst \<Rightarrow>
          snd (quietly (call_out (d_disconnect env (driver inst)))
            (snd (quietly (call_out (d_safe_state env (driver inst))) s))))"

text \<open>\<open>stop\<close>: every client's task is cancelled, which closes it; then guards and health tasks stop and all
  instruments are made safe and disconnected.\<close>

definition server_stop :: "'w env \<Rightarrow> 'w server \<Rightarrow> 'w server" where
  "server_stop env s =
     (if \<not> server_running s then s
      else
        let s1 = s\<lparr>server_running := False\<rparr>;
            s2 = fold (\<lambda>cid s. client_cleanup cid (client_close env cid s)) (dict_keys (clients s1)) s1;
            s3 = health_stop_all (watch_stop_all s2)
        in fold (shutdown_instrument env) (list_instruments s3) s3)"

end
