(* ===== verification/CommandInvariant.thy ===== *)
theory CommandInvariant
  imports Dispatch
begin

text \<open>
  What every command keeps.  An invariant of the server state that is closed under the primitive changes
  the handlers make, each under the condition the handlers establish for it, is kept by every command
  of a session.  The closure conditions are the locale \<open>session_invariant\<close>; that dispatch keeps the
  invariant is proved once, from the handlers' code.
\<close>

subsection \<open>Actions that keep a predicate\<close>

named_theorems keep \<open>actions that keep an invariant\<close>

definition keeps :: "('s \<Rightarrow> bool) \<Rightarrow> ('a, 's) act \<Rightarrow> bool" where
  "keeps P m = (\<forall>s. P s \<longrightarrow> P (snd (m s)))"

lemma keepsI: "(\<And>s. P s \<Longrightarrow> P (snd (m s))) \<Longrightarrow> keeps P m"
  by (simp add: keeps_def)

lemma keepsD: "keeps P m \<Longrightarrow> P s \<Longrightarrow> P (snd (m s))"
  by (simp add: keeps_def)

lemma keeps_result: "keeps P m \<Longrightarrow> P s \<Longrightarrow> m s = (r, s') \<Longrightarrow> P s'"
  by (auto simp: keeps_def)

lemma keeps_basic [keep]:
  "keeps P (ret v)" "keeps P (raise e)" "keeps P (reads g)" "keeps P (fail msg)" "keeps P done_ok"
  "keeps P (wrong_args cmd)" "keeps P (no_session)"
  by (simp_all add: keeps_def act_simps wrong_args_def no_session_def)

lemma keeps_bind [keep]: "keeps P m \<Longrightarrow> (\<And>v. keeps P (f v)) \<Longrightarrow> keeps P (bind_ex m f)"
  by (auto simp: keeps_def act_simps split: prod.splits sum.splits)

lemma keeps_catch [keep]: "keeps P m \<Longrightarrow> (\<And>e. keeps P (h e)) \<Longrightarrow> keeps P (catch m h)"
  by (auto simp: keeps_def act_simps split: prod.splits sum.splits)

lemma keeps_except_when [keep]: "keeps P m \<Longrightarrow> (\<And>e. keeps P (h e)) \<Longrightarrow> keeps P (except_when p m h)"
  by (auto simp: except_when_def intro!: keep)

lemma keeps_quietly [keep]: "keeps P m \<Longrightarrow> keeps P (quietly m)"
  by (auto simp: quietly_def intro!: keep)

lemma keeps_modify [keep]: "(\<And>s. P s \<Longrightarrow> P (f s)) \<Longrightarrow> keeps P (modify f)"
  by (simp add: keeps_def act_simps)

lemma keeps_get_inst [keep]: "keeps P (get_inst name)"
  by (simp add: keeps_def get_inst_def split: option.splits)

lemma keeps_check_ready [keep]: "keeps P (check_ready inst)"
  by (simp add: check_ready_def keep split: instrument_state.splits)

lemma keeps_require_lock [keep]: "keeps P (require_lock inst name sid)"
  by (simp add: require_lock_def keep split: option.splits)

text \<open>From a stronger precondition to the invariant.\<close>

definition leads :: "('s \<Rightarrow> bool) \<Rightarrow> ('a, 's) act \<Rightarrow> ('s \<Rightarrow> bool) \<Rightarrow> bool" where
  "leads Q m P = (\<forall>s. Q s \<longrightarrow> P (snd (m s)))"

lemma leadsI: "(\<And>s. Q s \<Longrightarrow> P (snd (m s))) \<Longrightarrow> leads Q m P"
  by (simp add: leads_def)

lemma leadsD: "leads Q m P \<Longrightarrow> Q s \<Longrightarrow> P (snd (m s))"
  by (simp add: leads_def)

lemma keeps_leads: "keeps P m \<Longrightarrow> leads Q m P" if "\<And>s. Q s \<Longrightarrow> P s"
  using that by (simp add: leads_def keeps_def)

lemma leads_bind: "keeps Q m \<Longrightarrow> (\<And>s. Q s \<Longrightarrow> P s) \<Longrightarrow> (\<And>v. leads Q (f v) P) \<Longrightarrow> leads Q (bind_ex m f) P"
  by (auto simp: keeps_def leads_def act_simps split: prod.splits sum.splits)

lemma leads_modify: "(\<And>s. Q s \<Longrightarrow> P (f s)) \<Longrightarrow> leads Q (modify f) P"
  by (simp add: leads_def act_simps)

lemma keeps_conj: "keeps P m \<Longrightarrow> keeps Q m \<Longrightarrow> keeps (\<lambda>s. P s \<and> Q s) m"
  by (simp add: keeps_def)

text \<open>Calls out of the server leave its own tables alone.\<close>

lemma call_out_tables:
  "keeps (\<lambda>s. R (instruments s)) (call_out func)" "keeps (\<lambda>s. R (instruments s)) (import_with f name)"
  "keeps (\<lambda>s. V (watches s) (health_tasks s)) (call_out g)"
  by (auto simp: keeps_def call_out_def import_with_def split: prod.splits)

lemma get_inst_Inr: "get_inst name s = (Inr i, s') \<longleftrightarrow> s' = s \<and> dict_get (instruments s) name = Some i"
  by (auto simp: get_inst_def split: option.splits)

lemma upd_inst_some: "dict_get (instruments s) n = Some i \<Longrightarrow>
    upd_inst n f s = s\<lparr>instruments := dict_set (instruments s) n (f i)\<rparr>"
  by (simp add: upd_inst_def)

subsection \<open>Instruments\<close>

text \<open>What holds of every registered instrument: an idle one has no owner, and no resources are listed
  before it is initialised.\<close>

definition instrument_ok :: "string \<Rightarrow> instrument \<Rightarrow> bool" where
  "instrument_ok name i =
     (iname i = name
      \<and> (istate i = IDLE \<longrightarrow> lock_owner i = None \<and> resources i = [])
      \<and> (istate i = LOCKED \<longrightarrow> resources i = [])
      \<and> length (response_times i) \<le> RESPONSE_TIMES_MAX)"

definition instruments_ok :: "('w, 'z) registry_scheme \<Rightarrow> bool" where
  "instruments_ok s =
     (dict_ok (instruments s) \<and> (\<forall>name i. dict_get (instruments s) name = Some i \<longrightarrow> instrument_ok name i))"

text \<open>Changes that leave the owner alone.\<close>

definition benign :: "(instrument \<Rightarrow> instrument) \<Rightarrow> bool" where
  "benign f = (\<forall>name i. instrument_ok name i \<longrightarrow> instrument_ok name (f i) \<and> lock_owner (f i) = lock_owner i)"

lemma benign_call [simp]:
  "benign (\<lambda>i. i\<lparr>last_call_ok := t\<rparr>)"
  "benign (\<lambda>i. i\<lparr>istate := UNRESPONSIVE, total_errors := Suc (total_errors i)\<rparr>)"
  "benign (\<lambda>i. i\<lparr>istate := FAULT, total_errors := Suc (total_errors i)\<rparr>)"
  "benign (\<lambda>i. i\<lparr>total_errors := Suc (total_errors i)\<rparr>)"
  "benign (\<lambda>i. i\<lparr>total_calls := Suc (total_calls i)\<rparr>)"
  "benign (\<lambda>i. add_response_time t (i\<lparr>total_calls := Suc (total_calls i)\<rparr>))"
  by (auto simp: benign_def instrument_ok_def add_response_time_def deque_append_def)

lemma benign_state [simp]:
  "benign (\<lambda>i. i\<lparr>resources := res, istate := READY\<rparr>)"
  "benign (\<lambda>i. i\<lparr>istate := LOCKED, resources := []\<rparr>)"
  "benign (\<lambda>i. i\<lparr>connect_cfg := cfg\<rparr>)"
  "benign (\<lambda>i. i\<lparr>istate := FAULT\<rparr>)"
  "benign (\<lambda>i. i\<lparr>istate := UNRESPONSIVE\<rparr>)"
  "benign (\<lambda>i. i\<lparr>health_interval := h\<rparr>)"
  "benign (\<lambda>i. i\<lparr>health_failures := Suc (health_failures i)\<rparr>)"
  "benign (\<lambda>i. i\<lparr>last_call_ok := t, health_failures := 0\<rparr>)"
  by (auto simp: benign_def instrument_ok_def)

text \<open>Changes of a client's record that keep its session.\<close>

definition same_session :: "(client \<Rightarrow> client) \<Rightarrow> bool" where
  "same_session f = (\<forall>c. running (f c) = running c)"

lemma same_session_simps [simp]:
  "same_session (\<lambda>c. c\<lparr>client_name := n\<rparr>)" "same_session (\<lambda>c. c\<lparr>pending_monitor := b\<rparr>)"
  "same_session (\<lambda>c. c\<lparr>subscribing := b\<rparr>)" "same_session (\<lambda>c. c\<lparr>monitoring := b\<rparr>)"
  "same_session (\<lambda>c. c\<lparr>pending_monitor := b, monitoring := d\<rparr>)"
  "same_session (\<lambda>c. c\<lparr>cmd_count := Suc (cmd_count c)\<rparr>)" "same_session (\<lambda>c. c\<lparr>parser := p\<rparr>)"
  by (simp_all add: same_session_def)

definition unlocked :: "instrument_state \<Rightarrow> instrument \<Rightarrow> instrument" where
  "unlocked st i = i\<lparr>istate := st, lock_owner := None, resources := []\<rparr>"

definition taken :: "int \<Rightarrow> instrument \<Rightarrow> instrument" where
  "taken sid i = i\<lparr>istate := LOCKED, lock_owner := Some sid\<rparr>"

text \<open>A command removes an instrument only if that is allowed.\<close>

definition removes_allowed :: "(string \<Rightarrow> bool) \<Rightarrow> string list \<Rightarrow> bool" where
  "removes_allowed may_remove command =
     (case command of
        [] \<Rightarrow> True
      | cmd # rest \<Rightarrow>
          (case resolve_command cmd rest of
             (name, n # _) \<Rightarrow> name = ''IREMOVE'' \<longrightarrow> may_remove n
           | _ \<Rightarrow> True))"

subsection \<open>The interface\<close>

text \<open>\<open>P\<close> is the invariant, \<open>cid\<close> the session, and \<open>may_remove\<close> selects the instruments it may remove.\<close>

locale session_invariant =
  fixes P :: "'w server \<Rightarrow> bool"
    and cid :: int
    and may_remove :: "string \<Rightarrow> bool"
  assumes instruments: "P s \<Longrightarrow> instruments_ok s"
    and world: "P s \<Longrightarrow> P (s\<lparr>world := w\<rparr>)"
    and spawned: "P s \<Longrightarrow> P (s\<lparr>spawned := q0\<rparr>)"
    and modules: "P s \<Longrightarrow> P (s\<lparr>driver_modules := d\<rparr>)"
    and publish: "P s \<Longrightarrow> P (publish_on env channel payload key s)"
    and update: "P s \<Longrightarrow> benign f \<Longrightarrow> P (upd_inst name f s)"
    and unlock: "P s \<Longrightarrow> dict_get (instruments s) name = Some i \<Longrightarrow> lock_owner i = Some cid
                   \<Longrightarrow> \<not> dict_mem (watches s) name \<Longrightarrow> st = IDLE \<or> st = FAULT
                   \<Longrightarrow> P (upd_inst name (unlocked st) s)"
    and lock: "P s \<Longrightarrow> dict_get (instruments s) name = Some i \<Longrightarrow> istate i = IDLE
                 \<Longrightarrow> P (upd_inst name (taken cid) s)"
    and add: "P s \<Longrightarrow> \<not> dict_mem (instruments s) name \<Longrightarrow> instrument_ok name i \<Longrightarrow> lock_owner i = None
                \<Longrightarrow> P (s\<lparr>instruments := dict_set (instruments s) name i\<rparr>)"
    and remove: "P s \<Longrightarrow> may_remove name \<Longrightarrow> \<not> dict_mem (watches s) name \<Longrightarrow> \<not> dict_mem (health_tasks s) name
                   \<Longrightarrow> P (s\<lparr>instruments := dict_del (instruments s) name\<rparr>)"
    and keys: "P s \<Longrightarrow> P (s\<lparr>kv := kv_step a cid (kv s)\<rparr>)"
    and measure: "P s \<Longrightarrow> P (s\<lparr>kv := write_meas (kv s) inst res val status t\<rparr>)"
    and stale: "P s \<Longrightarrow> P (s\<lparr>kv := snd (invalidate_meas (kv s) inst t)\<rparr>)"
    and watch_off: "P s \<Longrightarrow> P (watch_stop_instrument name s)"
    and watch_off_one: "P s \<Longrightarrow> P (snd (watch_stop name res s))"
    and watch_on: "P s \<Longrightarrow> dict_get (instruments s) name = Some i \<Longrightarrow> lock_owner i = Some cid
                     \<Longrightarrow> P (watch_start name res ms lo hi s)"
    and watch_dead: "P s \<Longrightarrow> dict_mem (watches s) name
                     \<Longrightarrow> P (s\<lparr>watches := dict_set (watches s) name (dict_set (inst_watches s name) res e)\<rparr>)"
    and health_off: "P s \<Longrightarrow> P (health_stop name s)"
    and health_on: "P s \<Longrightarrow> dict_mem (instruments s) name \<Longrightarrow> P (health_start name h s)"
    and journalled: "P s \<Longrightarrow> P (s\<lparr>jrnl := journal_record (jrnl s) t sid nm command status\<rparr>)"
    and journal_cleared: "P s \<Longrightarrow> P (s\<lparr>jrnl := snd (journal_clear (jrnl s))\<rparr>)"
    and client: "P s \<Longrightarrow> same_session g \<Longrightarrow> P (upd_client cid g s)"
    and subscribed: "P s \<Longrightarrow> P (s\<lparr>bus := snd (subscribe (bus s) cid channel)\<rparr>)"
    and unsubscribed: "P s \<Longrightarrow> P (s\<lparr>bus := snd (unsubscribe (bus s) cid channel)\<rparr>)"
    and monitors_fewer: "P s \<Longrightarrow> P (s\<lparr>monitors := filter q (monitors s), sent := l\<rparr>)"
begin

lemma spawn_keeps: "P s \<Longrightarrow> P (spawn t name reason s)"
  by (simp add: spawn_def spawned)

lemma call_out_keeps [keep]: "keeps P (call_out func)"
  by (auto simp: keeps_def call_out_def world split: prod.splits)

lemma import_keeps [keep]: "keeps P (import_with func name)"
  by (auto simp: keeps_def import_with_def world split: prod.splits)

lemma call_driver_keeps [keep]: "keeps P (call_driver env name t func)"
  by (auto simp: keeps_def call_driver_def Let_def split: prod.splits outcome.splits
      intro!: world update spawn_keeps)

lemma tracked_call_keeps [keep]: "keeps P (tracked_call env name t func)"
proof (rule keepsI)
  fix s assume P: "P s"
  obtain r s1 where r: "call_driver env name t func s = (r, s1)" by fastforce
  have "P s1" by (rule keeps_result[OF call_driver_keeps P r])
  then show "P (snd (tracked_call env name t func s))"
    by (cases r) (auto simp: tracked_call_def r split: exn.splits intro!: update spawn_keeps)
qed

lemma upd_keeps [keep]: "benign f \<Longrightarrow> keeps P (modify (upd_inst name f))"
  by (auto simp: keeps_def act_simps update)

lemma publish_keeps [intro]:
  "P s \<Longrightarrow> P (publish_instrument env t name kw s)" "P s \<Longrightarrow> P (publish_lock env t name sid kw s)"
  "P s \<Longrightarrow> P (publish_session env t sid kw s)" "P s \<Longrightarrow> P (publish_kv env key val osid s)"
  "P s \<Longrightarrow> P (publish_meas env inst res v ts status s)"
  by (simp_all add: publish_instrument_def publish_lock_def publish_session_def publish_kv_def
      publish_meas_def publish)

lemma file_meas_keeps [intro]: "P s \<Longrightarrow> P (file_meas env inst res v status s)"
  by (simp add: file_meas_def measure)

lemma load_keeps [keep]: "keeps P (load_driver_module env name)"
proof (rule keepsI)
  fix s assume P: "P s"
  have "keeps P (bind_ex (if is_file_path name then load_from_file env name else resolve_driver env name) (\<lambda>c.
          bind_ex (modify (\<lambda>s. s\<lparr>driver_modules := dict_set (driver_modules s) name c\<rparr>)) (\<lambda>_. ret c)))"
    by (auto simp: load_from_file_def resolve_driver_def intro!: keep modules split: imported.splits list.splits exn.splits)
  with P show "P (snd (load_driver_module env name s))"
    by (auto simp: load_driver_module_def keeps_def split: option.splits)
qed

lemma make_transport_keeps [keep]: "keeps P (make_transport env a opts)"
  by (auto simp: make_transport_def intro!: keep split: sum.splits)

lemma load_tables:
  fixes env :: "'w env"
  shows "keeps (\<lambda>s :: 'w server. R (instruments s)) (load_driver_module env name)"
proof (rule keepsI)
  fix s :: "'w server" assume R: "R (instruments s)"
  have "keeps (\<lambda>s. R (instruments s)) (bind_ex (if is_file_path name then load_from_file env name else resolve_driver env name) (\<lambda>c.
          bind_ex (modify (\<lambda>s. s\<lparr>driver_modules := dict_set (driver_modules s) name c\<rparr>)) (\<lambda>_. ret c)) :: (nat, 'w server) act)"
    by (auto simp: load_from_file_def resolve_driver_def intro!: keep call_out_tables
        split: imported.splits list.splits exn.splits)
  with R show "R (instruments (snd (load_driver_module env name s)))"
    by (auto simp: load_driver_module_def keeps_def split: option.splits)
qed

lemma registry_add_keeps [keep]: "keeps P (registry_add env name driver_name addr opts)"
proof (rule keepsI)
  fix s assume P: "P s"
  show "P (snd (registry_add env name driver_name addr opts s))"
  proof (cases "dict_mem (instruments s) name")
    case True
    with P show ?thesis by (simp add: registry_add_def)
  next
    case False
    define Q where "Q s = (P s \<and> \<not> dict_mem (instruments s) name)" for s
    have call: "keeps Q (call_out func)" for func :: "'w \<Rightarrow> 'b outcome \<times> 'w"
      unfolding Q_def by (intro keeps_conj keep call_out_tables)
    have load: "keeps Q (load_driver_module env driver_name)"
      unfolding Q_def by (intro keeps_conj keep load_tables)
    have transport: "keeps Q (make_transport env a opts)" for a
      by (auto simp: make_transport_def intro!: keep call split: sum.splits)
    have "leads Q (bind_ex (load_driver_module env driver_name) (\<lambda>c.
        bind_ex (call_out (new_driver env c)) (\<lambda>drv.
        bind_ex (case given addr of
                   None \<Rightarrow> ret \<lparr> cfg_address = None, cfg_transport = None \<rparr>
                 | Some a \<Rightarrow> bind_ex (make_transport env a opts)
                               (\<lambda>t. ret \<lparr> cfg_address = Some a, cfg_transport = Some t \<rparr>)) (\<lambda>cfg.
        bind_ex (call_out (d_connect env drv cfg)) (\<lambda>_ s.
          let inst = new_instrument env name drv driver_name cfg opts (world s)
          in (Inr inst, s\<lparr>instruments := dict_set (instruments s) name inst\<rparr>)))))) P"
      by (intro leads_bind load call)
        (auto simp: Q_def Let_def leads_def new_instrument_def instrument_ok_def
          split: option.splits intro!: add leads_bind transport keep call)
    with P False show ?thesis by (simp add: registry_add_def leads_def Q_def)
  qed
qed

lemma registry_remove_keeps:
  "P s \<Longrightarrow> may_remove name \<Longrightarrow> \<not> dict_mem (watches s) name \<Longrightarrow> \<not> dict_mem (health_tasks s) name
   \<Longrightarrow> P (snd (registry_remove env name s))"
proof -
  assume s: "P s" "may_remove name" "\<not> dict_mem (watches s) name" "\<not> dict_mem (health_tasks s) name"
  define Q where "Q s = (P s \<and> \<not> dict_mem (watches s) name \<and> \<not> dict_mem (health_tasks s) name)" for s
  have call: "keeps Q (call_out func)" for func :: "'w \<Rightarrow> 'b outcome \<times> 'w"
    unfolding Q_def by (intro keeps_conj keep call_out_tables)
  have "leads Q (registry_remove env name) P"
    unfolding registry_remove_def
    by (intro leads_bind leads_modify keep call) (use s(2) in \<open>auto simp: Q_def intro!: remove\<close>)
  with s show ?thesis by (simp add: leads_def Q_def)
qed

text \<open>An action that first reads the state.\<close>

lemma keepsI_read: "P s \<Longrightarrow> keeps P m \<Longrightarrow> P (snd (m s))"
  by (rule keepsD)

lemma registry_init_keeps [keep]: "keeps P (registry_init env name path selftest)"
  by (rule keepsI, unfold registry_init_def, erule keepsI_read) (auto intro!: keep split: option.splits)

lemma registry_align_keeps [keep]: "keeps P (registry_align env name)"
  by (rule keepsI, unfold registry_align_def, erule keepsI_read) (auto intro!: keep)

lemma registry_reset_keeps [keep]: "keeps P (registry_reset env name)"
  by (auto simp: registry_reset_def Let_def intro!: keep split: option.splits)

lemma ready_call_keeps [keep]: "keeps P (ready_call env name t func)"
  by (auto simp: ready_call_def intro!: keep)

lemma registry_calls_keep [keep]:
  "keeps P (registry_read env name res)" "keeps P (registry_write env name res val)"
  "keeps P (registry_passthrough env name command)" "keeps P (registry_save env name target path)"
  "keeps P (registry_load env name target path)" "keeps P (registry_wait env name)"
  by (auto simp: keeps_def registry_read_def registry_write_def registry_passthrough_def registry_save_def
      registry_load_def registry_wait_def intro: keepsI_read ready_call_keeps)

lemma registry_ping_keeps [keep]: "keeps P (registry_ping env name)"
  by (rule keepsI, unfold registry_ping_def, erule keepsI_read) (auto intro!: keep)

lemma owner_call_keeps [keep]: "keeps P m \<Longrightarrow> keeps P (owner_call name sid m)"
  by (auto simp: owner_call_def intro!: keep)

subsection \<open>Commands on keys and measurements\<close>

lemma kv_result_keeps:
  "P s \<Longrightarrow> kv_set (kv s) key val nx xx ro (Some cid) = Inr (b, st) \<Longrightarrow> P (s\<lparr>kv := st\<rparr>)"
  "P s \<Longrightarrow> kv_mset (kv s) ps (Some cid) = Inr st \<Longrightarrow> P (s\<lparr>kv := st\<rparr>)"
  "P s \<Longrightarrow> kv_delete (kv s) ks (Some cid) = Inr (n, st) \<Longrightarrow> P (s\<lparr>kv := st\<rparr>)"
  "P s \<Longrightarrow> P (s\<lparr>kv := kv_flushdb (kv s) (Some cid)\<rparr>)"
  using keys[of s "OpSet key val nx xx ro"] keys[of s "OpMset ps"] keys[of s "OpDelete ks"] keys[of s OpFlush]
  by simp_all

abbreviation ctx :: cmd_context where
  "ctx \<equiv> client_context cid"

lemma ctx_simps [simp]: "ctx_session ctx = Some cid" "ctx_client ctx = Some cid"
  by (simp_all add: client_context_def)

lemma store_handlers_keep [keep]:
  "keeps P (handle_set env args ctx)" "keeps P (handle_get args ctx)" "keeps P (handle_kmget args ctx)"
  "keeps P (handle_mset args ctx)" "keeps P (handle_del args ctx)" "keeps P (handle_exists args ctx)"
  "keeps P (handle_keys args ctx)" "keeps P (handle_dbsize args ctx)" "keeps P (handle_flushdb args ctx)"
  "keeps P (handle_getall args ctx)" "keeps P (handle_meas_get args ctx)"
  "keeps P (handle_meas_getall args ctx)" "keeps P (handle_meas_keys args ctx)"
  by (auto simp: keeps_def handle_set_def handle_get_def handle_kmget_def handle_mset_def handle_del_def
      handle_exists_def handle_keys_def handle_dbsize_def handle_flushdb_def handle_getall_def
      handle_meas_get_def handle_meas_getall_def handle_meas_keys_def wrong_args_def act_simps Let_def
      split: list.splits prod.splits sum.splits bool.splits
      dest: kv_result_keeps intro: kv_result_keeps)

subsection \<open>Commands on instruments\<close>

lemma registry_add_Inr:
  "registry_add env name driver_name addr opts s = (Inr i, s') \<Longrightarrow> dict_mem (instruments s') name"
  by (auto simp: registry_add_def act_simps Let_def dict_simps split: if_splits prod.splits sum.splits)

lemma add_instrument_keeps [keep]: "keeps P (add_instrument env name driver_name addr opts health)"
proof -
  have "keeps P (bind_ex (registry_add env name driver_name addr opts) (\<lambda>_.
        bind_ex (modify (case health of
                   None \<Rightarrow> id
                 | Some h \<Rightarrow> health_start name (Some h) \<circ> upd_inst name (\<lambda>i. i\<lparr>health_interval := Some h\<rparr>))) (\<lambda>_.
        bind_ex (modify (publish_instrument env ''ADD'' name [(''driver'', JStr driver_name)])) (\<lambda>_.
          done_ok))))"
  proof (rule keepsI)
    fix s assume P: "P s"
    obtain r s1 where r: "registry_add env name driver_name addr opts s = (r, s1)" by fastforce
    have P1: "P s1" by (rule keeps_result[OF registry_add_keeps P r])
    have mem: "dict_mem (instruments s1) name" if "r = Inr i" for i using registry_add_Inr r that by blast
    have "P (health_start name (Some h) (upd_inst name (\<lambda>i. i\<lparr>health_interval := Some h\<rparr>) s1))"
      if "r = Inr i" for i h
    proof (rule health_on)
      show "P (upd_inst name (\<lambda>i. i\<lparr>health_interval := Some h\<rparr>) s1)" using P1 by (rule update) simp
      show "dict_mem (instruments (upd_inst name (\<lambda>i. i\<lparr>health_interval := Some h\<rparr>) s1)) name"
        using mem[OF that] by (simp add: upd_inst_def dict_simps split: option.splits)
    qed
    with P1 show "P (snd (bind_ex (registry_add env name driver_name addr opts) (\<lambda>_.
        bind_ex (modify (case health of
                   None \<Rightarrow> id
                 | Some h \<Rightarrow> health_start name (Some h) \<circ> upd_inst name (\<lambda>i. i\<lparr>health_interval := Some h\<rparr>))) (\<lambda>_.
        bind_ex (modify (publish_instrument env ''ADD'' name [(''driver'', JStr driver_name)])) (\<lambda>_.
          done_ok))) s))"
      by (cases r) (auto simp: act_simps r split: option.splits)
  qed
  then show ?thesis by (auto simp: add_instrument_def intro!: keep)
qed

lemma handle_add_keeps [keep]: "keeps P (handle_instrument_add env args c)"
  by (auto simp: handle_instrument_add_def intro!: keep split: list.splits option.splits prod.splits)

lemma handle_remove_keeps:
  assumes "\<And>name rest. args = name # rest \<Longrightarrow> may_remove name"
  shows "keeps P (handle_instrument_remove env args ctx)"
proof (rule keepsI)
  fix s assume P: "P s"
  show "P (snd (handle_instrument_remove env args ctx s))"
  proof (cases args)
    case Nil
    then show ?thesis using P by (simp add: handle_instrument_remove_def wrong_args_def act_simps)
  next
    case (Cons name rest)
    define s1 where "s1 = health_stop name (watch_stop_instrument name s)"
    have P1: "P s1" using P by (simp add: s1_def health_off watch_off)
    have off: "\<not> dict_mem (watches s1) name" "\<not> dict_mem (health_tasks s1) name"
      by (simp_all add: s1_def health_stop_def watch_stop_instrument_def dict_simps)
    obtain r s2 where r: "registry_remove env name s1 = (r, s2)" by fastforce
    have "P s2" using registry_remove_keeps[OF P1 assms off, OF Cons, of env] by (simp add: r)
    then show ?thesis
      by (cases r) (auto simp: handle_instrument_remove_def Cons act_simps except_when_def r s1_def[symmetric])
  qed
qed

lemma life_cycle_handlers_keep [keep]:
  "keeps P (handle_instrument_init env args ctx)" "keeps P (handle_instrument_info env args ctx)"
  "keeps P (handle_instrument_list args ctx)" "keeps P (handle_instrument_resources env args ctx)"
  "keeps P (handle_instrument_ping env args ctx)" "keeps P (handle_instrument_wait env args ctx)"
  "keeps P (handle_instrument_reset env args ctx)" "keeps P (handle_driver_list args ctx)"
  by (auto simp: handle_instrument_init_def handle_instrument_info_def handle_instrument_list_def
      handle_instrument_resources_def handle_instrument_ping_def handle_instrument_wait_def
      handle_instrument_reset_def handle_driver_list_def intro!: keep split: list.splits prod.splits)

lemma align_all_keeps [keep]: "keeps P (align_all env names)"
  by (induction names) (auto intro!: keep)

lemma handle_align_keeps [keep]: "keeps P (handle_align env args ctx)"
  by (auto simp: handle_align_def intro!: keep)

lemma owner_call_owned:
  "(\<And>i. P s \<Longrightarrow> dict_get (instruments s) name = Some i \<Longrightarrow> lock_owner i = sid \<Longrightarrow> P (snd (m s)))
   \<Longrightarrow> P s \<Longrightarrow> P (snd (owner_call name sid m s))"
  by (auto simp: owner_call_def act_simps get_inst_def require_lock_def split: option.splits)

lemma handle_watch_keeps [keep]: "keeps P (handle_watch env args ctx)"
proof -
  have "keeps P (owner_call name (Some cid)
          (bind_ex (get_inst name) (\<lambda>inst.
             if istate inst \<noteq> READY then fail ''NOTINIT instrument not READY''
             else if res \<notin> set (resources inst) then fail (''NORESOURCE unknown resource: '' @ res)
             else bind_ex (modify (watch_start name res interval lo hi)) (\<lambda>_. done_ok))))"
    for name res interval lo hi
    by (rule keepsI, erule owner_call_owned[rotated]) (auto simp: act_simps get_inst_def intro: watch_on)
  then show ?thesis
    by (auto simp: handle_watch_def intro!: keeps_basic keeps_except_when split: list.splits option.splits sum.splits)
qed

lemma stop_and_stale_keeps: "P s \<Longrightarrow> P (stop_and_stale env name s)"
  by (simp add: stop_and_stale_def Let_def stale watch_off)

lemma unwatch_owned_keeps: "P s \<Longrightarrow> P (unwatch_owned env sid name s)"
  by (simp add: unwatch_owned_def stop_and_stale_keeps split: option.splits)

lemma unwatch_one_keeps: "keeps P (unwatch_one env name res)"
proof (rule keepsI)
  fix s assume P: "P s"
  obtain b s1 where b: "watch_stop name res s = (b, s1)" by fastforce
  have "P s1" using watch_off_one[OF P, of name res] by (simp add: b)
  then show "P (snd (unwatch_one env name res s))"
    by (cases b) (auto simp: unwatch_one_def b split: option.splits)
qed

lemma handle_unwatch_keeps [keep]: "keeps P (handle_unwatch env args ctx)"
  by (rule keepsI)
    (auto simp: handle_unwatch_def wrong_args_def act_simps split: list.splits
      intro: fold_invariant_on[where P = P] unwatch_owned_keeps stop_and_stale_keeps keepsD[OF unwatch_one_keeps])

lemma bench_lines_keeps: "keeps P (bench_lines names)"
  by (induction names) (auto intro!: keep simp: keeps_def[of P "\<lambda>s. (_, s)"])

lemma query_handlers_keep [keep]:
  "keeps P (handle_watches args ctx)" "keeps P (handle_locks args ctx)"
  by (auto simp: handle_watches_def handle_locks_def intro!: keep)

lemma handle_bench_keeps [keep]: "keeps P (handle_bench args ctx)"
  by (rule keepsI, unfold handle_bench_def, erule keepsI_read) (auto intro!: keep bench_lines_keeps)

text \<open>Locks: once every instrument passed the first loop, the second takes them one by one.\<close>

lemma lock_refusal_None:
  "lock_refusal names sid s = None \<longleftrightarrow>
     (\<forall>n \<in> set names. \<exists>i. dict_get (instruments s) n = Some i \<and> (istate i = IDLE \<or> lock_owner i = Some sid))"
  by (induction names) (auto simp: get_inst_def split: option.splits)

lemma take_locks_keep:
  assumes "P s" "lock_refusal names cid s = None" "set ns \<subseteq> set names"
  shows "P (fold (take_lock cid) ns s)"
proof -
  define J where "J s = (P s \<and> lock_refusal names cid s = None)" for s
  have step: "J (take_lock cid n t)" if n: "n \<in> set ns" and J: "J t" for n t
  proof -
    from J assms(3) n obtain i where i: "dict_get (instruments t) n = Some i" "istate i = IDLE \<or> lock_owner i = Some cid"
      by (auto simp: J_def lock_refusal_None)
    show ?thesis
    proof (cases "lock_owner i = Some cid")
      case True
      then have "take_lock cid n t = t" using i(1) by (simp add: take_lock_def upd_inst_some dict_set_same)
      with J show ?thesis by simp
    next
      case False
      then have e: "take_lock cid n t = upd_inst n (taken cid) t"
        using i(1) by (simp add: take_lock_def upd_inst_some taken_def)
      have "P (upd_inst n (taken cid) t)" by (rule lock[OF _ i(1)]) (use J i(2) False in \<open>auto simp: J_def\<close>)
      moreover have "lock_refusal names cid (upd_inst n (taken cid) t) = None"
        using J i(1) by (auto simp: J_def lock_refusal_None upd_inst_some dict_simps taken_def)
      ultimately show ?thesis by (simp add: e J_def)
    qed
  qed
  have "J (fold (take_lock cid) ns s)"
    by (rule fold_invariant_on[where P = J]) (use assms step in \<open>auto simp: J_def\<close>)
  then show ?thesis by (simp add: J_def)
qed

lemma handle_lock_keeps [keep]: "keeps P (handle_lock env args ctx)"
  by (rule keepsI)
    (auto simp: handle_lock_def wrong_args_def act_simps split: option.splits
      intro: fold_invariant_on[where P = P] take_locks_keep)

lemma stale_events_keep: "P s \<Longrightarrow> P (stale_with_events env name s)"
proof -
  assume P: "P s"
  obtain l st where i: "invalidate_meas (kv s) name (now env s) = (l, st)" by fastforce
  then have "P (s\<lparr>kv := st\<rparr>)" using stale[OF P, of name "now env s"] by simp
  then have "P (publish_stale env l (s\<lparr>kv := st\<rparr>))"
    unfolding publish_stale_def by (rule fold_invariant_on) auto
  then show ?thesis by (simp add: stale_with_events_def i)
qed

text \<open>Unlocking comes after the guards were stopped.\<close>

lemma registry_unlock_keeps:
  "P s \<Longrightarrow> \<not> dict_mem (watches s) name \<Longrightarrow> P (snd (registry_unlock env name cid s))"
proof -
  assume P: "P s" and w: "\<not> dict_mem (watches s) name"
  show ?thesis
  proof (cases "dict_get (instruments s) name")
    case None
    then show ?thesis using P by (simp add: registry_unlock_def act_simps get_inst_def)
  next
    case (Some i)
    define f where "f st = (\<lambda>i :: instrument. i\<lparr>istate := st, lock_owner := None, resources := []\<rparr>)" for st
    have f: "f = unlocked" by (simp add: f_def unlocked_def fun_eq_iff)
    have "P (upd_inst name (f st) (snd (call_out (d_safe_state env (driver i)) s)))"
      if "lock_owner i = Some cid" "st = IDLE \<or> st = FAULT" for st
      unfolding f using that w Some P
      by (intro unlock[of _ name i]) (auto simp: call_out_def world split: prod.splits)
    then show ?thesis
      using P Some unfolding f_def
      by (auto simp: registry_unlock_def act_simps get_inst_def split: option.splits prod.splits sum.splits)
  qed
qed

lemma unlock_with_events_keeps:
  "keeps P (bind_ex (modify (watch_stop_instrument name)) (\<lambda>_.
     bind_ex (registry_unlock env name cid) (\<lambda>_.
     bind_ex (modify (stale_with_events env name)) (\<lambda>_. modify (publish_lock env ''released'' name cid kw)))))"
proof (rule keepsI)
  fix s assume "P s"
  then have P: "P (watch_stop_instrument name s)" by (rule watch_off)
  have "\<not> dict_mem (watches (watch_stop_instrument name s)) name"
    by (simp add: watch_stop_instrument_def dict_simps)
  from registry_unlock_keeps[OF P this, of env]
  show "P (snd (bind_ex (modify (watch_stop_instrument name)) (\<lambda>_.
     bind_ex (registry_unlock env name cid) (\<lambda>_.
     bind_ex (modify (stale_with_events env name)) (\<lambda>_. modify (publish_lock env ''released'' name cid kw)))) s))"
    by (auto simp: act_simps stale_events_keep split: prod.splits sum.splits)
qed

lemma unlock_with_meas_keeps [keep]: "keeps P (unlock_with_meas env name cid)"
  unfolding unlock_with_meas_def by (rule unlock_with_events_keeps)

lemma unlock_all_of_keeps [keep]: "keeps P (unlock_all_of env names cid)"
  by (induction names) (auto intro!: keep)

lemma unlock_owned_keeps: "P s \<Longrightarrow> P (unlock_owned env cid name s)"
  using keepsD[OF keeps_quietly[OF unlock_with_meas_keeps]]
  by (auto simp: unlock_owned_def split: option.splits)

lemma handle_unlock_keeps [keep]: "keeps P (handle_unlock env args ctx)"
proof -
  have loop: "keeps P (except_when p (bind_ex (unlock_all_of env names cid) (\<lambda>_. done_ok)) (\<lambda>e. ret (state_error e)))"
    for p names by (auto intro!: keep)
  show ?thesis
    by (rule keepsI)
      (auto simp: handle_unlock_def wrong_args_def fail_simp split: list.splits
        intro: fold_invariant_on[where P = P] unlock_owned_keeps keepsD[OF loop])
qed

text \<open>Resources.\<close>

lemma write_meas_flag_keeps: "P s \<Longrightarrow> P (write_meas_flag env name res v e s)"
  by (auto simp: write_meas_flag_def Let_def split: option.splits)

lemma read_resource_keeps [keep]: "keeps P (read_resource env name res flag sid)"
  by (auto simp: read_resource_def intro!: keep write_meas_flag_keeps)

lemma write_resource_keeps [keep]: "keeps P (write_resource env name res val sid)"
  by (auto simp: write_resource_def intro!: keep)

lemma file_call_keeps: "(\<And>name target path. keeps P (op env name target path)) \<Longrightarrow> keeps P (file_call cmd op env args ctx)"
  by (auto simp: file_call_def intro!: keep split: list.splits)

lemma resource_handlers_keep [keep]:
  "keeps P (handle_read env args ctx)" "keeps P (handle_write env args ctx)" "keeps P (handle_raw env args ctx)"
  "keeps P (handle_save env args ctx)" "keeps P (handle_load env args ctx)"
  by (auto simp: handle_read_def handle_write_def handle_raw_def handle_save_def handle_load_def Let_def
      intro!: keep file_call_keeps split: list.splits sum.splits)

lemma mread_calls_keeps: "P s \<Longrightarrow> P (snd (mread_calls env cs s))"
proof (induction env cs s rule: mread_calls.induct)
  case (3 env name res drv cs s)
  then show ?case by (auto split: prod.splits dest: keeps_result[OF tracked_call_keeps])
qed (auto split: prod.splits)

lemma handle_readmulti_keeps [keep]: "keeps P (handle_readmulti env args ctx)"
  by (rule keepsI)
    (auto simp: handle_readmulti_def wrong_args_def fail_simp split: sum.splits prod.splits
      dest: mread_calls_keeps[of _ env] intro: mread_calls_keeps, metis mread_calls_keeps snd_conv)

subsection \<open>Commands on the server\<close>

lemma the_client_cid: "the_client ctx s = Some (k, c) \<Longrightarrow> k = cid"
  by (auto simp: the_client_def)

lemma journal_clear_keeps: "P s \<Longrightarrow> journal_clear (jrnl s) = (n, j) \<Longrightarrow> P (s\<lparr>jrnl := j\<rparr>)"
  using journal_cleared[of s] by simp

lemma subscribe_all_keeps: "P s \<Longrightarrow> P (snd (subscribe_all cid channels response s))"
  by (induction channels arbitrary: response s) (auto simp: Let_def subscribed)

lemma unsubscribe_loop_keeps: "P s \<Longrightarrow> P (snd (unsubscribe_loop cid channels response s))"
  by (induction channels arbitrary: response s) (auto simp: Let_def unsubscribed)

lemma server_handlers_keep [keep]:
  "keeps P (handle_ping args ctx)" "keeps P (handle_command args ctx)" "keeps P (handle_info env args ctx)"
  "keeps P (handle_time env args ctx)" "keeps P (handle_clientid args ctx)" "keeps P (handle_clientlist env args ctx)"
  "keeps P (handle_dump env args ctx)"
  by (auto simp: keeps_def handle_ping_def handle_command_def handle_info_def handle_time_def handle_clientid_def
      handle_clientlist_def handle_dump_def Let_def act_simps no_session_def split: list.splits option.splits)

lemma client_handlers_keep [keep]:
  "keeps P (handle_clientname args ctx)" "keeps P (handle_monitor args ctx)" "keeps P (handle_journal args ctx)"
  by (auto simp: keeps_def handle_clientname_def handle_monitor_def handle_journal_def Let_def act_simps no_session_def
      split: list.splits option.splits prod.splits sum.splits
      dest!: the_client_cid intro: client journal_clear_keeps)

lemma handle_subscribe_keeps [keep]: "keeps P (handle_subscribe args ctx)"
proof (rule keepsI)
  fix s assume "P s"
  then have "P (snd (subscribe_all cid args [] s))" by (rule subscribe_all_keeps)
  with \<open>P s\<close> show "P (snd (handle_subscribe args ctx s))"
    by (auto simp: handle_subscribe_def no_session_def wrong_args_def act_simps
        split: option.splits prod.splits sum.splits dest!: the_client_cid intro: client)
qed

lemma handle_unsubscribe_keeps [keep]: "keeps P (handle_unsubscribe args ctx)"
  by (rule keepsI)
    (auto simp: handle_unsubscribe_def no_session_def act_simps Let_def
      split: option.splits dest!: the_client_cid intro: client unsubscribe_loop_keeps)

subsection \<open>Dispatch\<close>

text \<open>The only command with a condition is \<open>IREMOVE\<close>.\<close>

lemma handler_keeps:
  assumes "map_of (handlers env) name = Some h"
    and "\<And>n rest. name = ''IREMOVE'' \<Longrightarrow> args = n # rest \<Longrightarrow> may_remove n"
  shows "keeps P (h args ctx)"
proof (cases "name = ''IREMOVE''")
  case True
  then have "h = handle_instrument_remove env" using assms(1) by (simp add: handlers_def)
  with True assms(2) show ?thesis by (auto intro: handle_remove_keeps)
next
  case False
  then have "(name, h) \<in> set (filter (\<lambda>(n, _). n \<noteq> ''IREMOVE'') (handlers env))"
    using map_of_SomeD[OF assms(1)] by simp
  then show ?thesis by (simp add: handlers_def) (elim disjE; simp add: keep)
qed

lemma run_handler_keeps: "keeps P (h args ctx) \<Longrightarrow> P s \<Longrightarrow> P (snd (run_handler h args ctx s))"
  by (auto simp: run_handler_def keeps_def split: prod.splits sum.splits)

lemma record_keeps: "P s \<Longrightarrow> P (record_command env c command reply s)"
  by (simp add: record_command_def journalled)

lemma broadcast_keeps: "P s \<Longrightarrow> P (broadcast_monitors env bytes s)"
  by (simp add: broadcast_monitors_def Let_def monitors_fewer)

lemma dispatch_keeps:
  assumes "P s" "removes_allowed may_remove command"
  shows "P (snd (dispatch env command ctx s))"
proof (cases command)
  case Nil
  with assms show ?thesis by (simp add: dispatch_def)
next
  case (Cons cmd rest)
  obtain name args where r: "resolve_command cmd rest = (name, args)" by fastforce
  show ?thesis
  proof (cases "map_of (handlers env) name")
    case None
    with assms show ?thesis by (simp add: dispatch_def Cons r)
  next
    case (Some h)
    have "keeps P (h args ctx)"
      by (rule handler_keeps[OF Some]) (use assms(2) in \<open>auto simp: removes_allowed_def Cons r\<close>)
    from run_handler_keeps[of h args s, OF this assms(1)] assms(1) show ?thesis
      by (auto simp: dispatch_def Cons r Some Let_def record_keeps broadcast_keeps split: prod.splits)
  qed
qed

subsection \<open>The background tasks\<close>

lemma run_spawned_keeps: "P s \<Longrightarrow> P (run_spawned env s)"
  by (auto simp: run_spawned_def spawned split: list.splits)

lemma guard_trip_keeps: "P s \<Longrightarrow> P (guard_trip env name drv res val lo hi s)"
proof -
  assume "P s"
  then have "P (snd (quietly (call_out (d_safe_state env drv)) s))"
    by (intro keepsD[OF keeps_quietly[OF call_out_keeps]])
  then have "P (upd_inst name (\<lambda>i. i\<lparr>istate := FAULT\<rparr>) (snd (quietly (call_out (d_safe_state env drv)) s)))"
    by (rule update) simp
  then show ?thesis by (auto simp: guard_trip_def Let_def)
qed

lemma watch_turn_keeps:
  assumes "P s" "dict_mem (watches s) name"
  shows "P (watch_turn env name drv res e s)"
proof -
  obtain r s1 where r: "call_driver env name (driver_timeout s) (d_read env drv res) s = (r, s1)" by fastforce
  have P1: "P s1" by (rule keeps_result[OF call_driver_keeps assms(1) r])
  have w: "watches s1 = watches s"
    using r by (auto simp: call_driver_def Let_def upd_inst_def spawn_def split: prod.splits outcome.splits option.splits)
  have "P (upd_inst name (\<lambda>i. i\<lparr>total_calls := Suc (total_calls i)\<rparr>) s1)" using P1 by (rule update) simp
  then show ?thesis
    using P1 watch_dead[OF P1, of name] assms(2)
    by (cases r) (auto simp: watch_turn_def r w Let_def split: exn.splits option.splits intro: guard_trip_keeps)
qed

lemma watch_tick_keeps: "P s \<Longrightarrow> P (watch_tick env name res s)"
  by (auto simp: watch_tick_def inst_watches_def dict_mem_def split: option.splits intro!: watch_turn_keeps)

lemma health_failed_keeps: "P s \<Longrightarrow> P (health_failed env name s)"
  by (auto simp: health_failed_def Let_def update split: option.splits)

lemma health_tick_keeps: "P s \<Longrightarrow> P (health_tick env name s)"
  by (auto simp: health_tick_def split: option.splits prod.splits sum.splits
      dest: keeps_result[OF call_driver_keeps] intro: update health_failed_keeps)

end

end
