(* ===== verification/System.thy ===== *)
theory System
  imports CommandInvariant
begin

text \<open>
  The server as a transition system: connections, bytes from clients, finished sessions, and the
  background tasks, in any order; and the invariant of its reachable states.

  \<open>session_ok\<close> is the invariant as it stands while session \<open>cid\<close> runs or is being closed: it may be
  named as an owner even when it is no longer active.  It is interpreted in \<open>session_invariant\<close>, which
  gives that every command keeps it.
\<close>

subsection \<open>The invariant\<close>

definition active :: "'w server \<Rightarrow> int \<Rightarrow> bool" where
  "active s cid = (case dict_get (clients s) cid of Some c \<Rightarrow> running c | None \<Rightarrow> False)"

text \<open>The sessions the server's tables mention.\<close>

definition locks_in :: "(int \<Rightarrow> bool) \<Rightarrow> 'w server \<Rightarrow> bool" where
  "locks_in A s = (\<forall>name i own. dict_get (instruments s) name = Some i \<longrightarrow> lock_owner i = Some own \<longrightarrow> A own)"

definition keys_in :: "(int \<Rightarrow> bool) \<Rightarrow> 'w server \<Rightarrow> bool" where
  "keys_in A s = (\<forall>k own. dict_get (owners (kv s)) k = Some own \<longrightarrow> A own)"

definition subs_in :: "(int \<Rightarrow> bool) \<Rightarrow> 'w server \<Rightarrow> bool" where
  "subs_in A s = (\<forall>b. list_all (\<lambda>u. A (sub_handler u)) (subs_of (bus s) b))"

definition owners_in :: "(int \<Rightarrow> bool) \<Rightarrow> 'w server \<Rightarrow> bool" where
  "owners_in A s = (locks_in A s \<and> keys_in A s \<and> subs_in A s)"

definition clients_ok :: "'w server \<Rightarrow> bool" where
  "clients_ok s =
     (dict_ok (clients s) \<and> 1 \<le> next_client_id s
      \<and> list_all (\<lambda>k. 1 \<le> k \<and> k < next_client_id s) (dict_keys (clients s))
      \<and> length (clients s) \<le> nat (max_clients s)
      \<and> list_all (dict_mem (clients s)) (monitors s))"

text \<open>Guards are on registered instruments that somebody owns; health checks on registered ones.\<close>

definition guarded :: "'w server \<Rightarrow> string \<Rightarrow> bool" where
  "guarded s name = (case dict_get (instruments s) name of Some i \<Rightarrow> lock_owner i \<noteq> None | None \<Rightarrow> False)"

definition tasks_ok :: "'w server \<Rightarrow> bool" where
  "tasks_ok s =
     (dict_ok (watches s) \<and> dict_ok (health_tasks s)
      \<and> list_all (guarded s) (dict_keys (watches s))
      \<and> list_all (dict_mem (instruments s)) (dict_keys (health_tasks s)))"

definition tables_ok :: "'w server \<Rightarrow> bool" where
  "tables_ok s =
     (instruments_ok s \<and> store_ok (kv s) \<and> journal_ok (jrnl s) \<and> bus_ok (bus s) \<and> clients_ok s \<and> tasks_ok s)"

definition server_ok :: "'w server \<Rightarrow> bool" where
  "server_ok s = (tables_ok s \<and> owners_in (active s) s)"

definition session_ok :: "bool \<Rightarrow> int \<Rightarrow> 'w server \<Rightarrow> bool" where
  "session_ok b cid s =
     (tables_ok s \<and> owners_in (\<lambda>o'. o' = cid \<or> active s o') s \<and> active s cid = b)"

lemma owners_mono: "owners_in A s \<Longrightarrow> (\<And>x. A x \<Longrightarrow> B x) \<Longrightarrow> owners_in B s"
  by (auto simp: owners_in_def locks_in_def keys_in_def subs_in_def list_all_iff)

lemma session_ok_active: "session_ok True cid s \<longleftrightarrow> server_ok s \<and> active s cid"
proof -
  have "owners_in (\<lambda>o'. o' = cid \<or> active s o') s \<longleftrightarrow> owners_in (active s) s" if "active s cid"
    using that owners_mono[of "\<lambda>o'. o' = cid \<or> active s o'" s "active s"]
      owners_mono[of "active s" s "\<lambda>o'. o' = cid \<or> active s o'"] by auto
  then show ?thesis by (auto simp: session_ok_def server_ok_def)
qed

subsection \<open>The invariant is closed under the primitive changes\<close>

lemma list_all_mem: "list_all P (dict_keys d) \<longleftrightarrow> (\<forall>k. dict_mem d k \<longrightarrow> P k)"
  by (auto simp: list_all_iff dict_mem_keys)

lemmas ok_defs = tables_ok_def clients_ok_def tasks_ok_def owners_in_def locks_in_def keys_in_def subs_in_def
  list_all_mem

text \<open>Fields the invariant does not mention.\<close>

lemma ok_other_fields [simp]:
  "session_ok b cid (s\<lparr>world := w\<rparr>) = session_ok b cid s"
  "session_ok b cid (s\<lparr>spawned := q\<rparr>) = session_ok b cid s"
  "session_ok b cid (s\<lparr>driver_modules := d\<rparr>) = session_ok b cid s"
  "session_ok b cid (s\<lparr>sent := l\<rparr>) = session_ok b cid s"
  "session_ok b cid (s\<lparr>total_commands := n\<rparr>) = session_ok b cid s"
  "session_ok b cid (s\<lparr>rejected_connections := n\<rparr>) = session_ok b cid s"
  "session_ok b cid (s\<lparr>server_running := r\<rparr>) = session_ok b cid s"
  by (simp_all add: session_ok_def active_def ok_defs instruments_ok_def guarded_def)

lemma instruments_step:
  assumes "session_ok b cid s" "dict_ok d"
    and "\<And>n j. dict_get d n = Some j \<Longrightarrow> instrument_ok n j"
    and "\<And>n j own. dict_get d n = Some j \<Longrightarrow> lock_owner j = Some own \<Longrightarrow> own = cid \<or> active s own"
    and "\<And>n. dict_mem (watches s) n \<Longrightarrow> \<exists>j. dict_get d n = Some j \<and> lock_owner j \<noteq> None"
    and "\<And>n. dict_mem (health_tasks s) n \<Longrightarrow> dict_mem d n"
  shows "session_ok b cid (s\<lparr>instruments := d\<rparr>)"
proof -
  have g: "guarded (s\<lparr>instruments := d\<rparr>) n" if "dict_mem (watches s) n" for n
    using assms(5)[OF that] by (auto simp: guarded_def)
  have a: "active (s\<lparr>instruments := d\<rparr>) = active s" by (simp add: active_def fun_eq_iff)
  show ?thesis
    using assms(1,2,3,4,6) g
    by (auto simp: session_ok_def ok_defs instruments_ok_def a)
qed

lemma session_okD:
  assumes "session_ok b cid s"
  shows "instruments_ok s"
    and "dict_ok (instruments s)" "dict_get (instruments s) n = Some j \<Longrightarrow> instrument_ok n j"
    and "dict_get (instruments s) n = Some j \<Longrightarrow> lock_owner j = Some own \<Longrightarrow> own = cid \<or> active s own"
    and "dict_mem (watches s) n \<Longrightarrow> \<exists>j. dict_get (instruments s) n = Some j \<and> lock_owner j \<noteq> None"
    and "dict_mem (health_tasks s) n \<Longrightarrow> dict_mem (instruments s) n"
    and "store_ok (kv s)" "journal_ok (jrnl s)" "bus_ok (bus s)"
proof -
  show "dict_mem (watches s) n \<Longrightarrow> \<exists>j. dict_get (instruments s) n = Some j \<and> lock_owner j \<noteq> None"
    using assms by (auto simp: session_ok_def ok_defs guarded_def split: option.splits)
qed (use assms in \<open>auto simp: session_ok_def ok_defs instruments_ok_def\<close>)

lemma session_key: "session_ok b cid s \<Longrightarrow> dict_get (owners (kv s)) k = Some own \<Longrightarrow> own = cid \<or> active s own"
  by (auto simp: session_ok_def owners_in_def keys_in_def)

text \<open>Changing one instrument.\<close>

lemma instrument_step:
  assumes s: "session_ok b cid s" and i: "dict_get (instruments s) name = Some i"
    and j: "instrument_ok name (f i)"
    and own: "\<And>own. lock_owner (f i) = Some own \<Longrightarrow> own = cid \<or> active s own"
    and w: "dict_mem (watches s) name \<Longrightarrow> lock_owner (f i) \<noteq> None"
  shows "session_ok b cid (upd_inst name f s)"
  unfolding upd_inst_some[OF i]
  by (rule instruments_step[OF s])
    (use session_okD[OF s] j own w in \<open>auto simp: dict_simps dict_ok_set split: if_splits\<close>)

lemma kv_step_session:
  assumes s: "session_ok b cid s" and ok: "store_ok st"
    and own: "\<And>k own. dict_get (owners st) k = Some own \<Longrightarrow> own = cid \<or> active s own"
  shows "session_ok b cid (s\<lparr>kv := st\<rparr>)"
proof -
  have a: "active (s\<lparr>kv := st\<rparr>) = active s" by (simp add: active_def fun_eq_iff)
  have g: "guarded (s\<lparr>kv := st\<rparr>) = guarded s" by (simp add: guarded_def fun_eq_iff)
  show ?thesis using assms by (auto simp: session_ok_def ok_defs instruments_ok_def a g)
qed

lemma kv_step_owner:
  assumes "store_ok st" "dict_get (owners (kv_step a sid st)) k = Some own"
  shows "own = sid \<or> dict_get (owners st) k = Some own"
proof (cases a)
  case (OpSet key val nx xx ro)
  with assms(2) show ?thesis
    by (auto simp: kv_set_def Let_def dict_simps split: if_splits sum.splits option.splits)
next
  case (OpMset ps)
  with assms(2) show ?thesis by (auto simp: kv_mset_def split: sum.splits option.splits)
next
  case (OpDelete ks)
  show ?thesis
  proof (cases "kv_delete st ks (Some sid)")
    case (Inr r)
    obtain c st' where "r = (c, st')" by fastforce
    with kv_delete_spec(4)[OF assms(1), of ks "Some sid" c st' k] Inr OpDelete assms(2) show ?thesis
      by (auto split: if_splits)
  qed (use OpDelete assms in simp)
next
  case OpFlush
  with kv_flushdb_spec(4)[OF assms(1), of "Some sid" k] assms(2) show ?thesis by (auto split: if_splits)
next
  case OpRelease
  with release_owner_spec(1)[OF assms(1), of sid k] assms(2) show ?thesis by (auto split: if_splits)
qed (use assms(2) in \<open>simp_all add: write_meas_def invalidate_meas_def Let_def\<close>)

lemma bus_step_session:
  assumes s: "session_ok b cid s" and ok: "bus_ok bs"
    and own: "\<And>c u. u \<in> set (subs_of bs c) \<Longrightarrow> sub_handler u = cid \<or> u \<in> set (subs_of (bus s) c)"
  shows "session_ok b cid (s\<lparr>bus := bs\<rparr>)"
proof -
  have a: "active (s\<lparr>bus := bs\<rparr>) = active s" by (simp add: active_def fun_eq_iff)
  have g: "guarded (s\<lparr>bus := bs\<rparr>) = guarded s" by (simp add: guarded_def fun_eq_iff)
  show ?thesis
    using s ok own by (fastforce simp: session_ok_def ok_defs instruments_ok_def a g list_all_iff)
qed

lemma publish_on_session: "session_ok b cid s \<Longrightarrow> session_ok b cid (publish_on env ch payload key s)"
proof -
  assume s: "session_ok b cid s"
  obtain msgs bs where p: "publish (can_write env (world s)) (bus s) ch payload key = (msgs, bs)" by fastforce
  have "session_ok b cid (s\<lparr>bus := bs\<rparr>)"
    using publish_ok[OF session_okD(9)[OF s], of "can_write env (world s)" ch payload key]
      publish_subs[OF session_okD(9)[OF s], of "can_write env (world s)" ch payload key] p
    by (intro bus_step_session[OF s]) auto
  then have "session_ok b cid ((s\<lparr>bus := bs\<rparr>)\<lparr>sent := sent s @ msgs\<rparr>)" by (simp only: ok_other_fields)
  then show ?thesis by (simp add: publish_on_def p)
qed

lemma watches_step:
  assumes s: "session_ok b cid s" and ok: "dict_ok w" and m: "\<And>n. dict_mem w n \<Longrightarrow> guarded s n"
  shows "session_ok b cid (s\<lparr>watches := w\<rparr>)"
proof -
  have a: "active (s\<lparr>watches := w\<rparr>) = active s" by (simp add: active_def fun_eq_iff)
  have g: "guarded (s\<lparr>watches := w\<rparr>) = guarded s" by (simp add: guarded_def fun_eq_iff)
  show ?thesis
    using s ok m by (auto simp: session_ok_def ok_defs instruments_ok_def a g)
qed

lemma session_guarded: "session_ok b cid s \<Longrightarrow> dict_mem (watches s) n \<Longrightarrow> guarded s n"
  using session_okD(5)[of b cid s n] by (auto simp: guarded_def)

lemma session_tasks: "session_ok b cid s \<Longrightarrow> dict_ok (watches s) \<and> dict_ok (health_tasks s)"
  by (simp add: session_ok_def tables_ok_def tasks_ok_def)

lemma health_step:
  assumes s: "session_ok b cid s" and ok: "dict_ok h" and m: "\<And>n. dict_mem h n \<Longrightarrow> dict_mem (instruments s) n"
  shows "session_ok b cid (s\<lparr>health_tasks := h\<rparr>)"
proof -
  have a: "active (s\<lparr>health_tasks := h\<rparr>) = active s" by (simp add: active_def fun_eq_iff)
  have g: "guarded (s\<lparr>health_tasks := h\<rparr>) = guarded s" by (simp add: guarded_def fun_eq_iff)
  show ?thesis
    using s ok m by (auto simp: session_ok_def ok_defs instruments_ok_def a g)
qed

lemma journal_step: "session_ok b cid s \<Longrightarrow> journal_ok j \<Longrightarrow> session_ok b cid (s\<lparr>jrnl := j\<rparr>)"
  by (auto simp: session_ok_def ok_defs instruments_ok_def active_def guarded_def)

lemma client_step:
  assumes "session_ok b cid s" "same_session f"
  shows "session_ok b cid (upd_client k f s)"
proof (cases "dict_get (clients s) k")
  case None
  with assms show ?thesis by (simp add: upd_client_def)
next
  case (Some c)
  let ?d = "dict_set (clients s) k (f c)"
  have a: "active (s\<lparr>clients := ?d\<rparr>) = active s"
    using assms(2) Some by (auto simp: active_def fun_eq_iff dict_simps same_session_def)
  have g: "guarded (s\<lparr>clients := ?d\<rparr>) = guarded s" by (simp add: guarded_def fun_eq_iff)
  have m: "dict_mem ?d = dict_mem (clients s)" using Some by (auto simp: fun_eq_iff dict_simps) (simp add: dict_mem_def)
  have "session_ok b cid (s\<lparr>clients := ?d\<rparr>)"
    using assms(1) dict_set_length[OF Some, of "f c"]
    by (auto simp: session_ok_def ok_defs instruments_ok_def a g m dict_ok_set)
  then show ?thesis by (simp add: upd_client_def Some)
qed

lemma watch_entry_dict: "dict_ok (watches s) \<Longrightarrow> dict_ok (watches (snd (watch_stop name res s)))"
  by (auto simp: watch_stop_def Let_def dict_ok_set dict_ok_del)

lemma watch_stop_mem: "dict_ok (watches s) \<Longrightarrow> dict_mem (watches (snd (watch_stop name res s))) n \<Longrightarrow> dict_mem (watches s) n"
  by (auto simp: watch_stop_def Let_def dict_simps inst_watches_def split: if_splits option.splits)
    (auto simp: dict_mem_def)

lemma watch_stop_eq: "snd (watch_stop name res s) = s\<lparr>watches := watches (snd (watch_stop name res s))\<rparr>"
  by (simp add: watch_stop_def Let_def)

lemma watch_stop_session: "session_ok b cid s \<Longrightarrow> session_ok b cid (snd (watch_stop name res s))"
proof -
  assume s: "session_ok b cid s"
  note d = conjunct1[OF session_tasks[OF s]]
  show ?thesis
    by (subst watch_stop_eq, rule watches_step[OF s watch_entry_dict[OF d]])
      (rule session_guarded[OF s watch_stop_mem[OF d]])
qed

interpretation session: session_invariant "session_ok b cid" cid "\<lambda>_. True" for b cid
proof
  fix s assume "session_ok b cid s"
  then show "instruments_ok s" by (rule session_okD(1))
next
  fix s :: "'w server" and f :: "instrument \<Rightarrow> instrument" and name
  assume s: "session_ok b cid s" and f: "benign f"
  show "session_ok b cid (upd_inst name f s)"
  proof (cases "dict_get (instruments s) name")
    case None
    with s show ?thesis by (simp add: upd_inst_def)
  next
    case (Some i)
    note i = session_okD(3)[OF s Some]
    show ?thesis
      by (rule instrument_step[OF s Some])
        (use f i session_okD(4)[OF s Some] session_okD(5)[OF s, of name] Some in \<open>auto simp: benign_def\<close>)
  qed
next
  fix s :: "'w server" and name i st
  assume s: "session_ok b cid s" and i: "dict_get (instruments s) name = Some i"
    and w: "\<not> dict_mem (watches s) name" and st: "st = IDLE \<or> st = FAULT"
  show "session_ok b cid (upd_inst name (unlocked st) s)"
    by (rule instrument_step[OF s i])
      (use session_okD(3)[OF s i] w st in \<open>auto simp: unlocked_def instrument_ok_def\<close>)
next
  fix s :: "'w server" and name i
  assume s: "session_ok b cid s" and i: "dict_get (instruments s) name = Some i" and idle: "istate i = IDLE"
  show "session_ok b cid (upd_inst name (taken cid) s)"
    by (rule instrument_step[OF s i])
      (use session_okD(3)[OF s i] idle in \<open>auto simp: taken_def instrument_ok_def\<close>)
next
  fix s :: "'w server" and name i
  assume s: "session_ok b cid s" and new: "\<not> dict_mem (instruments s) name"
    and ok: "instrument_ok name i" and own: "lock_owner i = None"
  have "\<not> dict_mem (watches s) name"
    using session_okD(5)[OF s, of name] new unfolding dict_mem_def by fastforce
  then show "session_ok b cid (s\<lparr>instruments := dict_set (instruments s) name i\<rparr>)"
    by (intro instruments_step[OF s])
      (use session_okD[OF s] ok own in \<open>auto simp: dict_simps dict_ok_set split: if_splits\<close>)
next
  fix s :: "'w server" and name
  assume s: "session_ok b cid s" and w: "\<not> dict_mem (watches s) name" and h: "\<not> dict_mem (health_tasks s) name"
  show "session_ok b cid (s\<lparr>instruments := dict_del (instruments s) name\<rparr>)"
    by (rule instruments_step[OF s])
      (use session_okD[OF s] w h in \<open>auto simp: dict_simps dict_ok_del split: if_splits\<close>)
next
  fix s :: "'w server" and a
  assume s: "session_ok b cid s"
  show "session_ok b cid (s\<lparr>kv := kv_step a cid (kv s)\<rparr>)"
  proof (rule kv_step_session[OF s kv_step_ok[OF session_okD(7)[OF s]]])
    fix k own assume "dict_get (owners (kv_step a cid (kv s))) k = Some own"
    from kv_step_owner[OF session_okD(7)[OF s] this] show "own = cid \<or> active s own"
      using session_key[OF s] by blast
  qed
next
  fix s :: "'w server" and inst res val status t
  assume s: "session_ok b cid s"
  show "session_ok b cid (s\<lparr>kv := write_meas (kv s) inst res val status t\<rparr>)"
    by (rule kv_step_session[OF s])
      (use write_meas_ok[OF session_okD(7)[OF s]] s in
        \<open>auto simp: write_meas_def session_ok_def owners_in_def keys_in_def\<close>)
next
  fix s :: "'w server" and inst t
  assume s: "session_ok b cid s"
  show "session_ok b cid (s\<lparr>kv := snd (invalidate_meas (kv s) inst t)\<rparr>)"
    by (rule kv_step_session[OF s])
      (use invalidate_meas_ok[OF session_okD(7)[OF s], of inst t] s in
        \<open>auto simp: invalidate_meas_def Let_def session_ok_def owners_in_def keys_in_def\<close>)
next
  fix s :: "'w server" and name
  assume s: "session_ok b cid s"
  show "session_ok b cid (watch_stop_instrument name s)"
    unfolding watch_stop_instrument_def
    by (rule watches_step[OF s]) (use session_tasks[OF s] session_guarded[OF s] in \<open>auto simp: dict_ok_del dict_simps\<close>)
next
  fix s :: "'w server" and name res
  assume s: "session_ok b cid s"
  show "session_ok b cid (snd (watch_stop name res s))" by (rule watch_stop_session[OF s])
next
  fix s :: "'w server" and name i res ms lo hi
  assume s: "session_ok b cid s" and i: "dict_get (instruments s) name = Some i" "lock_owner i = Some cid"
  define s1 where "s1 = snd (watch_stop name res s)"
  have s1: "session_ok b cid s1"
    unfolding s1_def by (rule watch_stop_session[OF s])
  have "guarded s1 name" using i by (simp add: s1_def watch_stop_def Let_def guarded_def)
  then show "session_ok b cid (watch_start name res ms lo hi s)"
    unfolding watch_start_def Let_def s1_def[symmetric]
    by (intro watches_step[OF s1]) (use session_tasks[OF s1] session_guarded[OF s1] in \<open>auto simp: dict_ok_set dict_simps\<close>)
next
  fix s :: "'w server" and name res e
  assume s: "session_ok b cid s" and w: "dict_mem (watches s) name"
  show "session_ok b cid (s\<lparr>watches := dict_set (watches s) name (dict_set (inst_watches s name) res e)\<rparr>)"
    by (rule watches_step[OF s])
      (use session_tasks[OF s] session_guarded[OF s] w in \<open>auto simp: dict_ok_set dict_simps\<close>)
next
  fix s :: "'w server" and name
  assume s: "session_ok b cid s"
  show "session_ok b cid (health_stop name s)"
    unfolding health_stop_def
    by (rule health_step[OF s]) (use session_tasks[OF s] session_okD(6)[OF s] in \<open>auto simp: dict_ok_del dict_simps\<close>)
next
  fix s :: "'w server" and name h
  assume s: "session_ok b cid s" and m: "dict_mem (instruments s) name"
  show "session_ok b cid (health_start name h s)"
    unfolding health_start_def
    by (rule health_step[OF s]) (use session_tasks[OF s] session_okD(6)[OF s] m in \<open>auto simp: dict_ok_set dict_simps\<close>)
next
  fix s :: "'w server" and t sid nm command status
  assume s: "session_ok b cid s"
  show "session_ok b cid (s\<lparr>jrnl := journal_record (jrnl s) t sid nm command status\<rparr>)"
    by (rule journal_step[OF s journal_record_ok[OF session_okD(8)[OF s]]])
next
  fix s :: "'w server" and channel
  assume s: "session_ok b cid s"
  obtain base pattern where c: "parse_channel channel = (base, pattern)" by fastforce
  show "session_ok b cid (s\<lparr>bus := snd (subscribe (bus s) cid channel)\<rparr>)"
    by (rule bus_step_session[OF s subscribe_ok[OF session_okD(9)[OF s]]])
      (auto simp: subscribe_def c Let_def subs_of_set split: if_splits)
next
  fix s :: "'w server" and channel
  assume s: "session_ok b cid s"
  show "session_ok b cid (s\<lparr>bus := snd (unsubscribe (bus s) cid channel)\<rparr>)"
    by (rule bus_step_session[OF s unsubscribe_ok[OF session_okD(9)[OF s]]])
      (auto simp: subs_of_unsubscribe split: if_splits)
next
  fix s :: "'w server" and q l
  assume s: "session_ok b cid s"
  have "session_ok b cid (s\<lparr>monitors := filter q (monitors s)\<rparr>)"
    using s by (auto simp: session_ok_def ok_defs instruments_ok_def active_def guarded_def list_all_iff)
  then show "session_ok b cid (s\<lparr>monitors := filter q (monitors s), sent := l\<rparr>)"
    using ok_other_fields(4)[where s = "s\<lparr>monitors := filter q (monitors s)\<rparr>" and l = l and b = b and cid = cid] by simp
qed (auto intro: publish_on_session journal_step journal_clear_ok client_step)

subsection \<open>Sessions keep the invariant\<close>

lemma owners_in_both: "owners_in A s \<Longrightarrow> owners_in B s \<Longrightarrow> owners_in (\<lambda>x. A x \<and> B x) s"
  by (auto simp: owners_in_def locks_in_def keys_in_def subs_in_def list_all_iff)

text \<open>What every session's invariant survives keeps the server's.\<close>

lemma server_ok_step:
  assumes "server_ok s" "\<And>b cid. session_ok b cid s \<Longrightarrow> session_ok b cid s'"
  shows "server_ok s'"
proof -
  have "session_ok (active s cid) cid s" for cid
    using assms(1) owners_mono[of "active s" s "\<lambda>x. x = cid \<or> active s x"] by (auto simp: server_ok_def session_ok_def)
  then have k: "session_ok (active s cid) cid s'" for cid by (rule assms(2))
  have "owners_in (\<lambda>x. (x = 0 \<or> active s' x) \<and> (x = 1 \<or> active s' x)) s'"
    using k[of 0] k[of 1] by (intro owners_in_both) (auto simp: session_ok_def)
  then have "owners_in (active s') s'" by (rule owners_mono) auto
  with k[of 0] show ?thesis by (simp add: server_ok_def session_ok_def)
qed

lemma client_write_session: "session_ok b cid s \<Longrightarrow> session_ok b cid (snd (client_write env k bytes s))"
  by (simp add: client_write_def)

lemma count_command_session: "session_ok b cid s \<Longrightarrow> session_ok b cid (count_command k s)"
  by (simp add: count_command_def client_step)

lemma monitors_session:
  "session_ok b cid s \<Longrightarrow> list_all (dict_mem (clients s)) m \<Longrightarrow> session_ok b cid (s\<lparr>monitors := m\<rparr>)"
  by (auto simp: session_ok_def ok_defs instruments_ok_def active_def guarded_def)

lemma session_monitors: "session_ok b cid s \<Longrightarrow> list_all (dict_mem (clients s)) (monitors s)"
  by (simp add: session_ok_def tables_ok_def clients_ok_def)

lemma leave_monitor_session: "session_ok b cid s \<Longrightarrow> session_ok b cid (leave_monitor k cmd s)"
  using session_monitors[of b cid s]
  by (auto simp: leave_monitor_def list_all_iff split: option.splits intro!: client_step monitors_session)

lemma enter_monitor_session: "session_ok b cid s \<Longrightarrow> session_ok b cid (enter_monitor k s)"
  using session_monitors[of b cid s]
  by (auto simp: enter_monitor_def list_all_iff dict_mem_def split: option.splits intro!: client_step monitors_session)

lemma removes_all_allowed: "removes_allowed (\<lambda>_. True) command"
  by (auto simp: removes_allowed_def split: list.splits prod.splits)

lemma process_message_session: "session_ok b cid s \<Longrightarrow> session_ok b cid (snd (process_message env cid m s))"
proof (cases m)
  case (RList xs)
  assume s: "session_ok b cid s"
  show ?thesis
  proof (cases xs)
    case (Cons x ys)
    let ?s1 = "leave_monitor cid (py_str x) (count_command cid s)"
    obtain reply s2 where d: "dispatch env (map py_str (x # ys)) (client_context cid) ?s1 = (reply, s2)" by fastforce
    have "session_ok b cid ?s1" using s by (intro leave_monitor_session count_command_session)
    then have "session_ok b cid s2"
      using session.dispatch_keeps[OF _ removes_all_allowed, of b cid ?s1 env "map py_str (x # ys)"] d by simp
    moreover obtain w s3 where c: "client_write env cid reply s2 = (w, s3)" by fastforce
    ultimately have "session_ok b cid s3" using client_write_session[of b cid s2 env cid reply] by simp
    then show ?thesis
      using d c by (cases w) (auto simp: process_message_def RList Cons Let_def intro: enter_monitor_session)
  qed (use s RList in \<open>simp add: process_message_def\<close>)
qed (auto simp: process_message_def intro: client_write_session)

lemma process_messages_session: "session_ok b cid s \<Longrightarrow> session_ok b cid (snd (process_messages env cid ms s))"
proof (induction ms arbitrary: s)
  case (Cons m ms)
  obtain w s1 where m: "process_message env cid m s = (w, s1)" by fastforce
  then have "session_ok b cid s1" using process_message_session[OF Cons.prems, of env m] by simp
  with Cons.IH m show ?case by (cases w) auto
qed simp

subsection \<open>Closing a session\<close>

text \<open>Releasing the locks: the invariant holds without the closing session being active.\<close>

lemma release_on_close_session: "session_ok b cid s \<Longrightarrow> session_ok b cid (release_on_close env cid name s)"
  using keepsD[OF keeps_quietly[OF session.unlock_with_events_keeps]]
  by (auto simp: release_on_close_def split: option.splits)

lemma publish_on_instruments [simp]: "instruments (publish_on env ch payload key s) = instruments s"
  by (simp add: publish_on_def split: prod.splits)

lemma publish_instruments [simp]:
  "instruments (publish_instrument env t name kw s) = instruments s"
  "instruments (publish_lock env t name sid kw s) = instruments s"
  "instruments (publish_session env t sid kw s) = instruments s"
  "instruments (publish_kv env key val osid s) = instruments s"
  "instruments (publish_meas env inst res v ts status s) = instruments s"
  by (simp_all add: publish_instrument_def publish_lock_def publish_session_def publish_kv_def publish_meas_def)

lemma stale_with_events_instruments [simp]: "instruments (stale_with_events env name s) = instruments s"
proof -
  have "instruments (publish_stale env l s) = instruments s" for l s
    unfolding publish_stale_def by (rule fold_invariant_on[where P = "\<lambda>t. instruments t = instruments s"]) auto
  then show ?thesis by (auto simp: stale_with_events_def split: prod.splits)
qed

text \<open>Unlocking ends in IDLE or FAULT, without an owner, and touches no other instrument.\<close>

lemma registry_unlock_owner:
  assumes "dict_get (instruments s) name = Some i" "lock_owner i = Some sid"
  shows "\<exists>st w. (st = IDLE \<or> st = FAULT) \<and>
           registry_unlock env name sid s = (Inr (), upd_inst name (unlocked st) (s\<lparr>world := w\<rparr>))"
proof -
  obtain r w where r: "d_safe_state env (driver i) (world s) = (r, w)" by fastforce
  have u: "unlocked st = (\<lambda>i. i\<lparr>istate := st, lock_owner := None, resources := []\<rparr>)" for st
    by (simp add: unlocked_def fun_eq_iff)
  show ?thesis
    using assms r by (cases r) (auto simp: registry_unlock_def act_simps get_inst_def call_out_def u)
qed

lemma release_on_close_spec:
  assumes "dict_get (instruments s) name = Some i" "lock_owner i = Some cid"
  shows "\<exists>st. (st = IDLE \<or> st = FAULT) \<and>
           instruments (release_on_close env cid name s) = dict_set (instruments s) name (unlocked st i)"
proof -
  have i: "dict_get (instruments (watch_stop_instrument name s)) name = Some i"
    using assms(1) by (simp add: watch_stop_instrument_def)
  from registry_unlock_owner[OF i assms(2), of env] obtain st w where st: "st = IDLE \<or> st = FAULT"
    and r: "registry_unlock env name cid (watch_stop_instrument name s)
      = (Inr (), upd_inst name (unlocked st) ((watch_stop_instrument name s)\<lparr>world := w\<rparr>))" by blast
  have "instruments (upd_inst name (unlocked st) ((watch_stop_instrument name s)\<lparr>world := w\<rparr>))
      = dict_set (instruments s) name (unlocked st i)"
    using assms(1) by (simp add: upd_inst_def watch_stop_instrument_def)
  with st assms r show ?thesis
    by (auto simp: release_on_close_def quietly_def act_simps)
qed

lemma release_on_close_other:
  "dict_get (instruments s) name = None \<or> (\<exists>i. dict_get (instruments s) name = Some i \<and> lock_owner i \<noteq> Some cid)
   \<Longrightarrow> release_on_close env cid name s = s"
  by (auto simp: release_on_close_def)

definition owns_nothing_but :: "int \<Rightarrow> string set \<Rightarrow> 'w server \<Rightarrow> bool" where
  "owns_nothing_but cid ns s = (\<forall>n i. dict_get (instruments s) n = Some i \<longrightarrow> lock_owner i = Some cid \<longrightarrow> n \<in> ns)"

lemma release_all:
  "owns_nothing_but cid (set ns) s \<Longrightarrow> owns_nothing_but cid {} (fold (release_on_close env cid) ns s)"
proof (induction ns arbitrary: s)
  case (Cons n ns)
  have "owns_nothing_but cid (set ns) (release_on_close env cid n s)"
  proof (cases "\<exists>i. dict_get (instruments s) n = Some i \<and> lock_owner i = Some cid")
    case True
    then obtain i where i: "dict_get (instruments s) n = Some i" "lock_owner i = Some cid" by blast
    from release_on_close_spec[OF i, of env] Cons.prems show ?thesis
      by (auto simp: owns_nothing_but_def dict_simps unlocked_def split: if_splits) blast+
  next
    case False
    then have "release_on_close env cid n s = s"
      by (intro release_on_close_other) (cases "dict_get (instruments s) n", auto)
    with False Cons.prems show ?thesis by (auto simp: owns_nothing_but_def)
  qed
  with Cons.IH show ?case by simp
qed (simp add: owns_nothing_but_def)

lemma owns_listed: "owns_nothing_but cid (set (list_instruments s)) s"
  by (auto simp: owns_nothing_but_def list_instruments_def dict_keys_get)

definition stop_running :: "int \<Rightarrow> 'w server \<Rightarrow> 'w server" where
  "stop_running cid = upd_client cid (\<lambda>c. c\<lparr>running := False\<rparr>)"

lemma stop_running_session:
  assumes "session_ok b cid s" "active s cid"
  shows "session_ok False cid (stop_running cid s)"
proof -
  obtain c where c: "dict_get (clients s) cid = Some c" using assms(2) by (auto simp: active_def split: option.splits)
  let ?d = "dict_set (clients s) cid (c\<lparr>running := False\<rparr>)"
  have a: "(\<lambda>x. x = cid \<or> active (s\<lparr>clients := ?d\<rparr>) x) = (\<lambda>x. x = cid \<or> active s x)"
      "active (s\<lparr>clients := ?d\<rparr>) cid = False"
    by (auto simp: active_def fun_eq_iff dict_simps)
  have g: "guarded (s\<lparr>clients := ?d\<rparr>) = guarded s" by (simp add: guarded_def fun_eq_iff)
  have m: "dict_mem ?d = dict_mem (clients s)" using c by (auto simp: fun_eq_iff dict_simps) (simp add: dict_mem_def)
  have "session_ok False cid (s\<lparr>clients := ?d\<rparr>)"
    using assms dict_set_length[OF c, of "c\<lparr>running := False\<rparr>"]
    by (auto simp: session_ok_def ok_defs instruments_ok_def a g m dict_ok_set)
  then show ?thesis by (simp add: stop_running_def upd_client_def c)
qed

text \<open>A closed session is named nowhere any more.\<close>

lemma session_closed:
  assumes "session_ok False cid s" "owns_nothing_but cid {} s"
    and "\<And>k. dict_get (owners (kv s)) k \<noteq> Some cid" "\<And>b. list_all (\<lambda>u. sub_handler u \<noteq> cid) (subs_of (bus s) b)"
  shows "server_ok s \<and> \<not> active s cid"
proof -
  have "owners_in (\<lambda>x. x \<noteq> cid) s"
    using assms(2-4) by (auto simp: owners_in_def locks_in_def keys_in_def subs_in_def owns_nothing_but_def)
  with assms(1) have "owners_in (\<lambda>x. (x = cid \<or> active s x) \<and> x \<noteq> cid) s"
    by (intro owners_in_both) (auto simp: session_ok_def)
  then have "owners_in (active s) s" by (rule owners_mono) auto
  with assms(1) show ?thesis by (simp add: server_ok_def session_ok_def)
qed

lemma publish_session_fields [simp]:
  "kv (publish_session env t sid kw s) = kv s"
  by (simp add: publish_session_def publish_on_def split: prod.splits)

lemma client_close_ok:
  assumes "session_ok b cid s" "active s cid"
  shows "server_ok (client_close env cid s) \<and> \<not> active (client_close env cid s) cid"
proof -
  obtain c where c: "dict_get (clients s) cid = Some c" "running c"
    using assms(2) by (auto simp: active_def split: option.splits)
  define s1 where "s1 = stop_running cid s"
  define s2 where "s2 = fold (release_on_close env cid) (list_instruments s1) s1"
  define s3 where "s3 = s2\<lparr>kv := release_owner (kv s2) cid\<rparr>"
  define s4 where "s4 = publish_session env ''disconnect'' cid [(''address'', JStr (address c))] s3"
  define s5 where "s5 = s4\<lparr>bus := snd (unsubscribe_all (bus s4) cid)\<rparr>"
  have e: "client_close env cid s = s5"
    using c by (simp add: client_close_def s5_def s4_def s3_def s2_def s1_def stop_running_def Let_def)
  have k1: "session_ok False cid s1" unfolding s1_def by (rule stop_running_session[OF assms])
  have k2: "session_ok False cid s2"
    unfolding s2_def by (rule fold_invariant_on[where P = "session_ok False cid"]) (auto intro: k1 release_on_close_session)
  have k3: "session_ok False cid s3"
    using session.keys[OF k2, of OpRelease] by (simp add: s3_def)
  have k4: "session_ok False cid s4"
    unfolding s4_def publish_session_def by (rule publish_on_session[OF k3])
  have k5: "session_ok False cid s5"
    unfolding s5_def by (rule bus_step_session[OF k4 unsubscribe_all_ok[OF session_okD(9)[OF k4]]])
      (auto simp: subs_of_unsubscribe_all)
  have "owns_nothing_but cid {} s2" unfolding s2_def by (rule release_all[OF owns_listed])
  then have o5: "owns_nothing_but cid {} s5" by (simp add: owns_nothing_but_def s5_def s4_def s3_def)
  have ow: "dict_get (owners (kv s5)) k \<noteq> Some cid" for k
    using release_owner_spec(1)[OF session_okD(7)[OF k2], of cid k] by (simp add: s5_def s4_def s3_def)
  have sb: "list_all (\<lambda>u. sub_handler u \<noteq> cid) (subs_of (bus s5) x)" for x
    by (simp add: s5_def subs_of_unsubscribe_all list_all_iff)
  show ?thesis unfolding e by (rule session_closed[OF k5 o5 ow sb])
qed

subsection \<open>Every event keeps the invariant\<close>

lemma server_ok_active: "server_ok s \<Longrightarrow> active s cid \<Longrightarrow> session_ok True cid s"
  by (simp add: session_ok_active)

lemma client_close_server: "server_ok s \<Longrightarrow> server_ok (client_close env cid s)"
proof (cases "active s cid")
  case True
  assume "server_ok s"
  from client_close_ok[OF server_ok_active[OF this True] True] show ?thesis by blast
next
  case False
  assume "server_ok s"
  with False show ?thesis by (auto simp: client_close_def active_def split: option.splits)
qed

lemma client_receive_ok: "server_ok s \<Longrightarrow> server_ok (client_receive env cid bytes s)"
proof (cases "active s cid \<and> bytes \<noteq> []")
  case False
  assume "server_ok s"
  with False show ?thesis
    by (auto simp: client_receive_def active_def split: option.splits intro: client_close_server)
next
  case True
  assume s: "server_ok s"
  then have "session_ok True cid s" using True by (simp add: server_ok_active)
  from True obtain c where c: "dict_get (clients s) cid = Some c" "running c"
    by (auto simp: active_def split: option.splits)
  obtain r p where f: "feed (parser c) bytes = (r, p)" by fastforce
  define s1 where "s1 = upd_client cid (\<lambda>c. c\<lparr>parser := p\<rparr>) s"
  have s1: "session_ok True cid s1" unfolding s1_def by (rule client_step) (use \<open>session_ok True cid s\<close> in auto)
  have close: "server_ok (client_close env cid t)" if "session_ok True cid t" for t
    using that by (intro client_close_server) (simp add: session_ok_active)
  show ?thesis
  proof (cases r)
    case (Inl e)
    have "session_ok True cid (snd (client_write env cid (error (error_text e)) s1))"
      by (rule client_write_session[OF s1])
    with s1 close c f Inl True show ?thesis
      by (cases e) (auto simp: client_receive_def s1_def[symmetric])
  next
    case (Inr ms)
    obtain w s2 where m: "process_messages env cid ms s1 = (w, s2)" by fastforce
    have "session_ok True cid s2" using process_messages_session[OF s1, of env ms] m by simp
    with close c f Inr True m show ?thesis
      by (cases w) (auto simp: client_receive_def s1_def[symmetric] session_ok_active)
  qed
qed

lemma client_connected_ok: "server_ok s \<Longrightarrow> server_ok (client_connected env peer s)"
proof -
  assume s: "server_ok s"
  show ?thesis
  proof (cases "max_clients s \<le> int (length (clients s))")
    case True
    then show ?thesis
      using s by (auto simp: client_connected_def server_ok_def ok_defs instruments_ok_def active_def guarded_def)
  next
    case False
    define k where "k = next_client_id s"
    define s' where "s' = client_connected env peer s"
    have new: "dict_get (clients s) k = None"
      using s by (auto simp: server_ok_def ok_defs k_def dict_mem_def)
    have i: "instruments s' = instruments s" "kv s' = kv s" "bus s' = bus s" "jrnl s' = jrnl s"
        "watches s' = watches s" "health_tasks s' = health_tasks s" "monitors s' = monitors s"
        "clients s' = dict_set (clients s) k (new_client (now env s) peer)" "next_client_id s' = k + 1"
        "max_clients s' = max_clients s"
      using False by (simp_all add: s'_def client_connected_def k_def Let_def)
    have a: "active s x \<Longrightarrow> active s' x" for x by (auto simp: active_def i dict_simps new_client_def split: option.splits)
    have g: "guarded s' = guarded s" by (simp add: guarded_def fun_eq_iff i)
    have "tables_ok s'"
      using s False dict_set_length_new[OF new, of "new_client (now env s) peer"]
      by (auto simp: server_ok_def ok_defs instruments_ok_def g i dict_ok_set dict_simps k_def list_all_iff)
    moreover have "owners_in (active s') s'"
      using s a by (auto simp: server_ok_def owners_in_def locks_in_def keys_in_def subs_in_def i list_all_iff)
    ultimately show ?thesis by (simp add: server_ok_def s'_def)
  qed
qed

lemma client_start_ok: "server_ok s \<Longrightarrow> server_ok (client_start env cid s)"
  by (erule server_ok_step) (auto simp: client_start_def publish_session_def publish_on_session split: option.splits)

lemma client_cleanup_ok: "server_ok s \<Longrightarrow> \<not> active s cid \<Longrightarrow> server_ok (client_cleanup cid s)"
proof -
  assume s: "server_ok s" and n: "\<not> active s cid"
  define s' where "s' = client_cleanup cid s"
  have i: "instruments s' = instruments s" "kv s' = kv s" "bus s' = bus s" "jrnl s' = jrnl s"
      "watches s' = watches s" "health_tasks s' = health_tasks s"
      "monitors s' = filter (\<lambda>m. m \<noteq> cid) (monitors s)"
      "clients s' = dict_del (clients s) cid" "next_client_id s' = next_client_id s" "max_clients s' = max_clients s"
    by (simp_all add: s'_def client_cleanup_def)
  have a: "active s' = active s" using n by (auto simp: active_def i dict_simps fun_eq_iff)
  have g: "guarded s' = guarded s" by (simp add: guarded_def fun_eq_iff i)
  have l: "length (dict_del (clients s) cid) \<le> length (clients s)"
    by (simp add: dict_del_def AList.delete_eq)
  have m: "list_all (dict_mem (dict_del (clients s) cid)) (filter (\<lambda>m. m \<noteq> cid) (monitors s))"
    using s by (auto simp: server_ok_def ok_defs dict_simps list.pred_set)
  have "server_ok s'"
    using s l m by (auto simp: server_ok_def ok_defs instruments_ok_def g a i dict_ok_del dict_mem_del)
  then show ?thesis by (simp add: s'_def)
qed

lemma background_ok:
  "server_ok s \<Longrightarrow> server_ok (run_spawned env s)"
  "server_ok s \<Longrightarrow> server_ok (watch_tick env name res s)"
  "server_ok s \<Longrightarrow> server_ok (health_tick env name s)"
  "server_ok s \<Longrightarrow> server_ok (s\<lparr>world := w\<rparr>)"
  by (erule server_ok_step;
      simp add: session.run_spawned_keeps session.watch_tick_keeps session.health_tick_keeps)+

lemma quiet_call_session: "session_ok b cid s \<Longrightarrow> session_ok b cid (snd (quietly (call_out func) s))"
  by (rule keepsD[OF keeps_quietly[OF session.call_out_keeps]])

lemma shutdown_session: "session_ok b cid s \<Longrightarrow> session_ok b cid (shutdown_instrument env name s)"
  by (auto simp: shutdown_instrument_def split: option.splits intro: quiet_call_session)

lemma close_and_cleanup_ok: "server_ok s \<Longrightarrow> server_ok (client_cleanup cid (client_close env cid s))"
proof (rule client_cleanup_ok)
  assume s: "server_ok s"
  then show "server_ok (client_close env cid s)" by (rule client_close_server)
  show "\<not> active (client_close env cid s) cid"
  proof (cases "active s cid")
    case True
    with client_close_ok[OF server_ok_active[OF s True]] show ?thesis by blast
  next
    case False
    then show ?thesis by (auto simp: client_close_def active_def split: option.splits)
  qed
qed

lemma server_stop_ok: "server_ok s \<Longrightarrow> server_ok (server_stop env s)"
proof -
  assume s: "server_ok s"
  define s1 where "s1 = s\<lparr>server_running := False\<rparr>"
  have s1: "server_ok s1" unfolding s1_def by (rule server_ok_step[OF s]) simp
  define s2 where "s2 = fold (\<lambda>cid s. client_cleanup cid (client_close env cid s)) (dict_keys (clients s1)) s1"
  have s2: "server_ok s2"
    unfolding s2_def by (rule fold_invariant_on[where P = server_ok, OF s1]) (rule close_and_cleanup_ok)
  define s3 where "s3 = health_stop_all (watch_stop_all s2)"
  have "session_ok b cid s3" if "session_ok b cid s2" for b cid
    unfolding s3_def health_stop_all_def watch_stop_all_def
    using that by (intro health_step watches_step) (auto simp: dict_mem_def)
  then have s3: "server_ok s3" by (rule server_ok_step[OF s2])
  have "server_ok (shutdown_instrument env n t)" if "server_ok t" for n t
    by (rule server_ok_step[OF that]) (rule shutdown_session)
  then have "server_ok (fold (shutdown_instrument env) (list_instruments s3) s3)"
    by (intro fold_invariant_on[where P = server_ok]) (auto simp: s3)
  with s show ?thesis by (simp add: server_stop_def s3_def s2_def s1_def Let_def)
qed

lemma new_server_ok: "server_ok (new_server h p m t j n w)"
  by (simp add: server_ok_def ok_defs instruments_ok_def new_server_def new_store_ok[unfolded new_store_def] new_journal_ok bus_ok_def
      subs_of_def new_store_def dict_mem_def dict_ok_def)

lemma load_bench_ok: "server_ok s \<Longrightarrow> server_ok (snd (load_bench_config env path s))"
proof -
  assume s: "server_ok s"
  have line: "server_ok (snd (bench_line env raw ns))" if "server_ok (snd ns)" for raw ns
  proof -
    obtain n t where ns: "ns = (n, t)" by fastforce
    obtain r t' where r: "handle_instrument_add env (words (strip raw)) boot_context t = (r, t')" by fastforce
    have "server_ok (snd (handle_instrument_add env (words (strip raw)) boot_context t))"
    proof (rule server_ok_step[of t])
      show "server_ok t" using that by (simp add: ns)
      show "session_ok b cid (snd (handle_instrument_add env (words (strip raw)) boot_context t))"
        if "session_ok b cid t" for b cid
        by (rule keepsD[OF session.handle_add_keeps that])
    qed
    then have "server_ok t'" by (simp add: r)
    moreover have "server_ok t" using that by (simp add: ns)
    ultimately show ?thesis
      unfolding bench_line_def ns prod.case Let_def r
      by (cases r) (simp_all only: sum.case snd_conv split: if_split, blast+)
  qed
  have "server_ok (snd (fold (bench_line env) ls (0, s)))" for ls
    by (rule fold_invariant_on[where P = "\<lambda>ns. server_ok (snd ns)"]) (use s line in auto)
  with s show ?thesis by (auto simp: load_bench_config_def split: option.splits)
qed

subsection \<open>Events and reachable states\<close>

datatype 'w event =
    EvConnect string
  | EvStart int
  | EvReceive int string
  | EvDone int
  | EvSpawned
  | EvWatch string string
  | EvHealth string
  | EvWorld 'w
  | EvStop

fun run_event :: "'w env \<Rightarrow> 'w event \<Rightarrow> 'w server \<Rightarrow> 'w server" where
  "run_event env (EvConnect peer) s = client_connected env peer s"
| "run_event env (EvStart cid) s = client_start env cid s"
| "run_event env (EvReceive cid bytes) s = client_receive env cid bytes s"
| "run_event env (EvDone cid) s = client_cleanup cid s"
| "run_event env EvSpawned s = run_spawned env s"
| "run_event env (EvWatch name res) s = watch_tick env name res s"
| "run_event env (EvHealth name) s = health_tick env name s"
| "run_event env (EvWorld w) s = s\<lparr>world := w\<rparr>"
| "run_event env EvStop s = server_stop env s"

text \<open>A client's task is done only after its session was closed.\<close>

fun enabled :: "'w event \<Rightarrow> 'w server \<Rightarrow> bool" where
  "enabled (EvDone cid) s = (\<not> active s cid)"
| "enabled _ s = True"

inductive reachable :: "'w env \<Rightarrow> 'w server \<Rightarrow> bool" for env where
  start: "reachable env (main env args w)"
| step: "reachable env s \<Longrightarrow> enabled e s \<Longrightarrow> reachable env (run_event env e s)"

inductive_cases reachable_stepE: "reachable env s"

lemma run_event_ok: "server_ok s \<Longrightarrow> enabled e s \<Longrightarrow> server_ok (run_event env e s)"
  by (cases e) (auto intro: client_connected_ok client_start_ok client_receive_ok client_cleanup_ok
      background_ok server_stop_ok)

lemma server_start_ok: "server_ok s \<Longrightarrow> server_ok (server_start s)"
  by (erule server_ok_step) (simp add: server_start_def)

lemma main_ok: "server_ok (main env args w)"
  by (auto simp: main_def run_server_def Let_def intro!: server_start_ok load_bench_ok new_server_ok split: option.splits)

lemma reachable_ok: "reachable env s \<Longrightarrow> server_ok s"
  by (induction rule: reachable.induct) (auto intro: main_ok run_event_ok)

end
