(* ===== verification/Drivers.thy ===== *)
theory Drivers
  imports Environment Protocol
begin

text \<open>
  The drivers that come with the server: \<open>testcore/base_driver.py\<close>'s \<open>ScpiDriver\<close>, and
  \<open>generic_scpi\<close>, \<open>agilent33500\<close> and \<open>dryrun\<close> of \<open>testcore/drivers\<close>.

  A method reads and changes the driver object and the world outside, and returns a value or raises.
  The transports and the files are the parameter \<open>hardware\<close>.
\<close>

subsection \<open>Method calls\<close>

type_synonym ('a, 'd, 'w) call = "'d \<times> 'w \<Rightarrow> 'a outcome \<times> ('d \<times> 'w)"

definition give :: "'a \<Rightarrow> ('a, 'd, 'w) call" where
  "give v s = (Ret v, s)"

definition throw :: "string \<Rightarrow> ('a, 'd, 'w) call" where
  "throw e s = (RaisesDriver e, s)"

definition throw_other :: "string \<Rightarrow> ('a, 'd, 'w) call" where
  "throw_other e s = (Raises e, s)"

definition then_call :: "('a, 'd, 'w) call \<Rightarrow> ('a \<Rightarrow> ('b, 'd, 'w) call) \<Rightarrow> ('b, 'd, 'w) call" where
  "then_call m f s =
     (case m s of
        (Ret v, s') \<Rightarrow> f v s'
      | (RaisesDriver e, s') \<Rightarrow> (RaisesDriver e, s')
      | (TimesOut e, s') \<Rightarrow> (TimesOut e, s')
      | (Raises e, s') \<Rightarrow> (Raises e, s'))"

text \<open>\<open>except Exception as e\<close>; the handler gets \<open>str(e)\<close>.\<close>

definition except_any :: "('a, 'd, 'w) call \<Rightarrow> (string \<Rightarrow> ('a, 'd, 'w) call) \<Rightarrow> ('a, 'd, 'w) call" where
  "except_any m h s =
     (case m s of
        (Ret v, s') \<Rightarrow> (Ret v, s')
      | (RaisesDriver e, s') \<Rightarrow> h e s'
      | (TimesOut e, s') \<Rightarrow> h e s'
      | (Raises e, s') \<Rightarrow> h e s')"

definition self :: "('d \<Rightarrow> 'a) \<Rightarrow> ('a, 'd, 'w) call" where
  "self f s = (Ret (f (fst s)), s)"

definition set_self :: "('d \<Rightarrow> 'd) \<Rightarrow> (unit, 'd, 'w) call" where
  "set_self f s = (Ret (), (f (fst s), snd s))"

definition outside_call :: "('w \<Rightarrow> 'a outcome \<times> 'w) \<Rightarrow> ('a, 'd, 'w) call" where
  "outside_call f s = (case f (snd s) of (r, w) \<Rightarrow> (r, (fst s, w)))"

named_theorems call_simps \<open>unfolding method calls\<close>

lemma call_unfold [call_simps]:
  "give v s = (Ret v, s)" "throw e s = (RaisesDriver e, s)" "throw_other e s = (Raises e, s)"
  "self f s = (Ret (f (fst s)), s)" "set_self g s = (Ret (), (g (fst s), snd s))"
  "outside_call h s = (case h (snd s) of (r, w) \<Rightarrow> (r, (fst s, w)))"
  by (simp_all add: give_def throw_def throw_other_def self_def set_self_def outside_call_def)

lemma then_call_unfold [call_simps]:
  "then_call m f s =
     (case m s of
        (Ret v, s') \<Rightarrow> f v s'
      | (RaisesDriver e, s') \<Rightarrow> (RaisesDriver e, s')
      | (TimesOut e, s') \<Rightarrow> (TimesOut e, s')
      | (Raises e, s') \<Rightarrow> (Raises e, s'))"
  by (simp add: then_call_def)

lemma except_any_unfold [call_simps]:
  "except_any m h s =
     (case m s of
        (Ret v, s') \<Rightarrow> (Ret v, s')
      | (RaisesDriver e, s') \<Rightarrow> h e s'
      | (TimesOut e, s') \<Rightarrow> h e s'
      | (Raises e, s') \<Rightarrow> h e s')"
  by (simp add: except_any_def)

subsection \<open>Hardware and files\<close>

text \<open>Reading a text file: the lines it gives, with their ends, and the exception reading may end with.
  A \<open>UnicodeDecodeError\<close> is a \<open>ValueError\<close>.\<close>

datatype file_error = ValueErr string | OtherErr string

fun file_error_text :: "file_error \<Rightarrow> string" where
  "file_error_text (ValueErr e) = e"
| "file_error_text (OtherErr e) = e"

datatype text_file = NotFound | Unreadable file_error | Lines "string list" "file_error option"

record 'w hardware =
  l_send :: "nat \<Rightarrow> string \<Rightarrow> 'w \<Rightarrow> unit outcome \<times> 'w"
  l_query :: "nat \<Rightarrow> string \<Rightarrow> 'w \<Rightarrow> string outcome \<times> 'w"
  l_close :: "nat \<Rightarrow> 'w \<Rightarrow> unit outcome \<times> 'w"
  l_open :: "transport_spec \<Rightarrow> 'w \<Rightarrow> nat outcome \<times> 'w"
  open_text :: "string \<Rightarrow> 'w \<Rightarrow> text_file"
  write_file :: "string \<Rightarrow> string \<Rightarrow> 'w \<Rightarrow> unit outcome \<times> 'w"

text \<open>A hardware that records the commands and answers every query with the same line; examples run on it.\<close>

definition recorder :: "string list hardware" where
  "recorder =
     \<lparr> l_send = (\<lambda>_ c w. (Ret (), w @ [c])), l_query = (\<lambda>_ c w. (Ret ''TestCore,Recorder,1,0'', w @ [c])),
       l_close = (\<lambda>_ w. (Ret (), w)), l_open = (\<lambda>_ w. (Ret 7, w)),
       open_text = (\<lambda>_ _. NotFound), write_file = (\<lambda>_ _ w. (Ret (), w)) \<rparr>"

subsection \<open>ScpiDriver\<close>

record scpi =
  scpi_transport :: "nat option"
  scpi_connected :: bool

definition new_scpi :: scpi where
  "new_scpi = \<lparr> scpi_transport = None, scpi_connected = False \<rparr>"

definition scpi_connect :: "connect_config \<Rightarrow> (unit, 'z scpi_scheme, 'w) call" where
  "scpi_connect cfg =
     then_call (set_self (\<lambda>d. d\<lparr>scpi_transport := cfg_transport cfg\<rparr>)) (\<lambda>_.
       if cfg_transport cfg = None then throw ''no transport: IADD requires an address for this driver''
       else set_self (\<lambda>d. d\<lparr>scpi_connected := True\<rparr>))"

definition scpi_disconnect :: "'w hardware \<Rightarrow> (unit, 'z scpi_scheme, 'w) call" where
  "scpi_disconnect hw =
     then_call (then_call (self scpi_transport) (\<lambda>t.
       case t of
         None \<Rightarrow> give ()
       | Some h \<Rightarrow>
           then_call (except_any (outside_call (l_close hw h)) (\<lambda>_. give ())) (\<lambda>_.
             set_self (\<lambda>d. d\<lparr>scpi_transport := None\<rparr>)))) (\<lambda>_.
       set_self (\<lambda>d. d\<lparr>scpi_connected := False\<rparr>))"

definition scpi_send :: "'w hardware \<Rightarrow> string \<Rightarrow> (unit, 'z scpi_scheme, 'w) call" where
  "scpi_send hw command =
     then_call (self scpi_transport) (\<lambda>t.
       case t of None \<Rightarrow> throw ''not connected'' | Some h \<Rightarrow> outside_call (l_send hw h command))"

definition scpi_query :: "'w hardware \<Rightarrow> string \<Rightarrow> (string, 'z scpi_scheme, 'w) call" where
  "scpi_query hw command =
     then_call (self scpi_transport) (\<lambda>t.
       case t of None \<Rightarrow> throw ''not connected'' | Some h \<Rightarrow> outside_call (l_query hw h command))"

definition scpi_idn :: "'w hardware \<Rightarrow> (string, 'z scpi_scheme, 'w) call" where
  "scpi_idn hw = scpi_query hw ''*IDN?''"

definition scpi_rst :: "'w hardware \<Rightarrow> (unit, 'z scpi_scheme, 'w) call" where
  "scpi_rst hw = scpi_send hw ''*RST''"

definition scpi_cls :: "'w hardware \<Rightarrow> (unit, 'z scpi_scheme, 'w) call" where
  "scpi_cls hw = scpi_send hw ''*CLS''"

definition scpi_opc :: "'w hardware \<Rightarrow> (string, 'z scpi_scheme, 'w) call" where
  "scpi_opc hw = scpi_query hw ''*OPC?''"

definition scpi_tst :: "'w hardware \<Rightarrow> (string, 'z scpi_scheme, 'w) call" where
  "scpi_tst hw = scpi_query hw ''*TST?''"

definition scpi_error :: "'w hardware \<Rightarrow> (string, 'z scpi_scheme, 'w) call" where
  "scpi_error hw = scpi_query hw ''SYST:ERR?''"

definition scpi_wait_complete :: "'w hardware \<Rightarrow> (unit, 'z scpi_scheme, 'w) call" where
  "scpi_wait_complete hw = then_call (scpi_opc hw) (\<lambda>_. give ())"

definition scpi_load :: "string \<Rightarrow> string \<Rightarrow> (string, 'z scpi_scheme, 'w) call" where
  "scpi_load target path = throw ''load not supported by this driver''"

definition scpi_save :: "string \<Rightarrow> string \<Rightarrow> (string, 'z scpi_scheme, 'w) call" where
  "scpi_save target path = throw ''save not supported by this driver''"

definition scpi_init :: "'w hardware \<Rightarrow> bool \<Rightarrow> (unit, 'z scpi_scheme, 'w) call" where
  "scpi_init hw selftest =
     then_call (scpi_rst hw) (\<lambda>_.
     then_call (scpi_cls hw) (\<lambda>_.
       if selftest then
         then_call (scpi_tst hw) (\<lambda>r.
           if strip r \<noteq> ''0'' then throw (''self-test failed: '' @ r) else give ())
       else give ()))"

definition scpi_passthrough :: "'w hardware \<Rightarrow> string \<Rightarrow> (string, 'z scpi_scheme, 'w) call" where
  "scpi_passthrough hw command =
     (if endswith (rstrip command) ''?'' then scpi_query hw command
      else then_call (scpi_send hw command) (\<lambda>_. give ''OK''))"

definition scpi_safe_state :: "'w hardware \<Rightarrow> (unit, 'z scpi_scheme, 'w) call" where
  "scpi_safe_state hw = except_any (scpi_rst hw) (\<lambda>_. give ())"

definition unknown_info :: "(string \<times> string) list" where
  "unknown_info = map (\<lambda>k. (k, ''unknown'')) [''vendor'', ''model'', ''serial'', ''version'']"

definition scpi_info :: "'w hardware \<Rightarrow> ((string \<times> string) list, 'z scpi_scheme, 'w) call" where
  "scpi_info hw =
     except_any
       (then_call (scpi_idn hw) (\<lambda>idn.
          let parts = map strip (split_all (CHR '','') idn);
              part = (\<lambda>i. if i < length parts then parts ! i else ''unknown'')
          in give [(''vendor'', part 0), (''model'', part 1), (''serial'', part 2), (''version'', part 3)]))
       (\<lambda>_. give unknown_info)"

subsection \<open>GenericScpiDriver\<close>

text \<open>A configuration file, line by line; the first line that cannot be sent ends it.\<close>

fun send_lines :: "'w hardware \<Rightarrow> string list \<Rightarrow> (unit, 'z scpi_scheme, 'w) call" where
  "send_lines hw [] = give ()"
| "send_lines hw (raw # rest) =
     (let line = strip raw in
      if line \<noteq> [] \<and> \<not> startswith line ''#''
      then then_call (scpi_send hw line) (\<lambda>_. send_lines hw rest)
      else send_lines hw rest)"

definition generic_configure :: "'w hardware \<Rightarrow> string \<Rightarrow> (unit, 'z scpi_scheme, 'w) call" where
  "generic_configure hw path s =
     (case open_text hw path (snd s) of
        NotFound \<Rightarrow> throw (''config file not found: '' @ path) s
      | Unreadable e \<Rightarrow> throw (''config error: '' @ file_error_text e) s
      | Lines ls err \<Rightarrow>
          except_any
            (then_call (send_lines hw ls) (\<lambda>_.
               case err of None \<Rightarrow> give () | Some e \<Rightarrow> throw_other (file_error_text e)))
            (\<lambda>e. throw (''config error: '' @ e)) s)"

definition generic_discover :: "(string list, 'z scpi_scheme, 'w) call" where
  "generic_discover = give []"

definition no_resource :: "string \<Rightarrow> string" where
  "no_resource resource =
     ''unknown resource '' @ squote # resource @ squote #
     '' (generic_scpi has no mapped resources, use IRAW for direct SCPI commands)''"

definition generic_read :: "string \<Rightarrow> (string, 'z scpi_scheme, 'w) call" where
  "generic_read resource = throw (no_resource resource)"

definition generic_write :: "string \<Rightarrow> string \<Rightarrow> (unit, 'z scpi_scheme, 'w) call" where
  "generic_write resource val = throw (no_resource resource)"

subsection \<open>Agilent33500Driver\<close>

text \<open>Resource name, query, write template, prefix other than \<open>SOUR\<close>.\<close>

definition RESOURCES :: "(string \<times> string \<times> string \<times> string option) list" where
  "RESOURCES =
     [(''FUNC'', ''FUNC?'', ''FUNC {value}'', None),
      (''OUTPUT'', ''STAT?'', ''STAT {value}'', Some ''OUTP''),
      (''LOAD'', ''LOAD?'', ''LOAD {value}'', Some ''OUTP''),
      (''POLARITY'', ''POL?'', ''POL {value}'', Some ''OUTP''),
      (''AMPL'', ''VOLT?'', ''VOLT {value}'', None),
      (''OFFSET'', ''VOLT:OFFS?'', ''VOLT:OFFS {value}'', None),
      (''HIGH'', ''VOLT:HIGH?'', ''VOLT:HIGH {value}'', None),
      (''LOW'', ''VOLT:LOW?'', ''VOLT:LOW {value}'', None),
      (''UNIT'', ''VOLT:UNIT?'', ''VOLT:UNIT {value}'', None),
      (''AUTORANGE'', ''VOLT:RANG:AUTO?'', ''VOLT:RANG:AUTO {value}'', None),
      (''FREQ'', ''FREQ?'', ''FREQ {value}'', None),
      (''FREQ_MODE'', ''FREQ:MODE?'', ''FREQ:MODE {value}'', None),
      (''FREQ_START'', ''FREQ:STAR?'', ''FREQ:STAR {value}'', None),
      (''FREQ_STOP'', ''FREQ:STOP?'', ''FREQ:STOP {value}'', None),
      (''FREQ_CENTER'', ''FREQ:CENT?'', ''FREQ:CENT {value}'', None),
      (''FREQ_SPAN'', ''FREQ:SPAN?'', ''FREQ:SPAN {value}'', None),
      (''PULSE_WIDTH'', ''FUNC:PULS:WIDT?'', ''FUNC:PULS:WIDT {value}'', None),
      (''PULSE_DUTY'', ''FUNC:PULS:DCYC?'', ''FUNC:PULS:DCYC {value}'', None),
      (''PULSE_PERIOD'', ''FUNC:PULS:PER?'', ''FUNC:PULS:PER {value}'', None),
      (''LEAD_EDGE'', ''FUNC:PULS:TRAN:LEAD?'', ''FUNC:PULS:TRAN:LEAD {value}'', None),
      (''TRAIL_EDGE'', ''FUNC:PULS:TRAN:TRA?'', ''FUNC:PULS:TRAN:TRA {value}'', None),
      (''EDGE_TIME'', ''FUNC:PULS:TRAN?'', ''FUNC:PULS:TRAN {value}'', None),
      (''SQUARE_DUTY'', ''FUNC:SQU:DCYC?'', ''FUNC:SQU:DCYC {value}'', None),
      (''RAMP_SYMMETRY'', ''FUNC:RAMP:SYMM?'', ''FUNC:RAMP:SYMM {value}'', None),
      (''ARB_FUNC'', ''FUNC:ARB?'', ''FUNC:ARB {value}'', None),
      (''ARB_SRATE'', ''FUNC:ARB:SRAT?'', ''FUNC:ARB:SRAT {value}'', None),
      (''ARB_FILTER'', ''FUNC:ARB:FILT?'', ''FUNC:ARB:FILT {value}'', None),
      (''ARB_PTPEAK'', ''FUNC:ARB:PTP?'', ''FUNC:ARB:PTP {value}'', None),
      (''ARB_ADVANCE'', ''FUNC:ARB:ADV?'', ''FUNC:ARB:ADV {value}'', None),
      (''SWEEP'', ''SWE:STAT?'', ''SWE:STAT {value}'', None),
      (''SWEEP_TIME'', ''SWE:TIME?'', ''SWE:TIME {value}'', None),
      (''SWEEP_SPACING'', ''SWE:SPAC?'', ''SWE:SPAC {value}'', None),
      (''SWEEP_HOLD'', ''SWE:HTIM?'', ''SWE:HTIM {value}'', None),
      (''SWEEP_RETURN'', ''SWE:RTIM?'', ''SWE:RTIM {value}'', None),
      (''BURST'', ''BURS:STAT?'', ''BURS:STAT {value}'', None),
      (''BURST_MODE'', ''BURS:MODE?'', ''BURS:MODE {value}'', None),
      (''BURST_CYCLES'', ''BURS:NCYC?'', ''BURS:NCYC {value}'', None),
      (''BURST_PHASE'', ''BURS:PHAS?'', ''BURS:PHAS {value}'', None),
      (''BURST_PERIOD'', ''BURS:INT:PER?'', ''BURS:INT:PER {value}'', None),
      (''BURST_GATE'', ''BURS:GATE:POL?'', ''BURS:GATE:POL {value}'', None),
      (''TRIG_SOURCE'', ''SOUR?'', ''SOUR {value}'', Some ''TRIG''),
      (''TRIG_SLOPE'', ''SLOP?'', ''SLOP {value}'', Some ''TRIG''),
      (''TRIG_OUT'', ''TRIG?'', ''TRIG {value}'', Some ''OUTP''),
      (''TRIG_OUT_SLOPE'', ''TRIG:SLOP?'', ''TRIG:SLOP {value}'', Some ''OUTP''),
      (''SYNC'', ''SYNC?'', ''SYNC {value}'', Some ''OUTP''),
      (''SYNC_MODE'', ''SYNC:MODE?'', ''SYNC:MODE {value}'', Some ''OUTP''),
      (''SYNC_POLARITY'', ''SYNC:POL?'', ''SYNC:POL {value}'', Some ''OUTP''),
      (''SYNC_SOURCE'', ''SYNC:SOUR?'', ''SYNC:SOUR {value}'', Some ''OUTP'')]"

record agilent = scpi +
  channels :: int

definition new_agilent :: agilent where
  "new_agilent = \<lparr> scpi_transport = None, scpi_connected = False, channels = 1 \<rparr>"

definition agilent_connect :: "'w hardware \<Rightarrow> connect_config \<Rightarrow> (unit, agilent, 'w) call" where
  "agilent_connect hw cfg =
     then_call (scpi_connect cfg) (\<lambda>_.
     then_call (scpi_idn hw) (\<lambda>idn.
       if contains idn ''33522'' then set_self (\<lambda>d. d\<lparr>channels := 2\<rparr>) else give ()))"

text \<open>The two commands that switch the outputs off.\<close>

definition outputs_off :: "'w hardware \<Rightarrow> (unit, agilent, 'w) call" where
  "outputs_off hw =
     then_call (scpi_send hw ''OUTP1 OFF'') (\<lambda>_.
     then_call (self channels) (\<lambda>n.
       if n = 2 then scpi_send hw ''OUTP2 OFF'' else give ()))"

definition agilent_init :: "'w hardware \<Rightarrow> bool \<Rightarrow> (unit, agilent, 'w) call" where
  "agilent_init hw selftest = then_call (scpi_init hw selftest) (\<lambda>_. outputs_off hw)"

definition agilent_configure :: "'w hardware \<Rightarrow> string \<Rightarrow> (unit, agilent, 'w) call" where
  "agilent_configure = generic_configure"

definition agilent_discover :: "(string list, agilent, 'w) call" where
  "agilent_discover =
     then_call (self channels) (\<lambda>n.
       if n = 1 then give (sort (map (\<lambda>r. ''CH1:'' @ fst r) RESOURCES))
       else
         let prefix = ''CH['' @ join ''|'' (map show_int [1..n]) @ '']''
         in give (sort (map (\<lambda>r. prefix @ '':'' @ fst r) RESOURCES)))"

definition isdigit :: "string \<Rightarrow> bool" where
  "isdigit s = (s \<noteq> [] \<and> list_all (\<lambda>c. c \<in> set digit_chars) s)"

definition parse_resource :: "string \<Rightarrow> (int \<times> string, agilent, 'w) call" where
  "parse_resource resource =
     (case split_first colon resource of
        (_, None) \<Rightarrow> throw (''invalid resource '' @ squote # resource @ squote # '', expected CHn:NAME'')
      | (ch, Some name) \<Rightarrow>
          if \<not> startswith ch ''CH'' \<or> \<not> isdigit (drop 2 ch)
          then throw (''invalid channel '' @ squote # ch @ squote # '', expected CH1 or CH2'')
          else
            then_call (self channels) (\<lambda>n.
              case read_int (drop 2 ch) of
                None \<Rightarrow> throw_other (''invalid literal for int() with base 10: '' @ repr_str (drop 2 ch))
              | Some channel \<Rightarrow>
                  if channel < 1 \<or> n < channel
                  then throw (''channel '' @ show_int channel @ '' not available (instrument has ''
                              @ show_int n @ '' channel(s))'')
                  else give (channel, name)))"

text \<open>\<open>template.format(value=value)\<close>: the templates have the one field \<open>{value}\<close>.\<close>

definition format_value :: "string \<Rightarrow> string \<Rightarrow> string" where
  "format_value template val =
     (case find_sub ''{value}'' template of
        None \<Rightarrow> template
      | Some k \<Rightarrow> take k template @ val @ drop (k + 7) template)"

definition agilent_read :: "'w hardware \<Rightarrow> string \<Rightarrow> (string, agilent, 'w) call" where
  "agilent_read hw resource =
     then_call (parse_resource resource) (\<lambda>(channel, name).
       case map_of RESOURCES name of
         None \<Rightarrow> throw (''unknown resource: '' @ resource)
       | Some (query, _, pre) \<Rightarrow>
           then_call (scpi_query hw ((case pre of Some p \<Rightarrow> p | None \<Rightarrow> ''SOUR'') @ show_int channel @ '':'' @ query))
             (\<lambda>r. give (strip r)))"

definition agilent_write :: "'w hardware \<Rightarrow> string \<Rightarrow> string \<Rightarrow> (unit, agilent, 'w) call" where
  "agilent_write hw resource val =
     then_call (parse_resource resource) (\<lambda>(channel, name).
       case map_of RESOURCES name of
         None \<Rightarrow> throw (''unknown resource: '' @ resource)
       | Some (_, template, pre) \<Rightarrow>
           scpi_send hw ((case pre of Some p \<Rightarrow> p | None \<Rightarrow> ''SOUR'') @ show_int channel @ '':''
                         @ format_value template val))"

definition arb_load :: "'w hardware \<Rightarrow> int \<Rightarrow> string \<Rightarrow> pyfloat list \<Rightarrow> (unit, agilent, 'w) call" where
  "arb_load hw channel name points =
     scpi_send hw (''SOUR'' @ show_int channel @ '':DATA:ARB '' @ name @ '','' @ join '','' (map show_float points))"

text \<open>The points of a waveform file, or the token that is no number.\<close>

fun read_points :: "string list \<Rightarrow> string + pyfloat list" where
  "read_points [] = Inr []"
| "read_points (token # rest) =
     (if strip token = [] then read_points rest
      else case read_float (strip token) of
        None \<Rightarrow> Inl (strip token)
      | Some v \<Rightarrow> map_sum id ((#) v) (read_points rest))"

definition data_tokens :: "string list \<Rightarrow> string list" where
  "data_tokens ls =
     concat (map (split_all (CHR '',''))
       (filter (\<lambda>line. line \<noteq> [] \<and> \<not> startswith line ''#'') (map strip ls)))"

definition agilent_load :: "'w hardware \<Rightarrow> string \<Rightarrow> string \<Rightarrow> (string, agilent, 'w) call" where
  "agilent_load hw target path =
     then_call (parse_resource target) (\<lambda>(channel, name) s.
       case open_text hw path (snd s) of
         NotFound \<Rightarrow> throw (''file not found: '' @ path) s
       | Unreadable (ValueErr e) \<Rightarrow> throw (''invalid data in CSV: '' @ e) s
       | Unreadable (OtherErr e) \<Rightarrow> throw_other e s
       | Lines ls err \<Rightarrow>
           (case read_points (data_tokens ls) of
              Inl token \<Rightarrow> throw (''invalid data in CSV: could not convert string to float: '' @ repr_str token) s
            | Inr points \<Rightarrow>
                (case err of
                   Some (ValueErr e) \<Rightarrow> throw (''invalid data in CSV: '' @ e) s
                 | Some (OtherErr e) \<Rightarrow> throw_other e s
                 | None \<Rightarrow>
                     if length points < 8
                     then throw (''waveform too short ('' @ show_nat (length points) @ '' points), minimum 8'') s
                     else
                       then_call (arb_load hw channel name points) (\<lambda>_.
                         give (show_nat (length points) @ '' points loaded'')) s)))"

definition agilent_safe_state :: "'w hardware \<Rightarrow> (unit, agilent, 'w) call" where
  "agilent_safe_state hw = except_any (outputs_off hw) (\<lambda>_. give ())"

definition agilent_apply :: "'w hardware \<Rightarrow> int \<Rightarrow> string \<Rightarrow> string \<Rightarrow> string \<Rightarrow> string \<Rightarrow> (unit, agilent, 'w) call" where
  "agilent_apply hw channel func freq ampl offs =
     scpi_send hw (''SOUR'' @ show_int channel @ '':APPL:'' @ func @ '' '' @ freq @ '','' @ ampl @ '','' @ offs)"

definition arb_clear :: "'w hardware \<Rightarrow> (unit, agilent, 'w) call" where
  "arb_clear hw = scpi_send hw ''DATA:VOL:CLE''"

definition stripped_query :: "'w hardware \<Rightarrow> string \<Rightarrow> (string, agilent, 'w) call" where
  "stripped_query hw command = then_call (scpi_query hw command) (\<lambda>r. give (strip r))"

definition arb_catalog :: "'w hardware \<Rightarrow> (string, agilent, 'w) call" where
  "arb_catalog hw = stripped_query hw ''DATA:VOL:CAT?''"

definition in_quotes :: "string \<Rightarrow> string" where
  "in_quotes s = dquote # s @ [dquote]"

definition mem_load :: "'w hardware \<Rightarrow> string \<Rightarrow> (unit, agilent, 'w) call" where
  "mem_load hw filename = scpi_send hw (''MMEM:LOAD:DATA '' @ in_quotes filename)"

definition mem_store :: "'w hardware \<Rightarrow> int \<Rightarrow> string \<Rightarrow> (unit, agilent, 'w) call" where
  "mem_store hw channel filename = scpi_send hw (''MMEM:STOR:DATA'' @ show_int channel @ '' '' @ in_quotes filename)"

definition mem_catalog :: "'w hardware \<Rightarrow> string \<Rightarrow> (string, agilent, 'w) call" where
  "mem_catalog hw directory =
     stripped_query hw (if directory = [] then ''MMEM:CAT?'' else ''MMEM:CAT? '' @ in_quotes directory)"

definition mem_delete :: "'w hardware \<Rightarrow> string \<Rightarrow> (unit, agilent, 'w) call" where
  "mem_delete hw filename = scpi_send hw (''MMEM:DEL '' @ in_quotes filename)"

subsection \<open>DryRunDriver\<close>

text \<open>The server gives a driver its address and transport only, so the simulated instrument always has its
  default resources and identity.\<close>

record dryrun =
  dry_state :: "(string, string) dict"
  dry_info :: "(string \<times> string) list"

definition DRYRUN_RESOURCES :: "string list" where
  "DRYRUN_RESOURCES = [''CH1'', ''CH2'', ''VOUT'', ''FREQ'']"

definition dryrun_connect :: "connect_config \<Rightarrow> (unit, dryrun, 'w) call" where
  "dryrun_connect cfg =
     set_self (\<lambda>d. d\<lparr>dry_state := map (\<lambda>r. (r, ''0.0'')) DRYRUN_RESOURCES,
       dry_info := [(''vendor'', ''TestCore''), (''model'', ''DryRun''), (''serial'', ''000000''), (''version'', ''0.3.0'')]\<rparr>)"

definition dryrun_disconnect :: "(unit, dryrun, 'w) call" where
  "dryrun_disconnect = set_self (\<lambda>d. d\<lparr>dry_state := []\<rparr>)"

definition dryrun_init :: "bool \<Rightarrow> (unit, dryrun, 'w) call" where
  "dryrun_init selftest = set_self (\<lambda>d. d\<lparr>dry_state := map (\<lambda>(r, _). (r, ''0.0'')) (dry_state d)\<rparr>)"

definition dryrun_configure :: "string \<Rightarrow> (unit, dryrun, 'w) call" where
  "dryrun_configure path = give ()"

definition dryrun_discover :: "(string list, dryrun, 'w) call" where
  "dryrun_discover = self (\<lambda>d. dict_keys (dry_state d))"

definition dryrun_read :: "string \<Rightarrow> (string, dryrun, 'w) call" where
  "dryrun_read resource =
     then_call (self (\<lambda>d. dict_get (dry_state d) resource)) (\<lambda>v.
       case v of None \<Rightarrow> throw (''unknown resource: '' @ resource) | Some x \<Rightarrow> give x)"

definition dryrun_write :: "string \<Rightarrow> string \<Rightarrow> (unit, dryrun, 'w) call" where
  "dryrun_write resource val =
     then_call (self (\<lambda>d. dict_mem (dry_state d) resource)) (\<lambda>known.
       if \<not> known then throw (''unknown resource: '' @ resource)
       else set_self (\<lambda>d. d\<lparr>dry_state := dict_set (dry_state d) resource val\<rparr>))"

definition dryrun_load :: "'w hardware \<Rightarrow> string \<Rightarrow> string \<Rightarrow> (string, dryrun, 'w) call" where
  "dryrun_load hw target path s =
     (case open_text hw path (snd s) of
        NotFound \<Rightarrow> throw (''file not found: '' @ path) s
      | Unreadable e \<Rightarrow> throw_other (file_error_text e) s
      | Lines ls (Some e) \<Rightarrow> throw_other (file_error_text e) s
      | Lines ls None \<Rightarrow>
          then_call (set_self (\<lambda>d. d\<lparr>dry_state := dict_set (dry_state d) (''_loaded:'' @ target) path\<rparr>)) (\<lambda>_.
            give (show_nat (length (filter (\<lambda>line. strip line \<noteq> [] \<and> \<not> startswith line ''#'') ls))
                  @ '' points loaded'')) s)"

definition PNG_BYTES :: string where
  "PNG_BYTES = CHR 0x89 # ''PNG'' @ [CHR 0x0D, CHR 0x0A, CHR 0x1A, CHR 0x0A] @ replicate 64 (CHR 0x00)"

definition dryrun_save :: "'w hardware \<Rightarrow> string \<Rightarrow> string \<Rightarrow> (string, dryrun, 'w) call" where
  "dryrun_save hw target path =
     (if target = ''SCREEN'' then
        then_call (outside_call (write_file hw path PNG_BYTES)) (\<lambda>_.
          give (show_nat (length PNG_BYTES) @ '' bytes saved''))
      else if target = ''DATA'' then
        then_call (self (\<lambda>d. map (\<lambda>(r, v). r @ '','' @ v) (dry_state d))) (\<lambda>rows.
        then_call (outside_call (write_file hw path (join [CHR 0x0A] rows @ [CHR 0x0A]))) (\<lambda>_.
          give (show_nat (length rows) @ '' rows saved'')))
      else throw (''unknown save target: '' @ target))"

definition dryrun_wait_complete :: "(unit, dryrun, 'w) call" where
  "dryrun_wait_complete = give ()"

definition dryrun_passthrough :: "string \<Rightarrow> (string, dryrun, 'w) call" where
  "dryrun_passthrough command = give (''DRYRUN_ECHO: '' @ command)"

definition dryrun_safe_state :: "(unit, dryrun, 'w) call" where
  "dryrun_safe_state = set_self (\<lambda>d. d\<lparr>dry_state := map (\<lambda>(r, _). (r, ''0.0'')) (dry_state d)\<rparr>)"

definition dryrun_driver_info :: "((string \<times> string) list, dryrun, 'w) call" where
  "dryrun_driver_info = self dry_info"

subsection \<open>Resources and SCPI nodes\<close>

text \<open>The node of the instrument's command tree that a resource of a channel stands for.\<close>

lemma then_call_Ret: "m s = (Ret v, s') \<Longrightarrow> then_call m f s = f v s'"
  by (simp add: then_call_unfold)

definition scpi_node :: "string \<times> string \<times> string \<times> string option \<Rightarrow> int \<Rightarrow> string" where
  "scpi_node e k = (case e of (_, query, _, pre) \<Rightarrow>
     (case pre of Some p \<Rightarrow> p | None \<Rightarrow> ''SOUR'') @ show_int k @ '':'' @ butlast query)"

lemma RESOURCES_regular:
  "list_all (\<lambda>(_, query, template, _). query = butlast query @ ''?'' \<and> find_sub ''{value}'' template = Some (length query)
      \<and> template = butlast query @ '' {value}'') RESOURCES"
  by code_simp

lemma isdigit_show: "0 \<le> k \<Longrightarrow> isdigit (show_int k)"
  using show_digits_chars[of k] by (auto simp: isdigit_def show_int_def list_all_iff)

lemma parse_resource_channel:
  assumes "1 \<le> k" "k \<le> channels d"
  shows "parse_resource (''CH'' @ show_int k @ '':'' @ name) (d, w) = (Ret (k, name), d, w)"
proof -
  have "colon \<notin> set (''CH'' @ show_int k)" using show_int_chars[of k] by (auto simp: digit_chars_def)
  from split_first_notin[OF this, of name] have "split_first colon (''CH'' @ show_int k @ '':'' @ name) = (''CH'' @ show_int k, Some name)"
    by simp
  with assms isdigit_show[of k] show ?thesis by (simp add: parse_resource_def call_simps)
qed

subsection \<open>Properties\<close>

text \<open>\<open>safe_state\<close> of the bundled drivers never raises, whatever the instrument does.\<close>

theorem safe_state_never_raises:
  "fst (scpi_safe_state hw s) = Ret () \<and> fst (agilent_safe_state hw s') = Ret () \<and> fst (dryrun_safe_state s'') = Ret ()"
  by (simp add: scpi_safe_state_def agilent_safe_state_def dryrun_safe_state_def call_simps split: outcome.splits prod.splits)

text \<open>The simulated instrument is a memory: writing a resource it has changes that resource only, and
  reading returns what was written last; other names are refused and change nothing.\<close>

lemma dryrun_write_read:
  "(case dryrun_write r v (d, w) of (res, d', w') \<Rightarrow>
      w' = w
      \<and> res = (if dict_mem (dry_state d) r then Ret () else RaisesDriver (''unknown resource: '' @ r))
      \<and> (\<forall>q. fst (dryrun_read q (d', w')) =
                (if dict_mem (dry_state d) r \<and> q = r then Ret v else fst (dryrun_read q (d, w)))))"
  by (auto simp: dryrun_write_def dryrun_read_def call_simps dict_simps split: option.splits)

text \<open>\<open>safe_state\<close> of the simulated instrument keeps its resources and sets each of them to zero.\<close>

lemma dryrun_safe_state_zeroes:
  "(case dryrun_safe_state (d, w) of (res, d', w') \<Rightarrow>
      fst (dryrun_discover (d', w')) = fst (dryrun_discover (d, w))
      \<and> (\<forall>q. fst (dryrun_read q (d', w')) =
                (if dict_mem (dry_state d) q then Ret ''0.0'' else RaisesDriver (''unknown resource: '' @ q))))"
proof -
  have k: "dict_keys (map (\<lambda>(r, _). (r, z)) e) = dict_keys e" for e :: "(string, string) dict" and z :: string
    by (induction e) (auto simp: dict_keys_def)
  have g: "dict_get (map (\<lambda>(r, _). (r, z)) e) q = (if dict_mem e q then Some z else None)"
    for e :: "(string, string) dict" and z q
    by (induction e) (auto simp: dict_get_def dict_mem_def)
  show ?thesis by (simp add: dryrun_safe_state_def dryrun_discover_def dryrun_read_def call_simps k g)
qed

text \<open>C33: a resource of the waveform generator is one node of its command tree: reading queries the node with
  a question mark and writing sends it with the value, on the channel that was named.\<close>

theorem agilent_same_node:
  assumes "map_of RESOURCES name = Some e" "1 \<le> k" "k \<le> channels d" "scpi_transport d = Some h"
  shows "agilent_write hw (''CH'' @ show_int k @ '':'' @ name) v (d, w)
           = outside_call (l_send hw h (scpi_node (name, e) k @ '' '' @ v)) (d, w)
         \<and> agilent_read hw (''CH'' @ show_int k @ '':'' @ name) (d, w)
           = then_call (outside_call (l_query hw h (scpi_node (name, e) k @ ''?''))) (\<lambda>r. give (strip r)) (d, w)"
proof -
  obtain query template pre where e: "e = (query, template, pre)" by (cases e)
  have "(name, e) \<in> set RESOURCES" by (rule map_of_SomeD[OF assms(1)])
  with RESOURCES_regular have "query = butlast query @ ''?'' \<and> find_sub ''{value}'' template = Some (length query)
      \<and> template = butlast query @ '' {value}''"
    unfolding list_all_iff e by blast
  then obtain b where q: "query = b @ ''?''" and t: "template = b @ '' {value}''"
    and p: "find_sub ''{value}'' template = Some (length query)"
    by blast
  have f: "format_value template v = b @ '' '' @ v"
    unfolding format_value_def p by (simp add: t q)
  define r where "r = ''CH'' @ show_int k @ '':'' @ name"
  have pr: "parse_resource r (d, w) = (Ret (k, name), d, w)"
    unfolding r_def by (rule parse_resource_channel[OF assms(2,3)])
  have t: "then_call (self scpi_transport) m (d, w) = m (Some h) (d, w)" for m :: "nat option \<Rightarrow> ('b, agilent, 'a) call"
    by (simp add: then_call_unfold call_unfold assms(4))
  have "agilent_write hw r v (d, w) = outside_call (l_send hw h (scpi_node (name, e) k @ '' '' @ v)) (d, w)"
    by (simp add: agilent_write_def then_call_Ret[where m = "parse_resource r", OF pr] assms(1) e f q scpi_send_def t scpi_node_def)
  moreover have "agilent_read hw r (d, w)
      = then_call (outside_call (l_query hw h (scpi_node (name, e) k @ ''?''))) (\<lambda>r. give (strip r)) (d, w)"
    by (simp add: agilent_read_def then_call_Ret[where m = "parse_resource r", OF pr] assms(1) e q scpi_query_def scpi_node_def)
      (simp add: then_call_unfold call_unfold assms(4))
  ultimately show ?thesis by (simp add: r_def)
qed

theorem agilent_same_node_witness:
  "agilent_write recorder (''CH'' @ show_int 1 @ '':'' @ ''OUTPUT'') ''ON'' (new_agilent\<lparr>scpi_transport := Some 7\<rparr>, [])
     = (Ret (), new_agilent\<lparr>scpi_transport := Some 7\<rparr>, [''OUTP'' @ show_int 1 @ '':STAT ON''])"
  using agilent_same_node[of "''OUTPUT''" "(''STAT?'', ''STAT {value}'', Some ''OUTP'')" 1 "new_agilent\<lparr>scpi_transport := Some 7\<rparr>" 7
      recorder "''ON''" "[]"]
  by (simp add: RESOURCES_def new_agilent_def recorder_def scpi_node_def call_simps)

end
