(* ===== verification/Lab.thy ===== *)
theory Lab
  imports Drivers
begin

text \<open>
  The server's environment with the bundled drivers: an instance of \<open>env\<close> in which driver handles are
  objects of the three drivers of \<open>testcore/drivers\<close>.  What the drivers stand on (transports, files,
  clocks, the clients' sockets) stays a parameter, the record \<open>site\<close>.  Driver code outside the
  repository cannot be loaded in it.
\<close>

datatype driver_object = DryRun dryrun | GenericScpi scpi | Agilent agilent

record 'w lab =
  objects :: "(nat, driver_object) dict"
  next_object :: nat
  outside :: 'w

record 'w site = "'w hardware" +
  site_wall :: "'w \<Rightarrow> pyfloat"
  site_monotonic :: "'w \<Rightarrow> pyfloat"
  site_perf :: "'w \<Rightarrow> pyfloat"
  site_can_write :: "'w \<Rightarrow> int \<Rightarrow> bool"
  site_lines :: "string \<Rightarrow> 'w \<Rightarrow> string list option"

text \<open>A method of the driver object behind a handle.\<close>

definition on_driver :: "('a, dryrun, 'w) call \<Rightarrow> ('a, scpi, 'w) call \<Rightarrow> ('a, agilent, 'w) call
    \<Rightarrow> nat \<Rightarrow> 'w lab \<Rightarrow> 'a outcome \<times> 'w lab" where
  "on_driver dry gen agi h l =
     (case dict_get (objects l) h of
        None \<Rightarrow> (Raises ''no driver'', l)
      | Some (DryRun d) \<Rightarrow>
          (case dry (d, outside l) of
             (r, d', w) \<Rightarrow> (r, l\<lparr>objects := dict_set (objects l) h (DryRun d'), outside := w\<rparr>))
      | Some (GenericScpi d) \<Rightarrow>
          (case gen (d, outside l) of
             (r, d', w) \<Rightarrow> (r, l\<lparr>objects := dict_set (objects l) h (GenericScpi d'), outside := w\<rparr>))
      | Some (Agilent d) \<Rightarrow>
          (case agi (d, outside l) of
             (r, d', w) \<Rightarrow> (r, l\<lparr>objects := dict_set (objects l) h (Agilent d'), outside := w\<rparr>)))"

text \<open>The classes found in the bundled packages, in the order of \<open>dir\<close>.\<close>

definition bundled_classes :: "string \<Rightarrow> imported" where
  "bundled_classes name =
     (if name = ''testcore.drivers.dryrun'' then Module [1]
      else if name = ''testcore.drivers.generic_scpi'' then Module [2, 0]
      else if name = ''testcore.drivers.agilent33500'' then Module [3]
      else NoModule)"

definition construct :: "nat \<Rightarrow> driver_object" where
  "construct c =
     (if c = 1 then DryRun \<lparr> dry_state = [], dry_info = [] \<rparr> else if c = 2 then GenericScpi new_scpi else Agilent new_agilent)"

definition object_class :: "driver_object \<Rightarrow> string" where
  "object_class d =
     (case d of DryRun _ \<Rightarrow> ''DryRunDriver'' | GenericScpi _ \<Rightarrow> ''GenericScpiDriver'' | Agilent _ \<Rightarrow> ''Agilent33500Driver'')"

definition lab_env :: "'w site \<Rightarrow> 'w lab env" where
  "lab_env hw =
     \<lparr> import_file = (\<lambda>_ l. (NoModule, l)),
       import_bundled = (\<lambda>name l. (bundled_classes name, l)),
       class_name = (\<lambda>h l. case dict_get (objects l) h of Some d \<Rightarrow> object_class d | None \<Rightarrow> []),
       bundled_packages = (\<lambda>_. [''agilent33500'', ''dryrun'', ''generic_scpi'']),
       new_driver = (\<lambda>c l. (Ret (next_object l),
         l\<lparr>objects := dict_set (objects l) (next_object l) (construct c), next_object := Suc (next_object l)\<rparr>)),
       open_transport = (\<lambda>spec l. case l_open (hardware.truncate hw) spec (outside l) of (r, w) \<Rightarrow> (r, l\<lparr>outside := w\<rparr>)),
       d_connect = (\<lambda>h cfg. on_driver (dryrun_connect cfg) (scpi_connect cfg) (agilent_connect (hardware.truncate hw) cfg) h),
       d_disconnect = on_driver dryrun_disconnect (scpi_disconnect (hardware.truncate hw)) (scpi_disconnect (hardware.truncate hw)),
       d_init = (\<lambda>h t. on_driver (dryrun_init t) (scpi_init (hardware.truncate hw) t) (agilent_init (hardware.truncate hw) t) h),
       d_configure = (\<lambda>h p. on_driver (dryrun_configure p) (generic_configure (hardware.truncate hw) p)
                              (agilent_configure (hardware.truncate hw) p) h),
       d_discover = on_driver dryrun_discover generic_discover agilent_discover,
       d_read = (\<lambda>h r. on_driver (dryrun_read r) (generic_read r) (agilent_read (hardware.truncate hw) r) h),
       d_write = (\<lambda>h r v. on_driver (dryrun_write r v) (generic_write r v) (agilent_write (hardware.truncate hw) r v) h),
       d_passthrough = (\<lambda>h c. on_driver (dryrun_passthrough c) (scpi_passthrough (hardware.truncate hw) c)
                                (scpi_passthrough (hardware.truncate hw) c) h),
       d_load = (\<lambda>h t p. on_driver (dryrun_load (hardware.truncate hw) t p) (scpi_load t p) (agilent_load (hardware.truncate hw) t p) h),
       d_save = (\<lambda>h t p. on_driver (dryrun_save (hardware.truncate hw) t p) (scpi_save t p) (scpi_save t p) h),
       d_wait_complete = on_driver dryrun_wait_complete (scpi_wait_complete (hardware.truncate hw))
                           (scpi_wait_complete (hardware.truncate hw)),
       d_safe_state = on_driver dryrun_safe_state (scpi_safe_state (hardware.truncate hw)) (agilent_safe_state (hardware.truncate hw)),
       d_info = on_driver dryrun_driver_info (scpi_info (hardware.truncate hw)) (scpi_info (hardware.truncate hw)),
       wall_time = (\<lambda>l. site_wall hw (outside l)),
       monotonic = (\<lambda>l. site_monotonic hw (outside l)),
       perf_counter = (\<lambda>l. site_perf hw (outside l)),
       can_write = (\<lambda>l. site_can_write hw (outside l)),
       read_lines = (\<lambda>path l. site_lines hw path (outside l)) \<rparr>"

text \<open>A site without instruments, for examples.\<close>

definition quiet_site :: "string list site" where
  "quiet_site = hardware.extend recorder
     (site.fields (\<lambda>_. f_of_int 0) (\<lambda>_. f_of_int 0) (\<lambda>_. f_of_int 0) (\<lambda>_ _. True) (\<lambda>_ _. None))"

definition empty_lab :: "'w \<Rightarrow> 'w lab" where
  "empty_lab w = \<lparr> objects = [], next_object = 1, outside = w \<rparr>"

text \<open>No handle of the bundled drivers fails to reach a safe state.\<close>

lemma lab_safe_state:
  "dict_mem (objects l) h \<Longrightarrow> fst (d_safe_state (lab_env hw) h l) = Ret ()"
  by (auto simp: lab_env_def on_driver_def dict_mem_def scpi_safe_state_def agilent_safe_state_def dryrun_safe_state_def
      call_simps split: option.splits driver_object.splits outcome.splits prod.splits)

end
