(* ===== verification/Sample.thy ===== *)
theory Sample
  imports System Lab
begin

text \<open>
  A small server state that the examples of the other theories run on: the simulated instrument
  \<open>sim\<close>, initialised and locked by session 1, and the sessions 1 and 2.
\<close>

definition sample_env :: "string list lab env" where
  "sample_env = lab_env quiet_site"

definition sample_instrument :: instrument where
  "sample_instrument =
     \<lparr> iname = ''sim'', driver = 1, driver_path = ''dryrun'', connect_cfg = \<lparr> cfg_address = None, cfg_transport = None \<rparr>,
       topts = [], istate = READY, resources = DRYRUN_RESOURCES, lock_owner = Some 1, total_calls = 0, total_errors = 0,
       response_times = [], health_interval = None, health_failures = 0, last_call_ok = f_of_int 0 \<rparr>"

definition sample_lab :: "string list lab" where
  "sample_lab =
     \<lparr> objects = [(1, DryRun \<lparr> dry_state = map (\<lambda>r. (r, ''0.0'')) DRYRUN_RESOURCES, dry_info = [] \<rparr>)],
       next_object = 2, outside = [] \<rparr>"

definition sample_client :: client where
  "sample_client = new_client (f_of_int 0) ''127.0.0.1:50000''"

definition sample :: "string list lab server" where
  "sample = (new_server ''127.0.0.1'' 6399 64 (f_of_int 5) 1000 (f_of_int 0) sample_lab)
     \<lparr>instruments := [(''sim'', sample_instrument)], clients := [(1, sample_client), (2, sample_client)],
      next_client_id := 3, server_running := True\<rparr>"

lemmas sample_defs = sample_def new_server_def sample_instrument_def sample_client_def new_client_def sample_lab_def
  sample_env_def lab_env_def quiet_site_def DRYRUN_RESOURCES_def

lemma sample_get [simp]:
  "dict_get (instruments sample) ''sim'' = Some sample_instrument"
  "dict_get (clients sample) 1 = Some sample_client" "dict_get (clients sample) 2 = Some sample_client"
  by (simp_all add: sample_def dict_get_def)

lemma sample_world [simp]: "world sample = sample_lab"
  by (simp add: sample_def new_server_def)

text \<open>What the simulated instrument of the sample answers.\<close>

lemma sample_reads: "\<exists>w. d_read sample_env 1 ''FREQ'' sample_lab = (Ret ''0.0'', w)"
  by (simp add: sample_env_def lab_env_def on_driver_def sample_lab_def dict_get_def dryrun_read_def call_simps DRYRUN_RESOURCES_def)

lemma sample_instrument_fields [simp]:
  "istate sample_instrument = READY" "lock_owner sample_instrument = Some 1" "driver sample_instrument = 1"
  "iname sample_instrument = ''sim''"
  by (simp_all add: sample_instrument_def)

lemma sample_instruments_ok: "instruments_ok sample"
  by (simp add: instruments_ok_def instrument_ok_def sample_defs dict_ok_def dict_keys_def dict_get_def)

lemma sample_ok: "server_ok sample"
  by (simp add: server_ok_def ok_defs sample_instruments_ok active_def)
    (simp add: sample_defs new_store_ok[unfolded new_store_def] new_journal_ok bus_ok_def subs_of_def dict_mem_def dict_ok_def dict_keys_def
      dict_get_def new_store_def)

end
