(* ===== verification/Locks.thy ===== *)
theory Locks
  imports Sample
begin

text \<open>
  Locks of instruments, across components: who can change them, what they protect, and how they are
  given back.  \<open>held_by\<close> is a second instance of the interface \<open>session_invariant\<close>: a session other than
  the owner keeps it, as long as it does not remove the instrument.
\<close>

subsection \<open>An instrument held by a session\<close>

definition held_by :: "string \<Rightarrow> int \<Rightarrow> 'w server \<Rightarrow> bool" where
  "held_by name own s =
     (instruments_ok s \<and> (\<exists>i. dict_get (instruments s) name = Some i \<and> lock_owner i = Some own))"

lemma held_by_ok: "held_by name own s \<Longrightarrow> instruments_ok s"
  by (simp add: held_by_def)

lemma held_by_same: "held_by name own s \<Longrightarrow> instruments s' = instruments s \<Longrightarrow> held_by name own s'"
  by (simp add: held_by_def instruments_ok_def)

lemma held_by_table:
  assumes "held_by name own s" "dict_ok d"
    and "\<And>n i. dict_get d n = Some i \<Longrightarrow> dict_get (instruments s) n = Some i \<or> instrument_ok n i"
    and "\<And>i. dict_get (instruments s) name = Some i \<Longrightarrow> lock_owner i = Some own
            \<Longrightarrow> \<exists>j. dict_get d name = Some j \<and> lock_owner j = Some own"
  shows "held_by name own (s\<lparr>instruments := d\<rparr>)"
  using assms by (fastforce simp: held_by_def instruments_ok_def)

lemma held_by_upd:
  assumes s: "held_by name own s"
    and f: "\<And>i. dict_get (instruments s) n = Some i \<Longrightarrow> instrument_ok n i \<Longrightarrow>
              instrument_ok n (f i) \<and> (n = name \<longrightarrow> lock_owner i = Some own \<longrightarrow> lock_owner (f i) = Some own)"
  shows "held_by name own (upd_inst n f s)"
proof (cases "dict_get (instruments s) n")
  case None
  with s show ?thesis by (simp add: upd_inst_def)
next
  case (Some i)
  with s have ok: "instrument_ok n i" "dict_ok (instruments s)" by (auto simp: held_by_def instruments_ok_def)
  show ?thesis
    unfolding upd_inst_def Some option.case
    by (rule held_by_table[OF s]) (use f[OF Some ok(1)] ok(2) Some in \<open>auto simp: dict_simps dict_ok_set split: if_splits\<close>)
qed

interpretation held: session_invariant "\<lambda>s. cid \<noteq> own \<and> held_by name own s" cid "\<lambda>n. n \<noteq> name" for cid own name
proof (unfold_locales, goal_cases)
  case 1 then show ?case by (simp add: held_by_def)
next
  case (6 s f n) then show ?case by (auto simp: benign_def intro!: held_by_upd)
next
  case (7 s n i st) then show ?case
    by (auto simp: unlocked_def instrument_ok_def intro!: held_by_upd)
next
  case (8 s n i) then show ?case
    by (auto simp: taken_def instrument_ok_def dest: held_by_ok intro!: held_by_upd)
next
  case (9 s n i)
  then show ?case
    by (auto simp: held_by_def instruments_ok_def dict_simps dict_ok_set dict_mem_def split: if_splits)
next
  case (10 s n)
  then show ?case
    by (auto simp: held_by_def instruments_ok_def dict_simps dict_ok_del split: if_splits)
qed (auto simp: held_by_def instruments_ok_def watch_stop_instrument_def watch_start_def health_stop_def health_start_def upd_client_def watch_stop_def Let_def split: option.splits)

lemma held_dispatch:
  assumes "held_by name own s" "cid \<noteq> own" "removes_allowed (\<lambda>n. n \<noteq> name) command"
  shows "held_by name own (snd (dispatch env command (client_context cid) s))"
  using held.dispatch_keeps[of cid own name s command env] assms by simp

lemma release_on_close_held:
  assumes "held_by name own s" "cid \<noteq> own"
  shows "held_by name own (release_on_close env cid n s)"
proof (cases "\<exists>i. dict_get (instruments s) n = Some i \<and> lock_owner i = Some cid")
  case True
  then obtain i where i: "dict_get (instruments s) n = Some i" "lock_owner i = Some cid" by blast
  from release_on_close_spec[OF i, of env] obtain st where st: "st = IDLE \<or> st = FAULT"
    and e: "instruments (release_on_close env cid n s) = dict_set (instruments s) n (unlocked st i)" by blast
  have "held_by name own (s\<lparr>instruments := dict_set (instruments s) n (unlocked st i)\<rparr>)"
    by (rule held_by_table[OF assms(1)])
      (use assms i st in \<open>auto simp: held_by_def instruments_ok_def instrument_ok_def unlocked_def dict_simps dict_ok_set split: if_splits\<close>)
  then show ?thesis by (simp add: held_by_def instruments_ok_def e)
next
  case False
  then have "release_on_close env cid n s = s"
    by (intro release_on_close_other) (cases "dict_get (instruments s) n", auto)
  with assms show ?thesis by simp
qed

lemma client_close_held:
  assumes "held_by name own s" "cid \<noteq> own"
  shows "held_by name own (client_close env cid s)"
proof (cases "active s cid")
  case True
  then obtain c where c: "dict_get (clients s) cid = Some c" "running c" by (auto simp: active_def split: option.splits)
  let ?s1 = "upd_client cid (\<lambda>c. c\<lparr>running := False\<rparr>) s"
  let ?s2 = "fold (release_on_close env cid) (list_instruments ?s1) ?s1"
  have "held_by name own ?s1" by (rule held_by_same[OF assms(1)]) (simp add: upd_client_def c)
  then have "held_by name own ?s2"
    by (rule fold_invariant_on[where P = "held_by name own"]) (rule release_on_close_held[OF _ assms(2)])
  then show ?thesis by (rule held_by_same) (simp add: client_close_def c Let_def)
next
  case False
  then have "client_close env cid s = s" by (auto simp: client_close_def active_def split: option.splits)
  with assms show ?thesis by simp
qed

lemma background_held:
  assumes "held_by name own s"
  shows "held_by name own (run_spawned env s)" "held_by name own (watch_tick env n res s)"
    "held_by name own (health_tick env n s)" "held_by name own (s\<lparr>world := w\<rparr>)"
  using held.run_spawned_keeps[of "own + 1" own name s env] held.watch_tick_keeps[of "own + 1" own name s env n res]
    held.health_tick_keeps[of "own + 1" own name s env n] assms
  by (auto elim: held_by_same)

subsection \<open>What other sessions and the background tasks can do to a lock\<close>

text \<open>A message that does not ask to remove the instrument.\<close>

definition not_removing :: "string \<Rightarrow> resp \<Rightarrow> bool" where
  "not_removing name m =
     (case m of RList xs \<Rightarrow> removes_allowed (\<lambda>n. n \<noteq> name) (map py_str xs) | _ \<Rightarrow> True)"

text \<open>Events other than the owner's commands, the owner's end, an \<open>IREMOVE\<close> and the server's stop.\<close>

definition foreign_event :: "string \<Rightarrow> int \<Rightarrow> 'w event \<Rightarrow> 'w server \<Rightarrow> bool" where
  "foreign_event name own e s =
     (case e of
        EvReceive cid bytes \<Rightarrow>
          cid \<noteq> own
          \<and> (case dict_get (clients s) cid of
               None \<Rightarrow> True
             | Some c \<Rightarrow> (case fst (feed (parser c) bytes) of Inl _ \<Rightarrow> True | Inr ms \<Rightarrow> list_all (not_removing name) ms))
      | EvStop \<Rightarrow> False
      | _ \<Rightarrow> True)"

fun foreign_events :: "'w env \<Rightarrow> string \<Rightarrow> int \<Rightarrow> 'w event list \<Rightarrow> 'w server \<Rightarrow> bool" where
  "foreign_events env name own [] s = True"
| "foreign_events env name own (e # es) s =
     (foreign_event name own e s \<and> foreign_events env name own es (run_event env e s))"

lemma client_fields_instruments [simp]:
  "instruments (upd_client cid g s) = instruments s" "instruments (count_command cid s) = instruments s"
  "instruments (leave_monitor cid cmd s) = instruments s" "instruments (enter_monitor cid s) = instruments s"
  "instruments (snd (client_write env cid bytes s)) = instruments s"
  by (simp_all add: upd_client_def count_command_def leave_monitor_def enter_monitor_def client_write_def
      split: option.splits)

lemma process_message_held:
  assumes "held_by name own s" "cid \<noteq> own" "not_removing name m"
  shows "held_by name own (snd (process_message env cid m s))"
proof (cases "\<exists>x xs. m = RList (x # xs)")
  case True
  then obtain x xs where m: "m = RList (x # xs)" by blast
  let ?s1 = "leave_monitor cid (py_str x) (count_command cid s)"
  obtain reply s2 where d: "dispatch env (map py_str (x # xs)) (client_context cid) ?s1 = (reply, s2)" by fastforce
  have "held_by name own ?s1" by (rule held_by_same[OF assms(1)]) simp
  with held_dispatch[of name own ?s1 cid "map py_str (x # xs)" env] assms(2,3) d have h: "held_by name own s2"
    by (simp add: not_removing_def m)
  obtain w s3 where c: "client_write env cid reply s2 = (w, s3)" by fastforce
  then have "instruments s3 = instruments s2" using client_fields_instruments(5)[of env cid reply s2] by simp
  with h have "held_by name own s3" by (rule held_by_same)
  then show ?thesis
    using d c by (cases w) (auto simp: process_message_def m Let_def elim: held_by_same)
next
  case False
  then have "instruments (snd (process_message env cid m s)) = instruments s"
    by (cases m) (auto simp: process_message_def split: list.splits)
  with assms(1) show ?thesis by (rule held_by_same)
qed

lemma process_messages_held:
  "held_by name own s \<Longrightarrow> cid \<noteq> own \<Longrightarrow> list_all (not_removing name) ms
   \<Longrightarrow> held_by name own (snd (process_messages env cid ms s))"
proof (induction ms arbitrary: s)
  case (Cons m ms)
  obtain w s1 where p: "process_message env cid m s = (w, s1)" by fastforce
  with process_message_held[of name own s cid m env] Cons.prems have "held_by name own s1" by simp
  with Cons.IH[of s1] Cons.prems p show ?case by (cases w) auto
qed simp

lemma client_receive_held:
  assumes "held_by name own s" "foreign_event name own (EvReceive cid bytes) s"
  shows "held_by name own (client_receive env cid bytes s)"
proof (cases "dict_get (clients s) cid")
  case (Some c)
  have cid: "cid \<noteq> own" using assms(2) by (simp add: foreign_event_def)
  obtain r p where f: "feed (parser c) bytes = (r, p)" by fastforce
  let ?s = "upd_client cid (\<lambda>c. c\<lparr>parser := p\<rparr>) s"
  have h: "held_by name own ?s" by (rule held_by_same[OF assms(1)]) simp
  have w: "held_by name own (snd (client_write env cid b ?s))" for b by (rule held_by_same[OF h]) simp
  show ?thesis
  proof (cases r)
    case (Inl e)
    then show ?thesis
      using Some f cid assms(1) h w by (cases e) (auto simp: client_receive_def intro: client_close_held)
  next
    case (Inr ms)
    with assms(2) Some f have ms: "list_all (not_removing name) ms" by (simp add: foreign_event_def)
    obtain b s1 where p: "process_messages env cid ms ?s = (b, s1)" by fastforce
    with process_messages_held[OF h cid ms, of env] have "held_by name own s1" by simp
    then show ?thesis
      using Some f cid assms(1) Inr p by (cases b) (auto simp: client_receive_def intro: client_close_held)
  qed
qed (use assms in \<open>simp add: client_receive_def\<close>)

lemma foreign_event_held:
  assumes "held_by name own s" "foreign_event name own e s"
  shows "held_by name own (run_event env e s)"
proof (cases e)
  case (EvConnect peer)
  then show ?thesis using assms(1) by (auto simp: client_connected_def Let_def elim!: held_by_same)
next
  case (EvStart cid)
  then show ?thesis using assms(1) by (auto simp: client_start_def split: option.splits elim!: held_by_same)
next
  case (EvDone cid)
  then show ?thesis using assms(1) by (auto simp: client_cleanup_def elim!: held_by_same)
qed (use assms background_held[OF assms(1)] client_receive_held[OF assms(1)] in \<open>auto simp: foreign_event_def\<close>)

lemma foreign_events_held:
  "held_by name own s \<Longrightarrow> foreign_events env name own es s \<Longrightarrow> held_by name own (fold (run_event env) es s)"
  by (induction es arbitrary: s) (auto intro: foreign_event_held)

subsection \<open>Properties\<close>

text \<open>C2: a lock is exclusive and stays with its owner: whatever the other sessions send, connect or drop,
  and whatever the guards, health checks and the hardware do, in any number and order, the instrument
  stays locked by its owner, unless somebody removes the instrument or the server stops.\<close>

theorem lock_survives_others:
  assumes "held_by name own s" "foreign_events env name own es s"
  shows "held_by name own (fold (run_event env) es s)"
  using foreign_events_held[OF assms] .

theorem lock_survives_others_witness:
  "held_by ''sim'' 1 (fold (run_event sample_env)
     [EvReceive 2 ([]), EvHealth ''sim'', EvWatch ''sim'' ''FREQ'', EvSpawned, EvConnect ''peer''] sample)"
proof (rule lock_survives_others)
  show "held_by ''sim'' 1 sample" by (simp add: held_by_def sample_instruments_ok)
  show "foreign_events sample_env ''sim'' 1
     [EvReceive 2 [], EvHealth ''sim'', EvWatch ''sim'' ''FREQ'', EvSpawned, EvConnect ''peer''] sample"
    by (simp add: foreign_event_def sample_client_def new_client_def feed_def new_parser_def MAX_BUFFER_SIZE_def drain.simps
        parse_message_def)
qed


subsection \<open>ILOCK\<close>

definition lockable :: "'w server \<Rightarrow> int \<Rightarrow> string \<Rightarrow> bool" where
  "lockable s sid name =
     (case dict_get (instruments s) name of
        None \<Rightarrow> False | Some i \<Rightarrow> istate i = IDLE \<or> lock_owner i = Some sid)"

definition locked_by :: "int \<Rightarrow> instrument \<Rightarrow> instrument" where
  "locked_by sid i = (if lock_owner i = Some sid then i else taken sid i)"

lemma lock_refusal_lockable: "lock_refusal names sid s = None \<longleftrightarrow> list_all (lockable s sid) names"
  by (induction names) (auto simp: lockable_def get_inst_def split: option.splits)

lemma lock_refusal_error: "lock_refusal names sid s = Some reply \<Longrightarrow> take 1 reply = ''-''"
  by (induction names) (auto simp: get_inst_def error_def split: option.splits if_splits)

lemma take_lock_get:
  "dict_get (instruments (take_lock sid n s)) name
     = map_option (\<lambda>i. if name = n then locked_by sid i else i) (dict_get (instruments s) name)"
  by (cases "name = n") (auto simp: take_lock_def upd_inst_def locked_by_def taken_def dict_simps option.map_ident
      split: option.splits)

lemma locked_by_idem [simp]: "locked_by sid (locked_by sid i) = locked_by sid i"
  by (simp add: locked_by_def taken_def)

lemma take_locks_get:
  "dict_get (instruments (fold (take_lock sid) names s)) name
     = map_option (\<lambda>i. if name \<in> set names then locked_by sid i else i) (dict_get (instruments s) name)"
  by (induction names arbitrary: s) (auto simp: take_lock_get option.map_comp o_def option.map_ident intro!: option.map_cong0)

lemma publish_locks_instruments:
  "instruments (fold (\<lambda>name. publish_lock env t name sid kw) names s) = instruments s"
  by (rule fold_invariant_on[where P = "\<lambda>t. instruments t = instruments s"]) auto

text \<open>C11: \<open>ILOCK\<close> is all or nothing: if every instrument named exists and is idle or already the session's,
  all of them are the session's afterwards and no other instrument changes; otherwise the reply is an
  error and nothing changes.\<close>

theorem ilock_all_or_nothing:
  "(case handle_lock env args (client_context cid) s of (r, s') \<Rightarrow>
      if args \<noteq> [] \<and> list_all (lockable s cid) args
      then r = Inr ok_reply
           \<and> (\<forall>name. dict_get (instruments s') name
                 = map_option (\<lambda>i. if name \<in> set args then locked_by cid i else i) (dict_get (instruments s) name))
      else s' = s \<and> (\<exists>reply. r = Inr reply \<and> take 1 reply = ''-''))"
  using lock_refusal_lockable[of args cid s] lock_refusal_error[of args cid s]
  by (auto simp: handle_lock_def client_context_def wrong_args_def act_simps error_def publish_locks_instruments
      take_locks_get split: option.splits)

subsection \<open>Commands of a session that does not own the instrument\<close>

definition not_owner_reply :: "string \<Rightarrow> instrument \<Rightarrow> string" where
  "not_owner_reply name i =
     (case lock_owner i of
        None \<Rightarrow> ''-IDLE '' @ name @ '' not locked'' @ crlf
      | Some own \<Rightarrow> ''-LOCKED '' @ owned_by_text name own @ crlf)"

lemma owner_call_refused:
  assumes "dict_get (instruments s) name = Some i" "lock_owner i \<noteq> Some cid"
  shows "\<exists>e. owner_call name (Some cid) m s = (Inl e, s) \<and> state_error e = not_owner_reply name i
             \<and> any_state_exn e \<and> (is_IdleError e \<or> is_LockedError e)"
  using assms
  by (cases "lock_owner i")
    (auto simp: owner_call_def act_simps get_inst_def require_lock_def not_owner_reply_def owned_by_text_def)

lemma refused_replies:
  assumes "dict_get (instruments s) name = Some i" "lock_owner i \<noteq> Some cid"
  shows "except_when any_state_exn (bind_ex (owner_call name (Some cid) m) f) (\<lambda>e. ret (state_error e)) s
           = (Inr (not_owner_reply name i), s)"
  using owner_call_refused[OF assms, of m] by (auto simp: except_when_def act_simps)

text \<open>\<open>IMREAD\<close> checks every address before it reads any.\<close>

lemma minus_error: "take (Suc 0) (error m) = ''-''"
  by (simp add: error_def)

lemma minus_state_error: "any_state_exn e \<Longrightarrow> take (Suc 0) (state_error e) = ''-''"
  by (cases e) auto

lemma mread_refused:
  assumes "dict_get (instruments s) name = Some i" "lock_owner i \<noteq> Some cid" "colon \<notin> set name" "res \<noteq> []" "name \<noteq> []"
    and "name @ '':'' @ res \<in> set addrs"
  shows "\<exists>reply. mread_targets addrs cid s = Inl reply \<and> take 1 reply = ''-''"
  using assms(6)
proof (induction addrs)
  case (Cons a addrs)
  show ?case
  proof (cases "parse_resource_address a")
    case (Inl e)
    then show ?thesis by (simp add: minus_error)
  next
    case (Inr t)
    obtain n r where t: "t = (n, r)" by fastforce
    show ?thesis
    proof (cases "fst (bind_ex (get_inst n) (\<lambda>inst. require_lock inst n (Some cid)) s)")
      case (Inl e)
      then have "any_state_exn e" by (auto simp: act_simps get_inst_def require_lock_def split: option.splits if_splits)
      with Inl Inr t show ?thesis by (auto simp: minus_state_error split: prod.splits)
    next
      case ok: (Inr u)
      have "a \<noteq> name @ '':'' @ res"
      proof
        assume "a = name @ '':'' @ res"
        with Inr t have "n = name" using split_first_notin[OF assms(3), of res] by (auto simp: parse_resource_address_def split: if_splits)
        with ok assms(1,2) show False by (auto simp: act_simps get_inst_def require_lock_def split: option.splits if_splits)
      qed
      with Cons show ?thesis using Inr t ok by (auto split: prod.splits sum.splits)
    qed
  qed
qed simp



subsection \<open>IUNLOCK\<close>

lemma publish_other_tables [simp]:
  "kv (publish_on env ch payload key s) = kv s" "watches (publish_on env ch payload key s) = watches s"
  "world (publish_on env ch payload key s) = world s"
  by (simp_all add: publish_on_def split: prod.splits)

lemma publish_lock_tables [simp]:
  "kv (publish_lock env t name sid kw s) = kv s" "watches (publish_lock env t name sid kw s) = watches s"
  by (simp_all add: publish_lock_def)

lemma stale_with_events_tables:
  "kv (stale_with_events env name s) = snd (invalidate_meas (kv s) name (now env s))"
  "watches (stale_with_events env name s) = watches s"
proof -
  have p: "kv (publish_stale env l t) = kv t" "watches (publish_stale env l t) = watches t" for l t
    unfolding publish_stale_def
    by (rule fold_invariant_on[where P = "\<lambda>u. kv u = kv t"]; auto simp: publish_meas_def)
      (rule fold_invariant_on[where P = "\<lambda>u. watches u = watches t"]; auto simp: publish_meas_def)
  show "kv (stale_with_events env name s) = snd (invalidate_meas (kv s) name (now env s))"
    "watches (stale_with_events env name s) = watches s"
    by (auto simp: stale_with_events_def p split: prod.splits)
qed

definition after_safe_state :: "'w env \<Rightarrow> instrument \<Rightarrow> 'w \<Rightarrow> instrument_state" where
  "after_safe_state env i w = (if fst (d_safe_state env (driver i) w) = Ret () then IDLE else FAULT)"

lemma registry_unlock_owned:
  assumes "dict_get (instruments s) name = Some i" "lock_owner i = Some cid"
  shows "registry_unlock env name cid s
     = (Inr (), upd_inst name (unlocked (after_safe_state env i (world s)))
                  (s\<lparr>world := snd (d_safe_state env (driver i) (world s))\<rparr>))"
proof -
  obtain r w where r: "d_safe_state env (driver i) (world s) = (r, w)" by fastforce
  have u: "unlocked st = (\<lambda>i. i\<lparr>istate := st, lock_owner := None, resources := []\<rparr>)" for st
    by (simp add: unlocked_def fun_eq_iff)
  show ?thesis
    using assms r by (cases r) (auto simp: registry_unlock_def act_simps get_inst_def call_out_def u after_safe_state_def)
qed

text \<open>C22: \<open>IUNLOCK\<close> by the owner gives the instrument back: it has no owner and no resources, is idle or, when
  \<open>safe_state\<close> raised, faulty; its guards are gone, its measurements are stale with their values kept, and
  no other instrument changes.\<close>

theorem iunlock_releases:
  assumes "dict_get (instruments s) name = Some i" "lock_owner i = Some cid" "upper name \<noteq> ''ALL''" "colon \<notin> set name"
  shows "case handle_unlock env [name] (client_context cid) s of (r, s') \<Rightarrow>
           r = Inr ok_reply
           \<and> instruments s' = dict_set (instruments s) name (unlocked (after_safe_state env i (world s)) i)
           \<and> watches s' = dict_del (watches s) name
           \<and> list_all (\<lambda>res. map_option meas_val (get_meas (kv s') name res) = map_option meas_val (get_meas (kv s) name res)
                             \<and> (case get_meas (kv s') name res of Some m \<Rightarrow> meas_status m = ''STALE'' | None \<Rightarrow> True)) q"
proof -
  let ?s1 = "watch_stop_instrument name s"
  have i: "dict_get (instruments ?s1) name = Some i" using assms(1) by (simp add: watch_stop_instrument_def)
  have m: "get_meas (snd (invalidate_meas st name t)) name res
      = map_option (\<lambda>m. if meas_status m \<noteq> ''STALE'' then m\<lparr>meas_ts := t, meas_status := ''STALE''\<rparr> else m)
          (get_meas st name res)" for st t res
    using get_meas_invalidate[OF assms(4,4), of st t res] by simp
  show ?thesis
    using assms(1,3) registry_unlock_owned[OF i assms(2), of env]
    by (auto simp: handle_unlock_def client_context_def unlock_with_meas_def except_when_def act_simps
        stale_with_events_tables upd_inst_def watch_stop_instrument_def m list_all_iff option.map_comp o_def
        split: option.splits)
qed

theorem iunlock_releases_witness:
  "dict_get (instruments (snd (handle_unlock sample_env [''sim''] (client_context 1) sample))) ''sim''
     = Some (unlocked IDLE sample_instrument)"
proof -
  have u: "upper ''sim'' \<noteq> ''ALL''" by code_simp
  have "after_safe_state sample_env sample_instrument (world sample) = IDLE"
    using lab_safe_state[of sample_lab 1 quiet_site]
    by (simp add: after_safe_state_def sample_env_def sample_def new_server_def sample_lab_def dict_mem_def dict_get_def)
  with iunlock_releases[of sample "''sim''" sample_instrument 1 sample_env "[]"] u show ?thesis
    by (auto simp: dict_simps split: prod.splits)
qed

text \<open>\<open>IUNLOCK\<close> by a session that does not own the instrument is refused and leaves the lock, but it has
  already switched off the owner's guards.\<close>

lemma iunlock_by_stranger_stops_guards:
  assumes "dict_get (instruments s) name = Some i" "lock_owner i = Some own" "cid \<noteq> own" "upper name \<noteq> ''ALL''"
  shows "handle_unlock env [name] (client_context cid) s
           = (Inr (''-LOCKED '' @ owned_by_text name own @ crlf), s\<lparr>watches := dict_del (watches s) name\<rparr>)"
  using assms
  by (simp add: handle_unlock_def client_context_def unlock_with_meas_def except_when_def act_simps
      registry_unlock_def get_inst_def watch_stop_instrument_def)

lemma iunlock_by_stranger_stops_guards_witness:
  "watches (snd (handle_unlock sample_env [''sim''] (client_context 2)
     (watch_start ''sim'' ''VOUT'' 1000 None (Some (f_of_int 5)) sample))) = []"
proof -
  let ?s = "watch_start ''sim'' ''VOUT'' 1000 None (Some (f_of_int 5)) sample"
  have i: "dict_get (instruments ?s) ''sim'' = Some sample_instrument"
    by (simp add: watch_start_def watch_stop_def Let_def)
  have w: "dict_del (watches ?s) ''sim'' = []"
    by (simp add: watch_start_def watch_stop_def Let_def inst_watches_def sample_defs dict_simps dict_mem_def
        dict_set_def dict_del_def dict_get_def)
  have u: "upper ''sim'' \<noteq> ''ALL''" by code_simp
  show ?thesis
    using iunlock_by_stranger_stops_guards[OF i, of 1 2 sample_env] u w by simp
qed

end
