(* ===== verification/Supervision.thy ===== *)
theory Supervision
  imports Locks
begin

text \<open>
  What happens around a driver call: the watchdog and the counters, the guards on resources and the
  health checks (\<open>_tracked_call\<close> of \<open>testcore/instruments.py\<close>, \<open>testcore/watch.py\<close>,
  \<open>testcore/health.py\<close>), as seen by the instrument, its measurements and the hardware.
\<close>

subsection \<open>One instrument of the table\<close>

lemma upd_inst_get:
  "dict_get (instruments (upd_inst name f s)) name = map_option f (dict_get (instruments s) name)"
  by (simp add: upd_inst_def dict_simps split: option.splits)

lemma upd_inst_registry [simp]:
  "world (upd_inst name f s) = world s" "spawned (upd_inst name f s) = spawned s"
  "driver_timeout (upd_inst name f s) = driver_timeout s"
  by (simp_all add: upd_inst_def split: option.splits)

lemma upd_inst_server [simp]:
  "kv (upd_inst name f s) = kv s" "watches (upd_inst name f s) = watches s"
  "health_tasks (upd_inst name f s) = health_tasks s"
  by (simp_all add: upd_inst_def split: option.splits)

lemma spawn_registry [simp]:
  "instruments (spawn t name reason s) = instruments s" "world (spawn t name reason s) = world s"
  "spawned (spawn t name reason s) = spawned s @ [(t, name, reason)]"
  by (simp_all add: spawn_def)

lemma spawn_server [simp]:
  "kv (spawn t name reason s) = kv s" "watches (spawn t name reason s) = watches s"
  "health_tasks (spawn t name reason s) = health_tasks s"
  by (simp_all add: spawn_def)

lemma publish_any [simp]:
  "kv (publish_instrument env t name kw s) = kv s" "kv (publish_meas env inst res v ts st s) = kv s"
  "watches (publish_instrument env t name kw s) = watches s" "watches (publish_meas env inst res v ts st s) = watches s"
  "world (publish_instrument env t name kw s) = world s" "world (publish_meas env inst res v ts st s) = world s"
  by (simp_all add: publish_instrument_def publish_meas_def)

lemma publish_health [simp]:
  "health_tasks (publish_on env ch payload key s) = health_tasks s"
  "health_tasks (publish_instrument env t name kw s) = health_tasks s"
  by (simp_all add: publish_on_def publish_instrument_def split: prod.splits)

lemma file_meas_other [simp]:
  "instruments (file_meas env inst res v st s) = instruments s" "world (file_meas env inst res v st s) = world s"
  "watches (file_meas env inst res v st s) = watches s"
  by (simp_all add: file_meas_def)

lemma file_meas_get:
  "get_meas (kv (file_meas env inst res v st s)) inst res = Some \<lparr> meas_val = v, meas_ts = now env s, meas_status = st \<rparr>"
  by (simp add: file_meas_def get_meas_def write_meas_def dict_simps)

subsection \<open>Properties\<close>

text \<open>C14: reading a resource, in every state of the instrument and for every way the driver can end.  Unless the
  instrument is READY the call is refused without touching it or the hardware, with the kind of error that
  its state asks for.  Otherwise a value is returned and counted as a call, a driver error is returned and
  counted and keeps the state, a timeout is an error and makes the instrument UNRESPONSIVE, and any other
  exception is an error and makes it FAULT; the changes of state are announced, and the owner stays.\<close>

theorem read_outcomes:
  assumes "dict_get (instruments s) name = Some i" "iname i = name" "d_read env (driver i) res (world s) = (out, w)"
  shows "case registry_read env name res s of (r, s') \<Rightarrow>
    if istate i \<noteq> READY
    then s' = s \<and> (case r of Inl e \<Rightarrow> (case istate i of IDLE \<Rightarrow> is_IdleError e | LOCKED \<Rightarrow> is_NotInitError e | _ \<Rightarrow> is_FaultError e)
                          | Inr _ \<Rightarrow> False)
    else world s' = w
         \<and> (case out of
              Ret v \<Rightarrow> r = Inr v
                \<and> dict_get (instruments s') name
                    = Some (add_response_time (f_sub (perf_counter env w) (perf_counter env (world s)))
                             (i\<lparr>last_call_ok := monotonic env w, total_calls := Suc (total_calls i)\<rparr>))
                \<and> spawned s' = spawned s
            | RaisesDriver e \<Rightarrow> r = Inl (DriverError e)
                \<and> dict_get (instruments s') name = Some (i\<lparr>total_errors := Suc (total_errors i)\<rparr>)
                \<and> spawned s' = spawned s
            | TimesOut _ \<Rightarrow> isl r
                \<and> map_option (\<lambda>j. (istate j, lock_owner j)) (dict_get (instruments s') name) = Some (UNRESPONSIVE, lock_owner i)
                \<and> spawned s' = spawned s @ [(''UNRESPONSIVE'', name, ''driver_timeout'')]
            | Raises e \<Rightarrow> isl r
                \<and> dict_get (instruments s') name = Some (i\<lparr>istate := FAULT, total_errors := Suc (total_errors i)\<rparr>)
                \<and> spawned s' = spawned s @ [(''FAULT'', name, e)])"
  using assms
  by (cases "istate i"; cases out)
    (simp_all add: registry_read_def ready_call_def act_simps get_inst_def check_ready_def tracked_call_def call_driver_def
      upd_inst_get Let_def)

theorem read_outcomes_witness:
  "fst (registry_read sample_env ''sim'' ''FREQ'' sample) = Inr ''0.0''"
proof -
  obtain w where d: "d_read sample_env 1 ''FREQ'' sample_lab = (Ret ''0.0'', w)" using sample_reads by blast
  from read_outcomes[of sample "''sim''" sample_instrument sample_env "''FREQ''" "Ret ''0.0''" w] d
  show ?thesis by (cases "registry_read sample_env ''sim'' ''FREQ'' sample") (simp del: One_nat_def)
qed

text \<open>Whether a value read from the instrument is out of its limits.\<close>

definition out_of_limits :: "watch_entry \<Rightarrow> string \<Rightarrow> bool" where
  "out_of_limits e val = (case read_float val of Some x \<Rightarrow> violated (min_val e) (max_val e) x | None \<Rightarrow> False)"

lemma no_limits: "min_val e = None \<Longrightarrow> max_val e = None \<Longrightarrow> \<not> out_of_limits e val"
  by (simp add: out_of_limits_def violated_def split: option.splits)

lemma guard_trip_spec:
  "case guard_trip env name drv res val lo hi s of s' \<Rightarrow>
     world s' = snd (d_safe_state env drv (world s))
     \<and> dict_get (instruments s') name = map_option (\<lambda>i. i\<lparr>istate := FAULT\<rparr>) (dict_get (instruments s) name)
     \<and> map_option (\<lambda>m. (meas_val m, meas_status m)) (get_meas (kv s') name res) = Some (Some val, ''GUARD_FAULT'')"
  by (simp add: guard_trip_def Let_def quietly_def act_simps call_out_def upd_inst_get file_meas_get
      split: prod.splits sum.splits)

text \<open>C13: a guard trips exactly when the value it read is a number out of its limits: then, and only then, the
  instrument is put in its safe state and marked FAULT, and the measurement says \<open>GUARD_FAULT\<close>;
  otherwise the instrument stays READY and the measurement is \<open>OK\<close>.\<close>

theorem guard_trips_iff_out_of_limits:
  assumes "dict_get (instruments s) name = Some i" "istate i = READY"
    and "dict_get (inst_watches s name) res = Some e" "watch_alive e"
    and "d_read env (driver i) res (world s) = (Ret val, w)"
  shows "case watch_tick env name res s of s' \<Rightarrow>
    map_option istate (dict_get (instruments s') name) = Some (if out_of_limits e val then FAULT else READY)
    \<and> world s' = (if out_of_limits e val then snd (d_safe_state env (driver i) w) else w)
    \<and> map_option (\<lambda>m. (meas_val m, meas_status m)) (get_meas (kv s') name res)
        = Some (Some val, if out_of_limits e val then ''GUARD_FAULT'' else ''OK'')"
proof -
  let ?s1 = "upd_inst name (\<lambda>i. i\<lparr>last_call_ok := monotonic env w\<rparr>) (s\<lparr>world := w\<rparr>)"
  let ?s3 = "file_meas env name res (Some val) ''OK'' (upd_inst name (\<lambda>i. i\<lparr>total_calls := Suc (total_calls i)\<rparr>) ?s1)"
  let ?s4 = "publish_meas env name res (Some val) (now env ?s3) ''OK'' ?s3"
  have t: "watch_tick env name res s
      = (if out_of_limits e val then guard_trip env name (driver i) res val (min_val e) (max_val e) ?s4 else ?s4)"
    using assms no_limits[of e val]
    by (auto simp: watch_tick_def watch_turn_def call_driver_def Let_def out_of_limits_def split: option.splits)
  have i: "dict_get (instruments ?s4) name
      = Some (i\<lparr>last_call_ok := monotonic env w, total_calls := Suc (total_calls i)\<rparr>)"
    using assms(1) by (simp add: upd_inst_get)
  show ?thesis
    using guard_trip_spec[of env name "driver i" res val "min_val e" "max_val e" ?s4] i assms(2)
    by (simp add: t file_meas_get)
qed

theorem guard_trips_iff_out_of_limits_witness:
  "map_option istate (dict_get (instruments (watch_tick sample_env ''sim'' ''FREQ''
     (watch_start ''sim'' ''FREQ'' 1000 (Some (f_of_int 1)) None sample))) ''sim'') = Some FAULT"
proof -
  let ?s = "watch_start ''sim'' ''FREQ'' 1000 (Some (f_of_int 1)) None sample"
  let ?e = "\<lparr> interval_ms = 1000, min_val = Some (f_of_int 1), max_val = None, watch_alive = True \<rparr>"
  obtain w where d: "d_read sample_env 1 ''FREQ'' sample_lab = (Ret ''0.0'', w)" using sample_reads by blast
  have s: "instruments ?s = instruments sample" "world ?s = sample_lab" "dict_get (inst_watches ?s ''sim'') ''FREQ'' = Some ?e"
    by (simp_all add: watch_start_def watch_stop_def Let_def inst_watches_def dict_simps)
  have o': "out_of_limits ?e ''0.0''" by (simp add: out_of_limits_def violated_def) code_simp
  show ?thesis
    using guard_trips_iff_out_of_limits[of ?s "''sim''" sample_instrument "''FREQ''" ?e sample_env "''0.0''" w] d s o'
    by (simp del: One_nat_def)
qed

text \<open>An exception that is not a driver error ends a guard for good: the guard is still
  listed, but from then on it never reads again, and the instrument stays READY.\<close>

lemma guard_dies_silently:
  assumes "dict_get (instruments s) name = Some i" "istate i = READY"
    and "dict_get (inst_watches s name) res = Some e" "watch_alive e"
    and "d_read env (driver i) res (world s) = (Raises msg, w)"
  shows "case watch_tick env name res s of s' \<Rightarrow>
    has_watch s' name res \<and> dict_get (instruments s') name = Some i \<and> watch_tick env' name res s' = s'"
proof -
  have t: "watch_tick env name res s
      = s\<lparr>world := w, watches := dict_set (watches s) name (dict_set (inst_watches s name) res (e\<lparr>watch_alive := False\<rparr>))\<rparr>"
    using assms by (simp add: watch_tick_def watch_turn_def call_driver_def Let_def) (simp add: inst_watches_def)
  show ?thesis
    unfolding t using assms(1) by (simp add: has_watch_def watch_tick_def inst_watches_def dict_simps)
qed

lemma guard_dies_silently_witness:
  "let env = sample_env\<lparr>d_read := \<lambda>_ _ l. (Raises ''broken pipe'', l)\<rparr>;
       s = watch_tick env ''sim'' ''FREQ'' (watch_start ''sim'' ''FREQ'' 1000 (Some (f_of_int 1)) None sample)
   in has_watch s ''sim'' ''FREQ'' \<and> watch_tick sample_env ''sim'' ''FREQ'' s = s"
proof -
  let ?env = "sample_env\<lparr>d_read := \<lambda>_ _ l. (Raises ''broken pipe'', l)\<rparr>"
  let ?s = "watch_start ''sim'' ''FREQ'' 1000 (Some (f_of_int 1)) None sample"
  let ?e = "\<lparr> interval_ms = 1000, min_val = Some (f_of_int 1), max_val = None, watch_alive = True \<rparr>"
  have s: "instruments ?s = instruments sample" "world ?s = sample_lab" "dict_get (inst_watches ?s ''sim'') ''FREQ'' = Some ?e"
    by (simp_all add: watch_start_def watch_stop_def Let_def inst_watches_def dict_simps)
  show ?thesis
    using guard_dies_silently[of ?s "''sim''" sample_instrument "''FREQ''" ?e ?env "''broken pipe''" sample_lab sample_env] s
    by (simp add: Let_def)
qed

subsection \<open>Health checks\<close>

lemma health_tick_fails:
  assumes "dict_get (health_tasks s) name = Some (Some interval)" "dict_get (instruments s) name = Some i"
    and "istate i \<notin> {FAULT, UNRESPONSIVE}" "\<not> f_lt (f_sub (monotonic env (world s)) (last_call_ok i)) interval"
    and "fst (d_passthrough env (driver i) ''*IDN?'' (world s)) = RaisesDriver msg"
  shows "health_tasks (health_tick env name s) = health_tasks s
         \<and> dict_get (instruments (health_tick env name s)) name
             = Some (i\<lparr>health_failures := Suc (health_failures i),
                        istate := (if HEALTH_MAX_FAILURES \<le> Suc (health_failures i) then UNRESPONSIVE else istate i)\<rparr>)"
proof -
  obtain w where d: "d_passthrough env (driver i) ''*IDN?'' (world s) = (RaisesDriver msg, w)"
    using assms(5) by (cases "d_passthrough env (driver i) ''*IDN?'' (world s)") simp
  have c: "call_driver env name (driver_timeout s) (d_passthrough env (driver i) ''*IDN?'') s
      = (Inl (DriverError msg), s\<lparr>world := w\<rparr>)"
    by (simp add: call_driver_def d)
  have t: "health_tick env name s = health_failed env name (s\<lparr>world := w\<rparr>)"
    using assms(1-4) c by (simp add: health_tick_def)
  show ?thesis
    using assms(2,3) by (auto simp: t health_failed_def Let_def upd_inst_get)
qed

text \<open>A FAULT or UNRESPONSIVE instrument is not pinged.\<close>

lemma health_tick_idle:
  assumes "dict_get (instruments t) name = Some j" "istate j \<in> {FAULT, UNRESPONSIVE}"
  shows "health_tick env name t = t"
  using assms by (auto simp: health_tick_def split: option.splits)

text \<open>C21: an instrument without other calls whose health checks end in driver errors, with no failure before,
  stays in its state for two of them and becomes UNRESPONSIVE at the third in a row; after that it is left
  alone.  (A check that times out makes it UNRESPONSIVE at once, in \<open>call_driver\<close>.)\<close>

theorem three_failed_pings:
  assumes "dict_get (health_tasks s) name = Some (Some interval)" "dict_get (instruments s) name = Some i"
    and "istate i \<notin> {FAULT, UNRESPONSIVE}" "health_failures i = 0"
    and idle: "\<And>w. \<not> f_lt (f_sub (monotonic env w) (last_call_ok i)) interval"
    and fails: "\<And>w. \<exists>msg. fst (d_passthrough env (driver i) ''*IDN?'' w) = RaisesDriver msg"
  shows "dict_get (instruments ((health_tick env name ^^ k) s)) name
           = Some (i\<lparr>health_failures := min k HEALTH_MAX_FAILURES,
                      istate := (if HEALTH_MAX_FAILURES \<le> k then UNRESPONSIVE else istate i)\<rparr>)"
proof -
  have "health_tasks ((health_tick env name ^^ k) s) = health_tasks s
      \<and> dict_get (instruments ((health_tick env name ^^ k) s)) name
           = Some (i\<lparr>health_failures := min k HEALTH_MAX_FAILURES,
                      istate := (if HEALTH_MAX_FAILURES \<le> k then UNRESPONSIVE else istate i)\<rparr>)" (is "?P k")
  proof (induction k)
    case 0
    show ?case using assms(2,4) by (simp add: HEALTH_MAX_FAILURES_def)
  next
    case (Suc k)
    let ?s = "(health_tick env name ^^ k) s"
    show ?case
    proof (cases "HEALTH_MAX_FAILURES \<le> k")
      case True
      with Suc.IH have "health_tick env name ?s = ?s"
        by (intro health_tick_idle) auto
      with True Suc.IH show ?thesis by simp
    next
      case False
      let ?i = "i\<lparr>health_failures := min k HEALTH_MAX_FAILURES, istate := istate i\<rparr>"
      obtain msg where m: "fst (d_passthrough env (driver ?i) ''*IDN?'' (world ?s)) = RaisesDriver msg"
        using fails[of "world ?s"] by auto
      have "dict_get (instruments ?s) name = Some ?i" using Suc.IH False by simp
      from health_tick_fails[OF _ this _ _ m, of interval] Suc.IH assms(1,3) idle[of "world ?s"] False
      show ?thesis by (auto simp: min_def)
    qed
  qed
  then show ?thesis by blast
qed

theorem three_failed_pings_witness:
  "let env = sample_env\<lparr>d_passthrough := \<lambda>_ _ w. (RaisesDriver ''no answer'', w), monotonic := \<lambda>_. f_of_int 60\<rparr>;
       s = sample\<lparr>health_tasks := [(''sim'', Some (f_of_int 30))]\<rparr>
   in map_option istate (dict_get (instruments ((health_tick env ''sim'' ^^ 2) s)) ''sim'') = Some READY
      \<and> map_option istate (dict_get (instruments ((health_tick env ''sim'' ^^ 3) s)) ''sim'') = Some UNRESPONSIVE"
proof -
  let ?env = "sample_env\<lparr>d_passthrough := \<lambda>_ _ w. (RaisesDriver ''no answer'', w), monotonic := \<lambda>_. f_of_int 60\<rparr>"
  let ?s = "sample\<lparr>health_tasks := [(''sim'', Some (f_of_int 30))]\<rparr>"
  have i: "last_call_ok sample_instrument = f_of_int 0" "health_failures sample_instrument = 0"
    by (simp_all add: sample_instrument_def)
  have f: "\<not> f_lt (f_sub (f_of_int 60) (f_of_int 0)) (f_of_int 30)" by code_simp
  have d: "dict_get [(''sim'', Some (f_of_int 30))] ''sim'' = Some (Some (f_of_int 30))" by (simp add: dict_get_def)
  note P = three_failed_pings[of ?s "''sim''" "f_of_int 30" sample_instrument ?env]
  show ?thesis
    using P[of 2] P[of 3] i f d by (simp add: Let_def HEALTH_MAX_FAILURES_def)
qed

end
