(* ===== verification/ProtocolStream.thy ===== *)
theory ProtocolStream
  imports Protocol
begin

text \<open>
  What a byte stream means does not depend on how the network cuts it, and what one side writes the
  other side reads back.  Both are stated as interfaces: \<open>stream_parser\<close> (a complete message stays the
  same message when more bytes arrive) gives that feeding chunk by chunk is feeding the whole stream,
  and \<open>frame_codec\<close> (an encoded value parses back, and consumes exactly its encoding) gives that a
  pipeline of encodings parses to the pipeline.  They are interpreted here for the server's parser and
  for the commands a client writes.
\<close>

subsection \<open>Interfaces\<close>

text \<open>\<open>fine\<close> selects the byte streams the laws are about.\<close>

locale stream_parser =
  fixes parse :: "string \<Rightarrow> 'm parsed"
    and fine :: "string \<Rightarrow> bool"
  assumes fine_prefix: "fine (b @ c) \<Longrightarrow> fine b"
    and fine_rest: "fine b \<Longrightarrow> parse b = Inr (m, n) \<Longrightarrow> 0 < n \<Longrightarrow> fine (drop n b)"
    and parse_empty: "\<exists>m. parse [] = Inr (m, 0)"
    and parse_more: "fine (b @ c) \<Longrightarrow> parse b = Inr (m, n) \<Longrightarrow> 0 < n
                       \<Longrightarrow> parse (b @ c) = Inr (m, n) \<and> n \<le> length b"
    and parse_fail: "fine (b @ c) \<Longrightarrow> parse b = Inl (e, r) \<Longrightarrow> \<exists>r'. parse (b @ c) = Inl (e, r')"
begin

lemma drain_empty: "drain parse [] = (Inr [], [])"
  using parse_empty by (auto simp: drain.simps[of parse "[]"])

text \<open>What is drained first stays the beginning of what is drained later.\<close>

lemma drain_append:
  "fine (b @ c) \<Longrightarrow> drain parse b = (Inr ms, r) \<Longrightarrow>
   drain parse (b @ c) =
     (case drain parse (r @ c) of (Inl e, s) \<Rightarrow> (Inl e, s) | (Inr ms', s) \<Rightarrow> (Inr (ms @ ms'), s))"
proof (induction "length b" arbitrary: b ms r rule: less_induct)
  case less
  show ?case
  proof (cases "parse b")
    case (Inl er)
    then obtain e s where "parse b = Inl (e, s)" by (cases er) auto
    with less.prems(2) show ?thesis by (simp add: drain.simps[of parse b])
  next
    case (Inr mn)
    then obtain m n where p: "parse b = Inr (m, n)" by (cases mn) auto
    show ?thesis
    proof (cases "n = 0 \<or> b = []")
      case True
      with p less.prems(2) have "ms = []" "r = b" by (auto simp: drain.simps[of parse b])
      then show ?thesis by (auto split: prod.splits sum.splits)
    next
      case False
      then have n: "0 < n" "b \<noteq> []" by auto
      from parse_more[OF less.prems(1) p n(1)]
      have pc: "parse (b @ c) = Inr (m, n)" and le: "n \<le> length b" by auto
      from less.prems(2) p n obtain ms' where d: "drain parse (drop n b) = (Inr ms', r)" and ms: "ms = m # ms'"
        by (auto simp: drain.simps[of parse b] split: prod.splits sum.splits)
      have "fine (drop n b @ c)"
        using fine_rest[OF less.prems(1) pc n(1)] le by simp
      then have "drain parse (drop n b @ c) =
          (case drain parse (r @ c) of (Inl e, s) \<Rightarrow> (Inl e, s) | (Inr ms'', s) \<Rightarrow> (Inr (ms' @ ms''), s))"
        using less.hyps[of "drop n b"] n d by simp
      then show ?thesis
        using pc n le by (simp add: drain.simps[of parse "b @ c"] ms split: prod.splits sum.splits)
    qed
  qed
qed

lemma drain_fine: "fine b \<Longrightarrow> drain parse b = (Inr ms, r) \<Longrightarrow> fine r"
proof (induction "length b" arbitrary: b ms rule: less_induct)
  case less
  obtain m n where p: "parse b = Inr (m, n)"
    using less.prems(2) by (cases "parse b") (auto simp: drain.simps[of parse b])
  show ?case
  proof (cases "n = 0 \<or> b = []")
    case True
    with p less.prems show ?thesis by (auto simp: drain.simps[of parse b])
  next
    case False
    then have n: "0 < n" "b \<noteq> []" by auto
    with p less.prems(2) obtain ms' where "drain parse (drop n b) = (Inr ms', r)"
      by (auto simp: drain.simps[of parse b] split: prod.splits sum.splits)
    then show ?thesis
      using less.hyps[of "drop n b"] fine_rest[OF less.prems(1) p n(1)] n by simp
  qed
qed

end

text \<open>\<open>stable r r' len\<close>: a value \<open>r\<close> found in \<open>len\<close> bytes is found again as \<open>r'\<close>, and so is an error.\<close>

definition stable :: "('e \<times> string) + ('m \<times> nat) \<Rightarrow> ('e \<times> string) + ('m \<times> nat) \<Rightarrow> nat \<Rightarrow> bool" where
  "stable r r' len =
     ((\<forall>v n. r = Inr (v, n) \<longrightarrow> 0 < n \<longrightarrow> r' = r \<and> n \<le> len) \<and>
      (\<forall>e b. r = Inl (e, b) \<longrightarrow> (\<exists>b'. r' = Inl (e, b'))))"

lemma stable_value: "stable r r' len \<Longrightarrow> r = Inr (v, n) \<Longrightarrow> 0 < n \<Longrightarrow> r' = Inr (v, n) \<and> n \<le> len"
  by (simp add: stable_def)

lemma stable_error: "stable r r' len \<Longrightarrow> r = Inl (e, b) \<Longrightarrow> \<exists>b'. r' = Inl (e, b')"
  by (simp add: stable_def)

lemma stable_incomplete [simp]: "stable (Inr (m, 0)) r' len"
  by (simp add: stable_def)

text \<open>An encoder whose output parses back; \<open>good\<close> selects the values that can be encoded.\<close>

locale frame_codec =
  fixes enc :: "'a \<Rightarrow> string"
    and dec :: "string \<Rightarrow> 'm parsed"
    and val :: "'a \<Rightarrow> 'm"
    and good :: "'a \<Rightarrow> bool"
  assumes dec_enc: "good x \<Longrightarrow> dec (enc x @ rest) = Inr (val x, length (enc x))"
    and enc_nonempty: "enc x \<noteq> []"
begin

lemma drain_pipeline:
  "(\<And>x. x \<in> set xs \<Longrightarrow> good x) \<Longrightarrow>
   drain dec (concat (map enc xs) @ rest) =
     (case drain dec rest of (Inl e, b) \<Rightarrow> (Inl e, b) | (Inr ms, b) \<Rightarrow> (Inr (map val xs @ ms), b))"
proof (induction xs)
  case Nil
  then show ?case by (auto split: prod.splits sum.splits)
next
  case (Cons x xs)
  have "dec (enc x @ concat (map enc xs) @ rest) = Inr (val x, length (enc x))"
    using Cons.prems by (intro dec_enc) simp
  with Cons enc_nonempty[of x] show ?case
    by (simp add: drain.simps[of dec "enc x @ concat (map enc xs) @ rest"] split: prod.splits sum.splits)
qed

end

text \<open>The byte streams that begin a pipeline of encodings.\<close>

definition stream_of :: "('a \<Rightarrow> string) \<Rightarrow> ('a \<Rightarrow> bool) \<Rightarrow> string \<Rightarrow> bool" where
  "stream_of enc good b = (\<exists>xs c. list_all good xs \<and> b @ c = concat (map enc xs))"

lemma stream_of_prefix: "stream_of enc good (b @ c) \<Longrightarrow> stream_of enc good b"
  by (auto simp: stream_of_def)

lemma stream_of_pipeline: "list_all good xs \<Longrightarrow> stream_of enc good (concat (map enc xs))"
  unfolding stream_of_def by (intro exI[of _ xs] exI[of _ "[]"]) simp

text \<open>A codec whose decoder is not disturbed by the bytes that follow decodes streams chunk by chunk.\<close>

locale framed_stream = frame_codec enc dec val good
  for enc :: "'a \<Rightarrow> string" and dec :: "string \<Rightarrow> 'm parsed" and val and good +
  assumes dec_empty: "\<exists>m. dec [] = Inr (m, 0)"
    and dec_more: "good x \<Longrightarrow> b \<noteq> [] \<Longrightarrow> hd b = hd (enc x) \<Longrightarrow> stable (dec b) (dec (b @ c)) (length b)"
begin

lemma stream_stable: "stream_of enc good (b @ c) \<Longrightarrow> stable (dec b) (dec (b @ c)) (length b)"
proof (cases "b = []")
  case True
  then show ?thesis using dec_empty by (auto simp: stable_def)
next
  case False
  assume "stream_of enc good (b @ c)"
  then obtain xs d where xs: "list_all good xs" and e: "(b @ c) @ d = concat (map enc xs)"
    by (auto simp: stream_of_def)
  from e False obtain x ys where ys: "xs = x # ys" by (cases xs) auto
  have "hd b = hd (enc x)"
    using arg_cong[OF e, of hd] False enc_nonempty[of x] by (simp add: ys hd_append)
  with xs ys False show ?thesis by (intro dec_more) auto
qed

text \<open>What the decoder sees of a value that is still arriving: nothing until the last byte is there.\<close>

lemma dec_prefix:
  assumes "good x" "b @ c = enc x @ rest"
  shows "length b < length (enc x) \<Longrightarrow> \<exists>m. dec b = Inr (m, 0)"
    and "length (enc x) \<le> length b \<Longrightarrow> dec b = Inr (val x, length (enc x))"
proof -
  assume short: "length b < length (enc x)"
  show "\<exists>m. dec b = Inr (m, 0)"
  proof (cases "b = []")
    case True
    then show ?thesis using dec_empty by simp
  next
    case False
    then have "hd b = hd (enc x)"
      using arg_cong[OF assms(2), of hd] enc_nonempty[of x] by (simp add: hd_append)
    from dec_more[OF assms(1) False this, of c] assms(2)
    have st: "stable (dec b) (Inr (val x, length (enc x))) (length b)"
      using dec_enc[OF assms(1), of rest] by simp
    show ?thesis
    proof (cases "dec b")
      case (Inl er)
      obtain e r where "er = (e, r)" by fastforce
      with stable_error[OF st] Inl show ?thesis by auto
    next
      case (Inr mn)
      obtain m n where "mn = (m, n)" by fastforce
      with stable_value[OF st, of m n] Inr short show ?thesis by (cases "n = 0") auto
    qed
  qed
next
  assume "length (enc x) \<le> length b"
  then have "b = enc x @ drop (length (enc x)) b"
    using arg_cong[OF assms(2), of "take (length (enc x))"] by (metis append_eq_conv_conj append_take_drop_id take_append take_all_iff diff_is_0_eq take_0 append_Nil2)
  then show "dec b = Inr (val x, length (enc x))"
    using dec_enc[OF assms(1)] by metis
qed

text \<open>Draining the beginning of a pipeline: whole values come out, what is kept is the beginning of
  the next one.\<close>

lemma drain_prefix:
  "list_all good xs \<Longrightarrow> b @ c = concat (map enc xs) \<Longrightarrow> list_all (\<lambda>x. length (enc x) \<le> L) xs \<Longrightarrow>
   \<exists>ys zs r. xs = ys @ zs \<and> drain dec b = (Inr (map val ys), r) \<and> r @ c = concat (map enc zs)
     \<and> length r \<le> L"
proof (induction xs arbitrary: b)
  case Nil
  then have "drain dec b = (Inr [], b)"
    using dec_empty by (auto simp: drain.simps[of dec "[]"])
  with Nil show ?case by auto
next
  case (Cons x xs)
  have bc: "b @ c = enc x @ concat (map enc xs)" and x: "good x" using Cons.prems by auto
  show ?case
  proof (cases "length b < length (enc x)")
    case True
    then obtain m where "dec b = Inr (m, 0)" using dec_prefix(1)[OF x bc] by auto
    then have "drain dec b = (Inr [], b)" by (simp add: drain.simps[of dec b])
    with True Cons.prems show ?thesis
      by (intro exI[of _ "[]"] exI[of _ "x # xs"] exI[of _ b]) auto
  next
    case False
    then have d: "dec b = Inr (val x, length (enc x))" using dec_prefix(2)[OF x bc] by simp
    define b' where "b' = drop (length (enc x)) b"
    have "b' @ c = concat (map enc xs)"
      using arg_cong[OF bc, of "drop (length (enc x))"] False by (simp add: b'_def)
    from Cons.IH[OF _ this] Cons.prems(1,3) obtain ys zs r where
      r: "xs = ys @ zs" "drain dec b' = (Inr (map val ys), r)" "r @ c = concat (map enc zs)"
         "length r \<le> L" by auto
    have "b \<noteq> []" using False enc_nonempty[of x] by auto
    with d r(2) enc_nonempty[of x] have "drain dec b = (Inr (map val (x # ys)), r)"
      by (simp add: drain.simps[of dec b] b'_def)
    with r show ?thesis by (intro exI[of _ "x # ys"] exI[of _ zs] exI[of _ r]) auto
  qed
qed

lemma stream_rest: "stream_of enc good b \<Longrightarrow> dec b = Inr (m, n) \<Longrightarrow> 0 < n \<Longrightarrow> stream_of enc good (drop n b)"
proof -
  assume b: "stream_of enc good b" and d: "dec b = Inr (m, n)" "0 < n"
  then obtain xs c where xs: "list_all good xs" and e: "b @ c = concat (map enc xs)"
    by (auto simp: stream_of_def)
  from d dec_empty have "b \<noteq> []" by auto
  with e obtain x ys where ys: "xs = x # ys" by (cases xs) auto
  have "stream_of enc good (b @ c)" using stream_of_pipeline[OF xs, of enc] e by simp
  from stable_value[OF stream_stable[OF this] d] have more: "dec (b @ c) = Inr (m, n)" "n \<le> length b" by auto
  have "dec (b @ c) = Inr (val x, length (enc x))"
    using dec_enc[of x "concat (map enc ys)"] xs e by (simp add: ys)
  with more have n: "n = length (enc x)" by simp
  have "drop n (b @ c) = drop n (enc x @ concat (map enc ys))" by (simp add: e ys)
  with n more(2) have "drop n b @ c = concat (map enc ys)" by simp
  with xs ys show ?thesis unfolding stream_of_def by (intro exI[of _ ys] exI[of _ c]) simp
qed

end

sublocale framed_stream \<subseteq> stream: stream_parser dec "stream_of enc good"
proof
  fix b c m n assume "stream_of enc good (b @ c)" "dec b = Inr (m, n)" "0 < n"
  then show "dec (b @ c) = Inr (m, n) \<and> n \<le> length b"
    using stable_value[OF stream_stable] by blast
next
  fix b c e r assume "stream_of enc good (b @ c)" "dec b = Inl (e, r)"
  then show "\<exists>r'. dec (b @ c) = Inl (e, r')"
    using stable_error[OF stream_stable] by blast
qed (use dec_empty stream_rest in \<open>blast intro: stream_of_prefix\<close>)+

subsection \<open>A complete value is not changed by more bytes\<close>

lemma find_at_more: "find_at p s k = Some i \<Longrightarrow> find_at p (s @ t) k = Some i"
  by (auto simp: find_at_def intro!: find_sub_mono)

lemma slice_more: "j \<le> length b \<Longrightarrow> slice (b @ c) i j = slice b i j"
  by (cases "i \<le> length b") (auto simp: slice_def)

lemma find_crlf_bound: "find_at crlf s k = Some i \<Longrightarrow> k \<le> i \<and> i + 2 \<le> length s"
  using find_at_bound[of crlf s k i] by (simp add: crlf_def)

definition leaf_stable :: "'e + ('m \<times> nat) \<Rightarrow> 'e + ('m \<times> nat) \<Rightarrow> nat \<Rightarrow> bool" where
  "leaf_stable r r' len =
     ((\<forall>v n. r = Inr (v, n) \<longrightarrow> 0 < n \<longrightarrow> r' = r \<and> n \<le> len) \<and> (\<forall>e. r = Inl e \<longrightarrow> r' = r))"

lemma leaf_stable_incomplete [simp]: "leaf_stable (Inr (m, 0)) r' len"
  by (simp add: leaf_stable_def)

lemma leaf_stable_Inl [simp]: "leaf_stable (Inl e) (Inl e) len"
  by (simp add: leaf_stable_def)

text \<open>A value read from the line up to the next CRLF.\<close>

lemma line_stable:
  assumes "\<And>cr. find_at crlf b k = Some cr \<Longrightarrow> (\<exists>e. f (slice b 1 cr) cr = Inl e) \<or> (\<exists>v. f (slice b 1 cr) cr = Inr (v, cr + 2))"
  shows "leaf_stable
           (case find_at crlf b k of None \<Rightarrow> Inr (m, 0) | Some cr \<Rightarrow> f (slice b 1 cr) cr)
           (case find_at crlf (b @ c) k of None \<Rightarrow> Inr (m, 0) | Some cr \<Rightarrow> f (slice (b @ c) 1 cr) cr)
           (length b)"
proof (cases "find_at crlf b k")
  case None
  then show ?thesis by simp
next
  case (Some cr)
  note bound = find_crlf_bound[OF Some]
  have "find_at crlf (b @ c) k = Some cr" by (rule find_at_more[OF Some])
  moreover have "slice (b @ c) 1 cr = slice b 1 cr" using bound by (intro slice_more) simp
  ultimately show ?thesis
    using Some assms[OF Some] bound by (auto simp: leaf_stable_def)
qed

lemma array_integer_stable: "leaf_stable (array_integer b) (array_integer (b @ c)) (length b)"
  unfolding array_integer_def
  by (rule line_stable[where f = "\<lambda>s cr. case read_int s of None \<Rightarrow> Inl (InvalidInteger s) | Some n \<Rightarrow> Inr (RInt n, cr + 2)"])
    (auto split: option.splits)

lemma array_simple_stable: "leaf_stable (array_simple b) (array_simple (b @ c)) (length b)"
  unfolding array_simple_def
  by (rule line_stable[where f = "\<lambda>s cr. case utf8_decode s of None \<Rightarrow> Inl BadUtf8 | Some t \<Rightarrow> Inr (RStr t, cr + 2)"])
    (auto split: option.splits)

lemma array_error_stable: "leaf_stable (array_error b) (array_error (b @ c)) (length b)"
  unfolding array_error_def
  by (rule line_stable[where f = "\<lambda>s cr. case utf8_decode s of None \<Rightarrow> Inl BadUtf8 | Some t \<Rightarrow> Inr (RStr (''ERR_'' @ t), cr + 2)"])
    (auto split: option.splits)

lemma array_bulk_stable: "leaf_stable (array_bulk b) (array_bulk (b @ c)) (length b)"
proof (cases "find_at crlf b 1")
  case None
  then show ?thesis by (simp add: array_bulk_def)
next
  case (Some cr)
  note bound = find_crlf_bound[OF Some]
  have more: "find_at crlf (b @ c) 1 = Some cr" by (rule find_at_more[OF Some])
  have sl: "slice (b @ c) 1 cr = slice b 1 cr" using bound by (intro slice_more) simp
  show ?thesis
  proof (cases "read_int (slice b 1 cr)")
    case None
    with Some more sl show ?thesis by (simp add: array_bulk_def leaf_stable_def)
  next
    case len: (Some len)
    show ?thesis
    proof (cases "len < 0 \<or> length b < cr + 2 + nat len + 2")
      case True
      with Some len more sl bound show ?thesis
        by (auto simp: array_bulk_def leaf_stable_def Let_def)
    next
      case False
      then have "slice (b @ c) (cr + 2 + nat len) (cr + 2 + nat len + 2) = slice b (cr + 2 + nat len) (cr + 2 + nat len + 2)"
        and "slice (b @ c) (cr + 2) (cr + 2 + nat len) = slice b (cr + 2) (cr + 2 + nat len)"
        by (auto intro!: slice_more)
      with False Some len more sl show ?thesis
        by (auto simp: array_bulk_def leaf_stable_def Let_def split: option.splits)
    qed
  qed
qed

lemma array_leaf_stable: "leaf_stable (array_leaf b) (array_leaf (b @ c)) (length b)"
proof (cases b)
  case Nil
  then show ?thesis by (simp add: array_leaf_def)
next
  case (Cons tb t)
  show ?thesis
    using array_bulk_stable[of b c] array_integer_stable[of b c] array_simple_stable[of b c] array_error_stable[of b c]
    by (auto simp: array_leaf_def Cons)
qed

lemma lift_stable: "leaf_stable r r' len \<Longrightarrow> stable (lift_error b r) (lift_error b' r') len"
  by (auto simp: leaf_stable_def stable_def lift_error_def split: sum.splits)

text \<open>Arrays, by induction along the two mutually recursive functions.\<close>

lemma array_stable:
  "stable (parse_array buf) (parse_array (buf @ c)) (length buf)"
  "stable (array_items buf rest n pos items) (array_items (buf @ c) (rest @ c) n pos items) (pos + length rest)"
proof (induction buf and buf rest n pos items rule: parse_array_array_items.induct)
  case (1 buf)
  show ?case
  proof (cases "find_at crlf buf 0")
    case None
    then show ?thesis by (simp add: parse_array.simps[of buf])
  next
    case (Some cr)
    note bound = find_crlf_bound[OF Some]
    have "find_at crlf (buf @ c) 0 = Some cr" by (rule find_at_more[OF Some])
    moreover have "slice (buf @ c) 1 cr = slice buf 1 cr" using bound by (intro slice_more) simp
    ultimately show ?thesis
      using 1[OF Some] Some bound
      by (auto simp: parse_array.simps[of buf] parse_array.simps[of "buf @ c"] stable_def split: option.splits)
  qed
next
  case (2 buf rest n pos items)
  show ?case
  proof (cases "n \<le> 0 \<or> rest = []")
    case True
    then show ?thesis
      by (auto simp: array_items.simps[of buf rest] array_items.simps[of "buf @ c" "rest @ c"] stable_def)
  next
    case False
    then obtain tb t where rest: "rest = tb # t" and n: "\<not> n \<le> 0" by (cases rest) auto
    define item where "item b r = (if tb = CHR ''*'' then parse_array r else lift_error b (array_leaf r))" for b r
    have unfold: "array_items b (rest @ t) n pos items =
        (case item b (rest @ t) of Inl e \<Rightarrow> Inl e
         | Inr (v, k) \<Rightarrow> if k = 0 then incomplete
             else array_items b (drop k (rest @ t)) (n - 1) (pos + k) (items @ [v]))" for b t
      by (subst array_items.simps) (simp add: rest n item_def)
    have st: "stable (item buf rest) (item (buf @ c) (rest @ c)) (length rest)"
      using 2(1)[OF n rest] array_leaf_stable[of rest c] by (simp add: item_def lift_stable)
    show ?thesis
    proof (cases "item buf rest")
      case (Inl e)
      obtain er b where e: "e = (er, b)" by fastforce
      from stable_error[OF st Inl[unfolded e]] obtain b' where "item (buf @ c) (rest @ c) = Inl (er, b')" ..
      with Inl show ?thesis using unfold[of buf "[]"] by (simp add: unfold e stable_def)
    next
      case (Inr vk)
      obtain v k where vk: "vk = (v, k)" by fastforce
      show ?thesis
      proof (cases "k = 0")
        case True
        with Inr show ?thesis using unfold[of buf "[]"] by (simp add: vk)
      next
        case False
        with stable_value[OF st Inr[unfolded vk]]
        have p: "item (buf @ c) (rest @ c) = Inr (v, k)" "k \<le> length rest" by auto
        have "stable (array_items buf (drop k rest) (n - 1) (pos + k) (items @ [v]))
            (array_items (buf @ c) (drop k rest @ c) (n - 1) (pos + k) (items @ [v])) (pos + length rest)"
          using 2(2)[OF n rest Inr[unfolded item_def] vk[symmetric] False] p(2) by simp
        with Inr p False show ?thesis using unfold[of buf "[]"] by (simp add: unfold vk)
      qed
    qed
  qed
qed

subsection \<open>What the serializer writes, the parser reads\<close>

fun item_value :: "ritem \<Rightarrow> resp" where
  "item_value ANull = RNil"
| "item_value (AStr s) = RStr s"
| "item_value (AInt n) = RInt n"

fun item_good :: "ritem \<Rightarrow> bool" where
  "item_good (AStr s) = utf8_valid s"
| "item_good _ = True"

lemma find_at_line:
  assumes "CHR 0x0D \<notin> set w"
  shows "find_at crlf (t # w @ crlf @ s) 0 = (if t = CHR 0x0D then find_at crlf (t # w @ crlf @ s) 0 else Some (Suc (length w)))"
    and "find_at crlf (t # w @ crlf @ s) 1 = Some (Suc (length w))"
  using find_crlf_skip[of "t # w" s] find_crlf_skip[OF assms, of s] assms
  by (auto simp: find_at_def)

lemma slice_line [simp]: "slice (t # w @ s) (Suc 0) (Suc (length w)) = w"
  by (simp add: slice_def)

lemma slice_body: "slice (t # w @ crlf @ s @ r) (Suc (length w) + 2) (Suc (length w) + 2 + length s) = s"
  by (simp add: slice_def crlf_def)

lemma slice_trailer:
  "slice (t # w @ crlf @ s @ crlf @ r) (Suc (length w) + 2 + length s) (Suc (length w) + 2 + length s + 2) = crlf"
  by (simp add: slice_def crlf_def)

lemma array_bulk_written:
  assumes "utf8_valid s"
  shows "array_bulk (bulk_string s @ r) = Inr (RStr s, length (bulk_string s))"
proof -
  define w where "w = show_nat (length s)"
  have b: "bulk_string s @ r = CHR ''$'' # w @ crlf @ s @ crlf @ r" by (simp add: bulk_string_def w_def)
  have f: "find_at crlf (CHR ''$'' # w @ crlf @ s @ crlf @ r) 1 = Some (Suc (length w))"
    by (rule find_at_line(2)) (simp add: w_def crlf_not_in_show_int)
  have l: "length (bulk_string s) = Suc (length w) + 2 + length s + 2"
    by (simp add: bulk_string_def w_def crlf_def)
  have i: "read_int (slice (CHR ''$'' # w @ crlf @ s @ crlf @ r) 1 (Suc (length w))) = Some (int (length s))"
    by (simp add: w_def)
  have e: "slice (CHR ''$'' # w @ crlf @ s @ crlf @ r) (Suc (length w) + 2 + length s) (Suc (length w) + 2 + length s + 2) = crlf"
    by (rule slice_trailer)
  have t: "slice (CHR ''$'' # w @ crlf @ s @ crlf @ r) (Suc (length w) + 2) (Suc (length w) + 2 + length s) = s"
    by (rule slice_body)
  have n: "\<not> length (CHR ''$'' # w @ crlf @ s @ crlf @ r) < Suc (length w) + 2 + length s + 2"
    by (simp add: crlf_def)
  have d: "utf8_decode s = Some s" using assms by (simp add: utf8_decode_def)
  show ?thesis
    unfolding b array_bulk_def f by (simp only: option.case i Let_def nat_int n e t d l) simp
qed

lemma array_leaf_written:
  "item_good it \<Longrightarrow> array_leaf (array_item it @ r) = Inr (item_value it, length (array_item it))"
proof (cases it)
  case ANull
  have "find_at crlf (CHR ''$'' # ''-1'' @ crlf @ r) 1 = Some 3"
    using find_at_line(2)[of "''-1''" "CHR ''$''" r] by simp
  moreover have "read_int (slice (CHR ''$'' # ''-1'' @ crlf @ r) 1 3) = Some (- 1)"
    using read_int_show_int[of "- 1"]
    by (simp add: slice_def show_int_def show_digits.simps digit_char_def digit_chars_def)
  ultimately show ?thesis
    by (simp add: ANull array_leaf_def array_bulk_def null_reply_def) (simp add: crlf_def)
next
  case (AStr s)
  moreover assume "item_good it"
  ultimately show ?thesis
    using array_bulk_written[of s r] by (simp add: array_leaf_def bulk_string_def)
next
  case (AInt n)
  have f: "find_at crlf (CHR '':'' # show_int n @ crlf @ r) 1 = Some (Suc (length (show_int n)))"
    by (rule find_at_line(2)) (rule crlf_not_in_show_int)
  have i: "read_int (slice (CHR '':'' # show_int n @ crlf @ r) 1 (Suc (length (show_int n)))) = Some n"
    by simp
  have l: "length (integer n) = Suc (length (show_int n)) + 2" by (simp add: integer_def crlf_def)
  have "array_integer (CHR '':'' # show_int n @ crlf @ r) = Inr (RInt n, length (integer n))"
    unfolding array_integer_def f option.case i l ..
  then show ?thesis by (simp add: AInt array_leaf_def integer_def)
qed

lemma array_item_head: "\<exists>t. array_item it = CHR ''$'' # t \<or> array_item it = CHR '':'' # t"
  by (cases it) (auto simp: null_reply_def bulk_string_def integer_def)

lemma array_items_written:
  "(\<And>it. it \<in> set its \<Longrightarrow> item_good it) \<Longrightarrow>
   array_items buf (concat (map array_item its) @ r) (int (length its)) pos acc
     = Inr (RList (acc @ map item_value its), pos + length (concat (map array_item its)))"
proof (induction its arbitrary: pos acc)
  case Nil
  then show ?case by (subst array_items.simps) simp
next
  case (Cons it its)
  obtain c t where h: "array_item it = c # t" "c \<noteq> CHR ''*''" using array_item_head[of it] by auto
  have "array_leaf (array_item it @ concat (map array_item its) @ r) = Inr (item_value it, length (array_item it))"
    using Cons.prems by (intro array_leaf_written) simp
  then show ?case
    using h Cons.IH[of "pos + length (array_item it)" "acc @ [item_value it]"] Cons.prems
    by (subst array_items.simps) (simp add: lift_error_def)
qed

lemma parse_array_written:
  assumes "\<And>it. it \<in> set its \<Longrightarrow> item_good it"
  shows "parse_array (array its @ r) = Inr (RList (map item_value its), length (array its))"
proof -
  define w where "w = show_nat (length its)"
  define body where "body = concat (map array_item its)"
  have b: "array its @ r = CHR ''*'' # w @ crlf @ body @ r" by (simp add: array_def w_def body_def)
  have f: "find_at crlf (CHR ''*'' # w @ crlf @ body @ r) 0 = Some (Suc (length w))"
    using find_at_line(1)[of w "CHR ''*''" "body @ r"] by (simp add: w_def crlf_not_in_show_int)
  have d: "drop (Suc (length w) + 2) (CHR ''*'' # w @ crlf @ body @ r) = body @ r"
    by (simp add: crlf_def)
  have i: "read_int (slice (CHR ''*'' # w @ crlf @ body @ r) 1 (Suc (length w))) = Some (int (length its))"
    by (simp add: w_def)
  have l: "length (array its) = Suc (length w) + 2 + length body"
    by (simp add: array_def w_def body_def crlf_def)
  show ?thesis
    unfolding b parse_array.simps f using array_items_written[OF assms, of its _ r "Suc (length w) + 2" "[]"]
    by (simp only: option.case i d l body_def[symmetric]) simp
qed

lemma parse_message_written:
  "(\<And>it. it \<in> set its \<Longrightarrow> item_good it) \<Longrightarrow>
   parse_message (array its @ r) = Inr (RList (map item_value its), length (array its))"
  using parse_array_written[of its r] by (simp add: parse_message_def array_def)

subsection \<open>The interfaces hold of the server's parser\<close>

definition words_good :: "string list \<Rightarrow> bool" where
  "words_good ws = list_all utf8_valid ws"

definition command_value :: "string list \<Rightarrow> resp" where
  "command_value ws = RList (map RStr ws)"

interpretation command_frames: framed_stream array_strs parse_message command_value words_good
proof
  fix ws r
  assume "words_good ws"
  then have "\<And>it. it \<in> set (map AStr ws) \<Longrightarrow> item_good it" by (auto simp: words_good_def list_all_iff)
  from parse_message_written[of "map AStr ws" r, OF this]
  show "parse_message (array_strs ws @ r) = Inr (command_value ws, length (array_strs ws))"
    by (simp add: array_strs_def command_value_def comp_def)
next
  fix ws b c assume "b \<noteq> []" "hd b = hd (array_strs ws)"
  then obtain t where "b = CHR ''*'' # t" by (cases b) (auto simp: array_strs_def array_def)
  then show "stable (parse_message b) (parse_message (b @ c)) (length b)"
    using array_stable(1)[of b c] by (simp add: parse_message_def)
qed (simp_all add: array_strs_def array_def parse_message_def)

subsection \<open>Feeding a session chunk by chunk\<close>

text \<open>What a session's parser delivers over successive reads; an exception ends it.\<close>

fun feed_all :: "resp_parser \<Rightarrow> string list \<Rightarrow> (parse_error + resp list) \<times> resp_parser" where
  "feed_all p [] = (Inr [], p)"
| "feed_all p (d # ds) =
     (case feed p d of
        (Inl e, p') \<Rightarrow> (Inl e, p')
      | (Inr ms, p') \<Rightarrow>
          (case feed_all p' ds of
             (Inl e, p'') \<Rightarrow> (Inl e, p'')
           | (Inr ms', p'') \<Rightarrow> (Inr (ms @ ms'), p'')))"

lemma feed_all_commands:
  "list_all words_good cmds \<Longrightarrow> buffer p @ concat ds = concat (map array_strs cmds) \<Longrightarrow>
   length (buffer p) \<le> L \<Longrightarrow>
   list_all (\<lambda>w. length (array_strs w) \<le> L) cmds \<Longrightarrow> list_all (\<lambda>d. L + length d \<le> max_buffer_size p) ds \<Longrightarrow>
   ds \<noteq> [] \<Longrightarrow>
   feed_all p ds = (Inr (map command_value cmds), p\<lparr>buffer := []\<rparr>)"
proof (induction ds arbitrary: p cmds)
  case Nil
  then show ?case by simp
next
  case (Cons d ds)
  from Cons.prems have "(buffer p @ d) @ concat ds = concat (map array_strs cmds)" by simp
  from command_frames.drain_prefix[OF Cons.prems(1) this Cons.prems(4)]
  obtain ys zs r where r: "cmds = ys @ zs" "drain parse_message (buffer p @ d) = (Inr (map command_value ys), r)"
      "r @ concat ds = concat (map array_strs zs)" "length r \<le> L" by blast
  have f: "feed p d = (Inr (map command_value ys), p\<lparr>buffer := r\<rparr>)"
    using Cons.prems(3,5) r(2) by (simp add: feed_def)
  show ?case
  proof (cases "ds = []")
    case True
    with r(3) have "zs = [] \<and> r = []"
    proof -
      have "drain parse_message (concat (map array_strs (ys @ zs))) = (Inr (map command_value (ys @ zs)), [])"
        using command_frames.drain_pipeline[of "ys @ zs" "[]"] Cons.prems(1) r(1) command_frames.stream.drain_empty
        by (simp add: list_all_iff)
      moreover have "buffer p @ d = concat (map array_strs (ys @ zs))" using Cons.prems(2) True r(1) by simp
      ultimately show ?thesis using r(2) by simp
    qed
    with f r(1) True show ?thesis by simp
  next
    case False
    with Cons.IH[of zs "p\<lparr>buffer := r\<rparr>"] Cons.prems r(1,3,4) f show ?thesis by simp
  qed
qed

text \<open>Every parser is left with no more than what it was given.\<close>

lemma array_error_buffer:
  "parse_array buf = Inl (e, b) \<Longrightarrow> length b \<le> length buf"
  "array_items buf rest n pos items = Inl (e, b) \<Longrightarrow> length rest \<le> length buf \<Longrightarrow> length b \<le> length buf"
proof (induction buf and buf rest n pos items arbitrary: e b and e b rule: parse_array_array_items.induct)
  case (1 buf)
  then show ?case
    by (auto simp: parse_array.simps[of buf] split: option.splits if_splits)
next
  case (2 buf rest n pos items)
  show ?case
  proof (cases "n \<le> 0 \<or> rest = []")
    case True
    with 2(3) show ?thesis by (auto simp: array_items.simps[of buf rest] split: if_splits)
  next
    case False
    then obtain tb t where rest: "rest = tb # t" and n: "\<not> n \<le> 0" by (cases rest) auto
    define item where "item = (if tb = CHR ''*'' then parse_array rest else lift_error buf (array_leaf rest))"
    have u: "array_items buf rest n pos items =
        (case item of Inl e \<Rightarrow> Inl e
         | Inr (v, k) \<Rightarrow> if k = 0 then incomplete else array_items buf (drop k rest) (n - 1) (pos + k) (items @ [v]))"
      by (subst array_items.simps) (simp add: rest n item_def)
    show ?thesis
    proof (cases item)
      case (Inl er)
      with u 2(3) have "item = Inl (e, b)" by simp
      with 2(1)[OF n rest] 2(4) show ?thesis
        by (force simp: item_def lift_error_def rest split: if_splits sum.splits)
    next
      case (Inr vk)
      obtain v k where vk: "vk = (v, k)" by fastforce
      with u 2(3) Inr have k: "k \<noteq> 0" and "array_items buf (drop k rest) (n - 1) (pos + k) (items @ [v]) = Inl (e, b)"
        by (auto split: if_splits)
      with 2(2)[OF n rest Inr[unfolded item_def] vk[symmetric] k] 2(4) show ?thesis by simp
    qed
  qed
qed

lemma parse_message_error_buffer: "parse_message buf = Inl (e, b) \<Longrightarrow> length b \<le> length buf"
  using array_error_buffer(1)[of buf e b]
  by (cases buf)
    (auto simp: parse_message_def lift_error_def parse_inline_command_def split: if_splits sum.splits option.splits prod.splits)

lemma drain_buffer:
  "(\<And>b e r. parse b = Inl (e, r) \<Longrightarrow> length r \<le> length b) \<Longrightarrow> drain parse b = (res, r) \<Longrightarrow> length r \<le> length b"
proof (induction "length b" arbitrary: b res rule: less_induct)
  case less
  show ?case
  proof (cases "parse b")
    case (Inl er)
    obtain e s where "er = (e, s)" by fastforce
    with Inl less.prems(2) less.prems(1)[of b] show ?thesis by (simp add: drain.simps[of parse b])
  next
    case (Inr mn)
    obtain m n where mn: "mn = (m, n)" by fastforce
    show ?thesis
    proof (cases "n = 0 \<or> b = []")
      case True
      with Inr mn less.prems(2) show ?thesis by (auto simp: drain.simps[of parse b])
    next
      case False
      obtain res' where d: "drain parse (drop n b) = (res', r)"
        using False Inr mn less.prems(2)
        by (auto simp: drain.simps[of parse b] split: prod.splits sum.splits)
      have "length r \<le> length (drop n b)"
        by (rule less.hyps[OF _ less.prems(1) d]) (use False in auto)
      then show ?thesis by simp
    qed
  qed
qed

lemma feed_buffer: "length (buffer (snd (feed p d))) \<le> max_buffer_size p"
proof -
  have "length (snd (drain parse_message b)) \<le> length b" for b
    by (rule drain_buffer[of parse_message b "fst (drain parse_message b)"])
      (simp_all add: parse_message_error_buffer)
  from this[of "buffer p @ d"] show ?thesis
    by (cases "drain parse_message (buffer p @ d)") (simp add: feed_def Let_def)
qed

subsection \<open>Properties\<close>

text \<open>C3: whatever the network does to a pipeline of well-formed commands, the server sees those commands.
  Cut into chunks in any way, the bytes of the pipeline give, over the successive calls of \<open>feed\<close>, the
  commands in order, no error, and an empty buffer; it is enough that a command and a chunk together
  fit the buffer limit.\<close>

theorem commands_survive_chunking:
  assumes "list_all words_good cmds"
    and "concat chunks = concat (map array_strs cmds)" "chunks \<noteq> []"
    and "list_all (\<lambda>w. length (array_strs w) \<le> L) cmds"
    and "list_all (\<lambda>d. L + length d \<le> max_buffer_size (new_parser limit)) chunks"
  shows "feed_all (new_parser limit) chunks = (Inr (map command_value cmds), new_parser limit)"
proof -
  have e: "(new_parser limit)\<lparr>buffer := []\<rparr> = new_parser limit" by (simp add: new_parser_def)
  from feed_all_commands[of cmds "new_parser limit" chunks L] assms show ?thesis
    by (simp add: e) (simp add: new_parser_def)
qed

theorem commands_survive_chunking_witness:
  "feed_all (new_parser None)
     [take 9 (concat (map array_strs [[''PING''], [''KGET'', ''k'']])),
      drop 9 (concat (map array_strs [[''PING''], [''KGET'', ''k'']]))]
     = (Inr [RList [RStr ''PING''], RList [RStr ''KGET'', RStr ''k'']], new_parser None)"
proof -
  let ?cs = "[[''PING''], [''KGET'', ''k'']]"
  let ?ds = "[take 9 (concat (map array_strs ?cs)), drop 9 (concat (map array_strs ?cs))]"
  have w: "list_all words_good ?cs" by code_simp
  have l: "list_all (\<lambda>w. length (array_strs w) \<le> 100) ?cs" by code_simp
  have "length (concat (map array_strs ?cs)) \<le> 100" by code_simp
  then have d: "list_all (\<lambda>d. 100 + length d \<le> max_buffer_size (new_parser None)) ?ds"
    by (simp only: list.pred_inject length_take length_drop)
      (simp add: new_parser_def MAX_BUFFER_SIZE_def min_def del: concat.simps list.map, linarith)
  have c: "concat ?ds = concat (map array_strs ?cs)" by (simp only: concat.simps append_Nil2 append_take_drop_id)
  have v: "map command_value ?cs = [RList [RStr ''PING''], RList [RStr ''KGET'', RStr ''k'']]"
    by (simp add: command_value_def)
  from commands_survive_chunking[OF w c _ l d] show ?thesis by (simp only: v) simp
qed

text \<open>C30: the parser's buffer never holds more than its limit, whatever a client sends, in whatever chunks,
  also after an error.\<close>

theorem feed_bounded: "length (buffer (snd (feed_all p ds))) \<le> max (length (buffer p)) (max_buffer_size p)"
proof (induction ds arbitrary: p)
  case Nil
  then show ?case by simp
next
  case (Cons d ds)
  obtain r p1 where f: "feed p d = (r, p1)" by fastforce
  have "max_buffer_size p1 = max_buffer_size p"
    using f by (auto simp: feed_def Let_def split: if_splits prod.splits)
  with feed_buffer[of p d] f Cons.IH[of p1] show ?case
    by (auto split: sum.splits prod.splits)
qed

lemma drain_done:
  "drain parse b = (Inr ms, r) \<Longrightarrow> drain parse r = (Inr [], r) \<and> (\<exists>k. r = drop k b \<and> length ms \<le> k \<and> k \<le> length b)"
proof (induction "length b" arbitrary: b ms rule: less_induct)
  case less
  obtain m n where p: "parse b = Inr (m, n)"
    using less.prems by (cases "parse b") (auto simp: drain.simps[of parse b])
  show ?case
  proof (cases "n = 0 \<or> b = []")
    case True
    with p less.prems have "ms = []" "r = b" by (auto simp: drain.simps[of parse b])
    with less.prems show ?thesis by (auto intro!: exI[of _ 0])
  next
    case False
    with p less.prems obtain ms' where d: "drain parse (drop n b) = (Inr ms', r)" and ms: "ms = m # ms'"
      by (auto simp: drain.simps[of parse b] split: prod.splits sum.splits)
    from less.hyps[OF _ d] False obtain k where k: "drain parse r = (Inr [], r)" "r = drop k (drop n b)"
      "length ms' \<le> k" "k \<le> length (drop n b)" by auto
    show ?thesis
    proof (cases "n \<le> length b")
      case True
      then show ?thesis using k False by (auto simp: ms intro!: exI[of _ "k + n"])
    next
      case n: False
      then show ?thesis using k False by (cases b) (auto simp: ms intro!: exI[of _ "length b"])
    qed
  qed
qed

text \<open>C31: the parser never sits on a complete command: after \<open>feed\<close> has delivered the messages of the bytes it
  has, what stays in the buffer is the end of those bytes, and it holds no message that another call
  without new bytes would deliver.\<close>

theorem feed_leaves_no_message:
  assumes "feed p d = (Inr ms, p')"
  shows "feed p' [] = (Inr [], p')
    \<and> (\<exists>k. buffer p' = drop k (buffer p @ d) \<and> length ms \<le> k \<and> k \<le> length (buffer p @ d))"
proof -
  from assms have l: "length (buffer p @ d) \<le> max_buffer_size p"
    and d: "drain parse_message (buffer p @ d) = (Inr ms, buffer p')" and m: "max_buffer_size p' = max_buffer_size p"
    by (auto simp: feed_def Let_def split: if_splits prod.splits)
  from drain_done[OF d] obtain k where k: "drain parse_message (buffer p') = (Inr [], buffer p')"
    "buffer p' = drop k (buffer p @ d)" "length ms \<le> k" "k \<le> length (buffer p @ d)" by blast
  have "length (buffer p') \<le> max_buffer_size p'" using l m by (simp add: k(2))
  with k show ?thesis by (auto simp: feed_def Let_def)
qed

theorem feed_leaves_no_message_witness:
  "feed (new_parser None) ''*1'' = (Inr [], (new_parser None)\<lparr>buffer := ''*1''\<rparr>)
   \<and> feed ((new_parser None)\<lparr>buffer := ''*1''\<rparr>) [] = (Inr [], (new_parser None)\<lparr>buffer := ''*1''\<rparr>)"
proof -
  have "parse_message ''*1'' = Inr (RNil, 0)" by code_simp
  then have "drain parse_message ''*1'' = (Inr [], ''*1'')" by (simp add: drain.simps)
  then have f: "feed (new_parser None) ''*1'' = (Inr [], (new_parser None)\<lparr>buffer := ''*1''\<rparr>)"
    by (simp add: feed_def new_parser_def MAX_BUFFER_SIZE_def)
  from feed_leaves_no_message[OF f] f show ?thesis by simp
qed

end
