(* ===== verification/ClientConnection.thy ===== *)
theory ClientConnection
  imports ProtocolStream
begin

text \<open>
  \<open>testcore_client/connection.py\<close> and \<open>exceptions.py\<close>: the client library's own RESP parser, the reply
  reader and the mapping of error replies to exceptions.

  The client parses at an offset into one buffer; here an offset is the suffix of the buffer that
  starts there, and the consumed count is relative to it, as in the source.  The socket is the list
  of what the calls of \<open>recv\<close> will do: bytes (\<open>Data []\<close> is the end of the stream), a timeout or an
  \<open>OSError\<close>; the end of the list is a silent server, hence a timeout too.  \<open>outgoing\<close> is what was sent,
  and \<open>send_broken\<close> says that \<open>sendall\<close> raises.
\<close>

subsection \<open>The parser\<close>

definition client_simple_string :: "string \<Rightarrow> parse_error + (resp \<times> nat)" where
  "client_simple_string buf =
     (case find_at crlf buf 1 of
        None \<Rightarrow> incomplete
      | Some cr \<Rightarrow>
          (case utf8_decode (slice buf 1 cr) of
             None \<Rightarrow> Inl BadUtf8
           | Some s \<Rightarrow> Inr (RStr s, cr + 2)))"

definition client_error :: "string \<Rightarrow> parse_error + (resp \<times> nat)" where
  "client_error buf =
     (case find_at crlf buf 1 of
        None \<Rightarrow> incomplete
      | Some cr \<Rightarrow>
          (case utf8_decode (slice buf 1 cr) of
             None \<Rightarrow> Inl BadUtf8
           | Some s \<Rightarrow> Inr (RStr (''ERR_'' @ s), cr + 2)))"

definition client_integer :: "string \<Rightarrow> parse_error + (resp \<times> nat)" where
  "client_integer buf =
     (case find_at crlf buf 1 of
        None \<Rightarrow> incomplete
      | Some cr \<Rightarrow>
          (case read_int (slice buf 1 cr) of
             None \<Rightarrow> Inl (InvalidInteger (slice buf 1 cr))
           | Some n \<Rightarrow> Inr (RInt n, cr + 2)))"

definition client_bulk_string :: "string \<Rightarrow> parse_error + (resp \<times> nat)" where
  "client_bulk_string buf =
     (case find_at crlf buf 1 of
        None \<Rightarrow> incomplete
      | Some cr \<Rightarrow>
          (case read_int (slice buf 1 cr) of
             None \<Rightarrow> Inl (InvalidBulkLength (slice buf 1 cr))
           | Some len \<Rightarrow>
               if len < 0 then Inr (RNil, cr + 2)
               else let str_start = cr + 2; str_end = str_start + nat len in
                 if length buf < str_end + 2 then incomplete
                 else if slice buf str_end (str_end + 2) \<noteq> crlf then Inl MissingCrlf
                 else (case utf8_decode (slice buf str_start str_end) of
                         None \<Rightarrow> Inl BadUtf8
                       | Some s \<Rightarrow> Inr (RStr s, str_end + 2))))"

definition client_leaf :: "string \<Rightarrow> parse_error + (resp \<times> nat)" where
  "client_leaf rest =
     (case rest of [] \<Rightarrow> incomplete | tb # _ \<Rightarrow>
      if tb = CHR ''$'' then client_bulk_string rest
      else if tb = CHR '':'' then client_integer rest
      else if tb = CHR ''+'' then client_simple_string rest
      else if tb = CHR ''-'' then client_error rest
      else Inl (UnexpectedType tb))"

function client_array :: "string \<Rightarrow> parse_error + (resp \<times> nat)"
  and client_items :: "string \<Rightarrow> int \<Rightarrow> nat \<Rightarrow> resp list \<Rightarrow> parse_error + (resp \<times> nat)" where
  "client_array buf =
     (case find_at crlf buf 1 of
        None \<Rightarrow> incomplete
      | Some cr \<Rightarrow>
          (case read_int (slice buf 1 cr) of
             None \<Rightarrow> Inl (InvalidArrayCount (slice buf 1 cr))
           | Some count \<Rightarrow>
               if count < 0 then Inr (RNil, cr + 2)
               else client_items (drop (cr + 2) buf) count (cr + 2) []))"
| "client_items rest n pos items =
     (if n \<le> 0 then Inr (RList items, pos)
      else case rest of
        [] \<Rightarrow> incomplete
      | tb # _ \<Rightarrow>
          (case (if tb = CHR ''*'' then client_array rest else client_leaf rest) of
             Inl e \<Rightarrow> Inl e
           | Inr (item, used) \<Rightarrow>
               if used = 0 then incomplete
               else client_items (drop used rest) (n - 1) (pos + used) (items @ [item])))"
  by pat_completeness auto
termination
proof (relation "measure (\<lambda>x. case x of Inl b \<Rightarrow> 2 * length b | Inr (r, n, p, i) \<Rightarrow> 2 * length r + 1)", goal_cases)
  case (2 buf cr count)
  then show ?case using find_crlf_bound[of buf 1 cr] by auto
qed auto

declare client_array.simps [simp del] client_items.simps [simp del]

text \<open>\<open>_try_parse\<close>; an exception leaves the buffer alone.\<close>

definition try_parse :: "string \<Rightarrow> resp parsed" where
  "try_parse buf =
     (case buf of
        [] \<Rightarrow> incomplete
      | tb # _ \<Rightarrow>
          lift_error buf
            (if tb = CHR ''+'' then client_simple_string buf
             else if tb = CHR ''-'' then client_error buf
             else if tb = CHR '':'' then client_integer buf
             else if tb = CHR ''$'' then client_bulk_string buf
             else if tb = CHR ''*'' then client_array buf
             else Inl (UnknownType tb)))"

subsection \<open>Commands\<close>

definition encode_command :: "string list \<Rightarrow> string" where
  "encode_command args =
     ''*'' @ show_nat (length args) @ crlf
     @ concat (map (\<lambda>s. ''$'' @ show_nat (length s) @ crlf @ s @ crlf) args)"

subsection \<open>Exceptions\<close>

datatype client_exn =
    CommandError string
  | ReadOnlyError string
  | IdleError string
  | LockedError string
  | NotInitError string
  | FaultError string
  | DriverError string
  | ProtocolError parse_error
  | ConnectionError
  | SocketTimeout

definition ERROR_MAP :: "string \<Rightarrow> (string \<Rightarrow> client_exn) option" where
  "ERROR_MAP = map_of
     [(''READONLY'', ReadOnlyError), (''IDLE'', IdleError), (''LOCKED'', LockedError),
      (''NOTINIT'', NotInitError), (''FAULT'', FaultError), (''UNRESPONSIVE'', FaultError),
      (''DRIVER'', DriverError)]"

definition raise_for_error :: "string \<Rightarrow> client_exn" where
  "raise_for_error error_str =
     (let parts = split_first space error_str; prefix = fst parts;
          message = (case snd parts of Some m \<Rightarrow> m | None \<Rightarrow> prefix)
      in case ERROR_MAP prefix of
           Some exn \<Rightarrow> exn message
         | None \<Rightarrow>
             if prefix = ''ERR'' \<and> message \<noteq> [] then
               (let sub_parts = split_first space message;
                    sub_message = (case snd sub_parts of Some m \<Rightarrow> m | None \<Rightarrow> message)
                in case ERROR_MAP (fst sub_parts) of
                     Some exn \<Rightarrow> exn sub_message
                   | None \<Rightarrow> CommandError error_str)
             else CommandError error_str)"

subsection \<open>Reading replies\<close>

datatype recv = Data string | TimedOut | OsError

record connection =
  sock_open :: bool
  conn_buffer :: string
  incoming :: "recv list"
  outgoing :: string
  send_broken :: bool

definition connect :: "recv list \<Rightarrow> connection" where
  "connect arrivals =
     \<lparr> sock_open = True, conn_buffer = [], incoming = arrivals, outgoing = [], send_broken = False \<rparr>"

definition close_connection :: "connection \<Rightarrow> connection" where
  "close_connection c = c\<lparr>sock_open := False, conn_buffer := []\<rparr>"

text \<open>\<open>_recv_more\<close>: \<open>None\<close> when the buffer was extended.\<close>

definition recv_more :: "connection \<Rightarrow> client_exn option \<times> connection" where
  "recv_more c =
     (if \<not> sock_open c then (Some ConnectionError, c)
      else case incoming c of
        [] \<Rightarrow> (Some SocketTimeout, c)
      | TimedOut # ds \<Rightarrow> (Some SocketTimeout, c\<lparr>incoming := ds\<rparr>)
      | OsError # ds \<Rightarrow> (Some ConnectionError, close_connection (c\<lparr>incoming := ds\<rparr>))
      | Data d # ds \<Rightarrow>
          if d = [] then (Some ConnectionError, close_connection (c\<lparr>incoming := ds\<rparr>))
          else (None, c\<lparr>conn_buffer := conn_buffer c @ d, incoming := ds\<rparr>))"

function parse_one :: "connection \<Rightarrow> (client_exn + resp) \<times> connection" where
  "parse_one c =
     (case try_parse (conn_buffer c) of
        Inl (e, _) \<Rightarrow> (Inl (ProtocolError e), c)
      | Inr (v, consumed) \<Rightarrow>
          if 0 < consumed then (Inr v, c\<lparr>conn_buffer := drop consumed (conn_buffer c)\<rparr>)
          else (case recv_more c of
                  (Some e, c') \<Rightarrow> (Inl e, c')
                | (None, c') \<Rightarrow> parse_one c'))"
  by pat_completeness auto
termination
  by (relation "measure (\<lambda>c. length (incoming c))") (auto simp: recv_more_def split: if_splits list.splits recv.splits)

declare parse_one.simps [simp del]

definition read_response :: "connection \<Rightarrow> (client_exn + resp) \<times> connection" where
  "read_response c =
     (case parse_one c of
        (Inl e, c') \<Rightarrow> (Inl e, c')
      | (Inr v, c') \<Rightarrow>
          (case v of
             RStr s \<Rightarrow> if startswith s ''ERR_'' then (Inl (raise_for_error (drop 4 s)), c') else (Inr v, c')
           | _ \<Rightarrow> (Inr v, c')))"

fun read_results :: "nat \<Rightarrow> connection \<Rightarrow> (client_exn + resp) list \<times> connection" where
  "read_results 0 c = ([], c)"
| "read_results (Suc n) c =
     (case read_response c of (r, c') \<Rightarrow> (case read_results n c' of (rs, c'') \<Rightarrow> (r # rs, c'')))"

definition pipeline_bytes :: "string list list \<Rightarrow> string" where
  "pipeline_bytes cmds = concat (map encode_command cmds)"

text \<open>\<open>_send_packed\<close>: \<open>None\<close> when the bytes were sent.\<close>

definition send_packed :: "string \<Rightarrow> connection \<Rightarrow> client_exn option \<times> connection" where
  "send_packed data c =
     (if \<not> sock_open c then (Some ConnectionError, c)
      else if send_broken c then (Some ConnectionError, close_connection c)
      else (None, c\<lparr>outgoing := outgoing c @ data\<rparr>))"

definition send_command :: "string list \<Rightarrow> connection \<Rightarrow> (client_exn + resp) \<times> connection" where
  "send_command args c =
     (case send_packed (encode_command args) c of
        (Some e, c1) \<Rightarrow> (Inl e, c1)
      | (None, c1) \<Rightarrow> read_response c1)"

text \<open>\<open>send_pipeline\<close>: one write of all the commands, then one reply per command; the exception of a
  reply is a result.\<close>

definition send_pipeline ::
    "string list list \<Rightarrow> connection \<Rightarrow> (client_exn + (client_exn + resp) list) \<times> connection" where
  "send_pipeline cmds c =
     (case send_packed (pipeline_bytes cmds) c of
        (Some e, c1) \<Rightarrow> (Inl e, c1)
      | (None, c1) \<Rightarrow> (case read_results (length cmds) c1 of (rs, c2) \<Rightarrow> (Inr rs, c2)))"

subsection \<open>The two parsers agree\<close>

text \<open>The result of a parser without the buffer an exception leaves behind.\<close>

definition outcome :: "resp parsed \<Rightarrow> parse_error + (resp \<times> nat)" where
  "outcome r = (case r of Inl (e, _) \<Rightarrow> Inl e | Inr v \<Rightarrow> Inr v)"

lemma outcome_simps [simp]:
  "outcome (Inl (e, b)) = Inl e" "outcome (Inr v) = Inr v" "outcome (lift_error b r) = r"
  by (auto simp: outcome_def lift_error_def split: sum.splits)

lemma stable_outcome: "leaf_stable (outcome r) (outcome r') len \<longleftrightarrow> stable r r' len"
  by (cases r; cases r') (auto simp: leaf_stable_def stable_def outcome_def)

lemma client_leaf_agrees: "client_leaf rest = array_leaf rest"
  unfolding client_leaf_def array_leaf_def client_bulk_string_def array_bulk_def client_integer_def
    array_integer_def client_simple_string_def array_simple_def client_error_def array_error_def ..

lemma find_crlf_tail: "t \<noteq> CHR 0x0D \<Longrightarrow> find_at crlf (t # s) 0 = find_at crlf (t # s) 1"
  by (simp add: find_at_def crlf_def option.map_comp comp_def)

lemma client_array_agrees:
  "startswith buf ''*'' \<Longrightarrow> client_array buf = outcome (parse_array buf)"
  "client_items rest n pos items = outcome (array_items buf rest n pos items)"
proof (induction buf and buf rest n pos items rule: parse_array_array_items.induct)
  case (1 buf)
  then obtain t where buf: "buf = CHR ''*'' # t" by (auto simp: startswith_iff)
  have f: "find_at crlf buf 0 = find_at crlf buf 1" unfolding buf by (rule find_crlf_tail) simp
  show ?case
  proof (cases "find_at crlf buf 0")
    case None
    with f show ?thesis by (simp add: parse_array.simps[of buf] client_array.simps[of buf])
  next
    case (Some cr)
    with f have "find_at crlf buf (Suc 0) = Some cr" by simp
    with Some 1(1)[OF Some] show ?thesis
      by (simp add: parse_array.simps[of buf] client_array.simps[of buf] split: option.splits)
  qed
next
  case (2 buf rest n pos items)
  show ?case
  proof (cases "n \<le> 0 \<or> rest = []")
    case True
    then show ?thesis
      by (auto simp: array_items.simps[of buf rest] client_items.simps[of rest])
  next
    case False
    then obtain tb t where rest: "rest = tb # t" and n: "\<not> n \<le> 0" by (cases rest) auto
    define item where "item = (if tb = CHR ''*'' then parse_array rest else lift_error buf (array_leaf rest))"
    have u: "array_items buf rest n pos items =
        (case item of Inl e \<Rightarrow> Inl e
         | Inr (v, k) \<Rightarrow> if k = 0 then incomplete else array_items buf (drop k rest) (n - 1) (pos + k) (items @ [v]))"
      by (subst array_items.simps) (simp add: rest n item_def)
    have it: "(if tb = CHR ''*'' then client_array rest else client_leaf rest) = outcome item"
      using 2(1)[OF n rest] by (simp add: item_def client_leaf_agrees rest)
    have c: "client_items rest n pos items =
        (case outcome item of Inl e \<Rightarrow> Inl e
         | Inr (v, k) \<Rightarrow> if k = 0 then incomplete else client_items (drop k rest) (n - 1) (pos + k) (items @ [v]))"
      by (subst client_items.simps) (simp add: rest n it[symmetric])
    show ?thesis
    proof (cases item)
      case (Inl er)
      then show ?thesis by (cases er) (simp add: u c)
    next
      case (Inr vk)
      obtain v k where vk: "vk = (v, k)" by fastforce
      show ?thesis
        using 2(2)[OF n rest Inr[unfolded item_def] vk[symmetric]] Inr vk by (simp add: u c)
    qed
  qed
qed

text \<open>A RESP value starts with its type byte; the server reads anything else as an inline command.\<close>

definition typed :: "string \<Rightarrow> bool" where
  "typed b = (b \<noteq> [] \<and> hd b \<in> set ''+-:$*'')"

lemma parsers_agree: "typed b \<Longrightarrow> outcome (try_parse b) = outcome (parse_message b)"
proof -
  assume "typed b"
  then obtain t s where b: "b = t # s" and t: "t \<in> set ''+-:$*''" by (cases b) (auto simp: typed_def)
  then have "find_at crlf b 0 = find_at crlf b 1" unfolding b by (intro find_crlf_tail) auto
  with t client_array_agrees(1)[of b] show ?thesis
    by (auto simp: try_parse_def parse_message_def b client_simple_string_def parse_simple_string_def
        client_error_def parse_error_line_def client_integer_def parse_integer_def
        client_bulk_string_def parse_bulk_string_def)
qed

lemma client_leaf_stable:
  "leaf_stable (client_simple_string b) (client_simple_string (b @ c)) (length b)"
  "leaf_stable (client_error b) (client_error (b @ c)) (length b)"
  "leaf_stable (client_integer b) (client_integer (b @ c)) (length b)"
  "leaf_stable (client_bulk_string b) (client_bulk_string (b @ c)) (length b)"
  using array_simple_stable[of b c] array_error_stable[of b c] array_integer_stable[of b c] array_bulk_stable[of b c]
  by (simp_all add: client_simple_string_def array_simple_def client_error_def array_error_def
      client_integer_def array_integer_def client_bulk_string_def array_bulk_def)

lemma try_parse_stable: "b \<noteq> [] \<Longrightarrow> stable (try_parse b) (try_parse (b @ c)) (length b)"
proof -
  assume "b \<noteq> []"
  then obtain t s where b: "b = t # s" by (cases b) auto
  show ?thesis
  proof (cases "t = CHR ''*''")
    case True
    then have "typed b" "typed (b @ c)" by (auto simp: typed_def b)
    with array_stable(1)[of b c] True show ?thesis
      by (simp add: stable_outcome[symmetric] parsers_agree) (simp add: parse_message_def b stable_outcome)
  next
    case False
    with client_leaf_stable[of b c] show ?thesis
      by (auto simp: stable_outcome[symmetric] try_parse_def b)
  qed
qed

subsection \<open>What the server's serializer writes, the client reads\<close>

text \<open>The replies the server sends: \<open>FailLine\<close> is the whole line after the \<open>-\<close>, such as \<open>ERR text\<close> or
  \<open>LOCKED text\<close>.\<close>

datatype reply = Simple string | FailLine string | Number int | Bulk string | Items "ritem list" | Null

fun reply_bytes :: "reply \<Rightarrow> string" where
  "reply_bytes (Simple s) = simple_string s"
| "reply_bytes (FailLine s) = CHR ''-'' # s @ crlf"
| "reply_bytes (Number n) = integer n"
| "reply_bytes (Bulk s) = bulk_string s"
| "reply_bytes (Items its) = array its"
| "reply_bytes Null = null_reply"

fun reply_value :: "reply \<Rightarrow> resp" where
  "reply_value (Simple s) = RStr s"
| "reply_value (FailLine s) = RStr (''ERR_'' @ s)"
| "reply_value (Number n) = RInt n"
| "reply_value (Bulk s) = RStr s"
| "reply_value (Items its) = RList (map item_value its)"
| "reply_value Null = RNil"

text \<open>A line must not hold a carriage return; the serializer does not check that.\<close>

definition line_good :: "string \<Rightarrow> bool" where
  "line_good s = (utf8_valid s \<and> CHR 0x0D \<notin> set s)"

fun reply_good :: "reply \<Rightarrow> bool" where
  "reply_good (Simple s) = line_good s"
| "reply_good (FailLine s) = line_good s"
| "reply_good (Bulk s) = utf8_valid s"
| "reply_good (Items its) = list_all item_good its"
| "reply_good _ = True"

lemma line_written:
  assumes "line_good s"
  shows "client_simple_string (CHR ''+'' # s @ crlf @ r) = Inr (RStr s, length s + 3)"
    and "client_error (CHR ''-'' # s @ crlf @ r) = Inr (RStr (''ERR_'' @ s), length s + 3)"
proof -
  have f: "find_at crlf (t # s @ crlf @ r) 1 = Some (Suc (length s))" for t
    by (rule find_at_line(2)) (use assms in \<open>simp add: line_good_def\<close>)
  have d: "utf8_decode (slice (t # s @ crlf @ r) 1 (Suc (length s))) = Some s" for t
    using assms by (simp add: line_good_def utf8_decode_def)
  show "client_simple_string (CHR ''+'' # s @ crlf @ r) = Inr (RStr s, length s + 3)"
    unfolding client_simple_string_def f option.case d by simp
  show "client_error (CHR ''-'' # s @ crlf @ r) = Inr (RStr (''ERR_'' @ s), length s + 3)"
    unfolding client_error_def f option.case d by simp
qed

lemma outcome_value: "outcome r = Inr v \<Longrightarrow> r = Inr v"
  by (auto simp: outcome_def split: sum.splits prod.splits)

lemma reply_read:
  assumes "reply_good x"
  shows "try_parse (reply_bytes x @ r) = Inr (reply_value x, length (reply_bytes x))"
proof (cases x)
  case (Simple s)
  with assms line_written(1)[of s r] show ?thesis
    by (simp add: simple_string_def try_parse_def lift_error_def) (simp add: crlf_def)
next
  case (FailLine s)
  with assms line_written(2)[of s r] show ?thesis
    by (simp add: try_parse_def lift_error_def) (simp add: crlf_def)
next
  case (Number n)
  then show ?thesis
    using array_leaf_written[of "AInt n" r]
    by (simp add: try_parse_def integer_def array_leaf_def lift_error_def client_integer_def array_integer_def)
next
  case (Bulk s)
  then show ?thesis
    using assms array_leaf_written[of "AStr s" r]
    by (simp add: try_parse_def bulk_string_def array_leaf_def lift_error_def client_bulk_string_def array_bulk_def)
next
  case (Items its)
  with assms have "outcome (parse_message (array its @ r)) = Inr (RList (map item_value its), length (array its))"
    using parse_message_written[of its r] by (simp add: list_all_iff)
  moreover have "typed (array its @ r)" by (simp add: typed_def array_def)
  ultimately show ?thesis by (simp add: Items parsers_agree[symmetric] outcome_value)
next
  case Null
  then show ?thesis
    using array_leaf_written[of ANull r]
    by (simp add: try_parse_def null_reply_def array_leaf_def lift_error_def client_bulk_string_def array_bulk_def)
qed

interpretation reply_frames: framed_stream reply_bytes try_parse reply_value reply_good
proof
  fix x r assume "reply_good x"
  then show "try_parse (reply_bytes x @ r) = Inr (reply_value x, length (reply_bytes x))" by (rule reply_read)
next
  fix x show "reply_bytes x \<noteq> []"
    by (cases x) (auto simp: simple_string_def integer_def bulk_string_def array_def null_reply_def)
next
  fix b c :: string assume "b \<noteq> []"
  then show "stable (try_parse b) (try_parse (b @ c)) (length b)" by (rule try_parse_stable)
qed (simp add: try_parse_def)

lemma encode_command_array: "encode_command args = array_strs args"
  by (simp add: encode_command_def array_strs_def array_def bulk_string_def comp_def)

subsection \<open>Sending\<close>

text \<open>Reading replies does not look at what was sent.\<close>

lemma parse_one_outgoing:
  "parse_one (c\<lparr>outgoing := o'\<rparr>) = (case parse_one c of (r, c') \<Rightarrow> (r, c'\<lparr>outgoing := o'\<rparr>))"
proof (induction c rule: parse_one.induct)
  case (1 c)
  have r: "recv_more (c\<lparr>outgoing := o'\<rparr>) = (case recv_more c of (r, c') \<Rightarrow> (r, c'\<lparr>outgoing := o'\<rparr>))"
    by (simp add: recv_more_def close_connection_def split: list.splits recv.splits)
  show ?case
    using 1 by (subst (1 2) parse_one.simps)
      (auto simp: r split: sum.splits prod.splits option.splits)
qed

lemma read_response_outgoing:
  "read_response (c\<lparr>outgoing := o'\<rparr>) = (case read_response c of (r, c') \<Rightarrow> (r, c'\<lparr>outgoing := o'\<rparr>))"
  by (auto simp: read_response_def parse_one_outgoing split: sum.splits prod.splits resp.splits)

text \<open>A connection on which sending works, and whose buffer is empty once it is closed.\<close>

definition sends :: "connection \<Rightarrow> bool" where
  "sends c = (\<not> send_broken c \<and> (sock_open c \<or> conn_buffer c = []))"

lemma sends_outgoing [simp]: "sends (c\<lparr>outgoing := o'\<rparr>) = sends c"
  by (simp add: sends_def)

lemma recv_more_sends: "sends c \<Longrightarrow> recv_more c = (r, c') \<Longrightarrow> sends c' \<and> outgoing c' = outgoing c \<and> (sock_open c' \<longrightarrow> sock_open c)"
  by (auto simp: recv_more_def sends_def close_connection_def split: if_splits list.splits recv.splits)

lemma parse_one_sends:
  "sends c \<Longrightarrow> parse_one c = (r, c') \<Longrightarrow> sends c' \<and> outgoing c' = outgoing c \<and> (sock_open c' \<longrightarrow> sock_open c)"
proof (induction c arbitrary: c' rule: parse_one.induct)
  case (1 c)
  show ?case
  proof (cases "try_parse (conn_buffer c)")
    case (Inl e)
    with 1(2,3) show ?thesis by (cases e) (simp add: parse_one.simps[of c])
  next
    case (Inr vc)
    obtain v n where v: "vc = (v, n)" by fastforce
    show ?thesis
    proof (cases "0 < n")
      case True
      with 1(2,3) Inr v show ?thesis by (auto simp: parse_one.simps[of c] sends_def)
    next
      case False
      obtain m c1 where m: "recv_more c = (m, c1)" by fastforce
      note s1 = recv_more_sends[OF 1(2) m]
      show ?thesis
      proof (cases m)
        case None
        with False Inr v m 1(3) have "parse_one c1 = (r, c')" by (simp add: parse_one.simps[of c])
        from 1(1)[OF Inr v[symmetric] False m[symmetric] None _ this] s1 show ?thesis by simp
      next
        case (Some e)
        with False Inr v m 1(3) s1 show ?thesis by (simp add: parse_one.simps[of c])
      qed
    qed
  qed
qed

lemma read_response_sends:
  "sends c \<Longrightarrow> read_response c = (r, c') \<Longrightarrow> sends c' \<and> outgoing c' = outgoing c \<and> (sock_open c' \<longrightarrow> sock_open c)"
  using parse_one_sends[of c] by (auto simp: read_response_def split: prod.splits sum.splits resp.splits if_splits)

lemma read_response_closed: "sends c \<Longrightarrow> \<not> sock_open c \<Longrightarrow> read_response c = (Inl ConnectionError, c)"
  by (simp add: read_response_def parse_one.simps[of c] sends_def try_parse_def recv_more_def)

subsection \<open>Reading the replies to a pipeline\<close>

text \<open>The bytes a connection has or will receive, while nothing goes wrong with the socket.\<close>

fun arriving :: "recv list \<Rightarrow> string" where
  "arriving [] = []"
| "arriving (Data d # ds) = d @ arriving ds"
| "arriving (_ # ds) = arriving ds"

definition healthy :: "connection \<Rightarrow> bool" where
  "healthy c = (sock_open c \<and> list_all (\<lambda>r. \<exists>d. r = Data d \<and> d \<noteq> []) (incoming c))"

definition pending :: "connection \<Rightarrow> string" where
  "pending c = conn_buffer c @ arriving (incoming c)"

text \<open>What the caller gets for a reply: an error line is raised, and so is any text that happens to
  start like one.\<close>

definition reply_result :: "reply \<Rightarrow> client_exn + resp" where
  "reply_result x =
     (case reply_value x of
        RStr s \<Rightarrow> if startswith s ''ERR_'' then Inl (raise_for_error (drop 4 s)) else Inr (RStr s)
      | v \<Rightarrow> Inr v)"

lemma parse_one_reply:
  "reply_good x \<Longrightarrow> healthy c \<Longrightarrow> pending c = reply_bytes x @ rest \<Longrightarrow>
   \<exists>c'. parse_one c = (Inr (reply_value x), c') \<and> healthy c' \<and> pending c' = rest"
proof (induction "length (incoming c)" arbitrary: c)
  case 0
  then have p: "conn_buffer c @ [] = reply_bytes x @ rest" by (simp add: pending_def)
  then have "length (reply_bytes x) \<le> length (conn_buffer c)" by simp
  from reply_frames.dec_prefix(2)[OF 0(2) p this] 0 reply_frames.enc_nonempty[of x] p show ?case
    by (subst parse_one.simps) (simp add: healthy_def pending_def)
next
  case (Suc n)
  from Suc(2) Suc.prems(2) obtain d ds where i: "incoming c = Data d # ds" "d \<noteq> []"
    by (cases "incoming c") (auto simp: healthy_def)
  have p: "conn_buffer c @ (d @ arriving ds) = reply_bytes x @ rest"
    using Suc.prems(3) by (simp add: pending_def i)
  show ?case
  proof (cases "length (conn_buffer c) < length (reply_bytes x)")
    case True
    from reply_frames.dec_prefix(1)[OF Suc.prems(1) p True] obtain m where m: "try_parse (conn_buffer c) = Inr (m, 0)" ..
    define c1 where "c1 = c\<lparr>conn_buffer := conn_buffer c @ d, incoming := ds\<rparr>"
    have "recv_more c = (None, c1)" using Suc.prems(2) i by (simp add: recv_more_def healthy_def c1_def)
    with m have u: "parse_one c = parse_one c1" by (subst parse_one.simps) simp
    have "healthy c1" "pending c1 = reply_bytes x @ rest"
      using Suc.prems(2,3) i by (auto simp: healthy_def pending_def c1_def)
    from Suc(1)[OF _ Suc.prems(1) this] Suc(2) i u show ?thesis by (simp add: c1_def)
  next
    case False
    then have le: "length (reply_bytes x) \<le> length (conn_buffer c)" by simp
    have "drop (length (reply_bytes x)) (conn_buffer c @ (d @ arriving ds)) = rest" unfolding p by simp
    with le have "drop (length (reply_bytes x)) (conn_buffer c) @ d @ arriving ds = rest" by simp
    with reply_frames.dec_prefix(2)[OF Suc.prems(1) p le] reply_frames.enc_nonempty[of x] Suc.prems(2) show ?thesis
      by (subst parse_one.simps) (simp add: healthy_def pending_def i)
  qed
qed

lemma read_response_reply:
  assumes "reply_good x" "healthy c" "pending c = reply_bytes x @ rest"
  shows "\<exists>c'. read_response c = (reply_result x, c') \<and> healthy c' \<and> pending c' = rest"
  using parse_one_reply[OF assms] by (auto simp: read_response_def reply_result_def split: resp.splits)

lemma read_results_replies:
  "list_all reply_good xs \<Longrightarrow> healthy c \<Longrightarrow> pending c = concat (map reply_bytes xs) @ rest \<Longrightarrow>
   \<exists>c'. read_results (length xs) c = (map reply_result xs, c') \<and> healthy c' \<and> pending c' = rest"
proof (induction xs arbitrary: c)
  case Nil
  then show ?case by simp
next
  case (Cons x xs)
  then have "reply_good x" "pending c = reply_bytes x @ concat (map reply_bytes xs) @ rest" by auto
  from read_response_reply[OF this(1) Cons.prems(2) this(2)] obtain c1 where
    c1: "read_response c = (reply_result x, c1)" "healthy c1" "pending c1 = concat (map reply_bytes xs) @ rest" by auto
  from Cons.IH[OF _ c1(2,3)] Cons.prems(1) c1(1) show ?case by auto
qed

subsection \<open>Properties\<close>

text \<open>C9: the client's parser and the server's agree: on any bytes that start with a RESP type byte they give
  the same value and the same number of bytes consumed, the same "need more data", or the same error.\<close>

theorem client_and_server_parsers_agree:
  "typed b \<Longrightarrow> outcome (try_parse b) = outcome (parse_message b)"
  by (rule parsers_agree)

theorem client_and_server_parsers_agree_witness:
  "outcome (try_parse (''*1'' @ crlf @ ''+OK'' @ crlf)) = outcome (parse_message (''*1'' @ crlf @ ''+OK'' @ crlf))"
  by (rule client_and_server_parsers_agree) (simp add: typed_def)

text \<open>C10: the client reads the replies the server wrote, one result per command and in order, however the
  replies arrive: the results of a pipeline are those of its replies, and nothing is left over.\<close>

theorem pipeline_results:
  assumes "list_all reply_good rs" "healthy c" "pending c = concat (map reply_bytes rs)"
  shows "fst (read_results (length rs) c) = map reply_result rs
         \<and> pending (snd (read_results (length rs) c)) = []"
  using read_results_replies[OF assms(1,2), of "[]"] assms(3) by auto

theorem pipeline_results_witness:
  "fst (read_results 2 (connect [Data ''+O'', Data (''K'' @ crlf @ '':7''), Data crlf])) = [Inr (RStr ''OK''), Inr (RInt 7)]"
proof -
  let ?c = "connect [Data ''+O'', Data (''K'' @ crlf @ '':7''), Data crlf]"
  let ?rs = "[Simple ''OK'', Number 7]"
  have g: "list_all reply_good ?rs" by code_simp
  have h: "healthy ?c" by (simp add: healthy_def crlf_def connect_def)
  have "concat (map reply_bytes ?rs) = ''+OK'' @ crlf @ '':7'' @ crlf" by code_simp
  then have p: "pending ?c = concat (map reply_bytes ?rs)" by (simp add: pending_def connect_def)
  have n: "length ?rs = 2" by simp
  have r: "map reply_result ?rs = [Inr (RStr ''OK''), Inr (RInt 7)]" by code_simp
  from pipeline_results[OF g h p, unfolded n r] show ?thesis by (rule conjunct1)
qed

text \<open>C17: what a client writes for a command is what the server's parser reads back: the command's words, and
  exactly the bytes written, whatever follows.\<close>

theorem command_roundtrip:
  assumes "list_all utf8_valid args"
  shows "parse_message (encode_command args @ rest) = Inr (RList (map RStr args), length (encode_command args))"
  using command_frames.dec_enc[of args rest] assms
  by (simp add: encode_command_array words_good_def command_value_def)

theorem command_roundtrip_witness:
  "parse_message (encode_command [''KGET'', ''a b''] @ ''+x'')
     = Inr (RList [RStr ''KGET'', RStr ''a b''], length (encode_command [''KGET'', ''a b'']))"
proof -
  have "list_all utf8_valid [''KGET'', ''a b'']" by code_simp
  from command_roundtrip[OF this, of "''+x''"] show ?thesis by (simp only: list.map)
qed

end
