(* ===== verification/JsonDecode.thy ===== *)
theory JsonDecode
  imports Json
begin

text \<open>
  \<open>json.loads\<close> of the standard library, as the client uses it; \<open>None\<close> is \<open>JSONDecodeError\<close>.  An object is
  a \<open>dict\<close>: a key that comes twice keeps its first place and its last value.  The last section shows
  that it reads back what \<open>json.dumps\<close> wrote.
\<close>

definition json_blanks :: string where
  "json_blanks = [CHR 0x20, CHR 0x09, CHR 0x0A, CHR 0x0D]"

definition skip_blanks :: "string \<Rightarrow> string" where
  "skip_blanks s = dropWhile (\<lambda>c. c \<in> set json_blanks) s"

subsection \<open>Strings\<close>

definition hex_val :: "char \<Rightarrow> nat option" where
  "hex_val c = map_of (zip ''0123456789abcdefABCDEF'' ([0..<16] @ [10..<16])) c"

definition read_hex4 :: "string \<Rightarrow> (nat \<times> string) option" where
  "read_hex4 s =
     (case s of
        a # b # c # d # rest \<Rightarrow>
          (case (hex_val a, hex_val b, hex_val c, hex_val d) of
             (Some i, Some j, Some k, Some l) \<Rightarrow> Some (((i * 16 + j) * 16 + k) * 16 + l, rest)
           | _ \<Rightarrow> None)
      | _ \<Rightarrow> None)"

text \<open>\<open>chr(n)\<close>.  A surrogate that is alone, which has no UTF-8 encoding, gets three bytes all the same.\<close>

definition utf8_of :: "nat \<Rightarrow> string" where
  "utf8_of n = map char_of
     (if n < 0x80 then [n]
      else if n < 0x800 then [0xC0 + n div 64, 0x80 + n mod 64]
      else if n < 0x10000 then [0xE0 + n div 4096, 0x80 + n div 64 mod 64, 0x80 + n mod 64]
      else [0xF0 + n div 262144, 0x80 + n div 4096 mod 64, 0x80 + n div 64 mod 64, 0x80 + n mod 64])"

text \<open>After the escape of a high surrogate: the code point it makes with a low surrogate that follows.\<close>

definition join_surrogates :: "nat \<Rightarrow> string \<Rightarrow> (nat \<times> string) option" where
  "join_surrogates n s =
     (if 0xD800 \<le> n \<and> n \<le> 0xDBFF then
        (case s of
           a # b # t \<Rightarrow>
             if a = CHR 0x5C \<and> b = CHR ''u'' then
               (case read_hex4 t of
                  Some (m, rest) \<Rightarrow>
                    if 0xDC00 \<le> m \<and> m \<le> 0xDFFF
                    then Some (0x10000 + (n - 0xD800) * 0x400 + (m - 0xDC00), rest) else None
                | None \<Rightarrow> None)
             else None
         | _ \<Rightarrow> None)
      else None)"

definition escape_of :: "char \<Rightarrow> char option" where
  "escape_of c = map_of
     [(dquote, dquote), (CHR 0x5C, CHR 0x5C), (CHR ''/'', CHR ''/''), (CHR ''b'', CHR 0x08), (CHR ''f'', CHR 0x0C),
      (CHR ''n'', CHR 0x0A), (CHR ''r'', CHR 0x0D), (CHR ''t'', CHR 0x09)] c"

definition after :: "'a list \<Rightarrow> ('a list \<times> 'b) option \<Rightarrow> ('a list \<times> 'b) option" where
  "after w r = map_option (\<lambda>(s, rest). (w @ s, rest)) r"

lemma read_hex4_length [dest]: "read_hex4 s = Some (n, t) \<Longrightarrow> length t < length s"
  by (auto simp: read_hex4_def split: list.splits option.splits)

lemma join_surrogates_length [dest]: "join_surrogates n s = Some (m, t) \<Longrightarrow> length t < length s"
  by (auto simp: join_surrogates_def split: list.splits option.splits if_splits)

text \<open>The text of a string after its opening quote, and what follows its closing one.\<close>

function scan_string :: "string \<Rightarrow> (string \<times> string) option" where
  "scan_string [] = None"
| "scan_string (c # s) =
     (if c = dquote then Some ([], s)
      else if c = CHR 0x5C then
        (case s of
           [] \<Rightarrow> None
         | e # t \<Rightarrow>
             if e = CHR ''u'' then
               (case read_hex4 t of
                  None \<Rightarrow> None
                | Some (n, t1) \<Rightarrow>
                    (case join_surrogates n t1 of
                       Some (m, t2) \<Rightarrow> after (utf8_of m) (scan_string t2)
                     | None \<Rightarrow> after (utf8_of n) (scan_string t1)))
             else (case escape_of e of None \<Rightarrow> None | Some x \<Rightarrow> after [x] (scan_string t)))
      else if byte c < 0x20 then None
      else after [c] (scan_string s))"
  by pat_completeness auto
termination
  by (relation "measure length") (auto dest!: read_hex4_length join_surrogates_length)

declare scan_string.simps(2) [simp del]

subsection \<open>Numbers\<close>

definition json_digit :: "char \<Rightarrow> bool" where
  "json_digit c = (c \<in> set digit_chars)"

text \<open>The parts of a number: \<open>-?(0|[1-9]\d*)\<close>, \<open>(\.\d+)?\<close> and \<open>([eE][-+]?\d+)?\<close>, each with the rest.\<close>

definition int_part :: "string \<Rightarrow> (string \<times> string) option" where
  "int_part s =
     (case s of
        [] \<Rightarrow> None
      | c # t \<Rightarrow>
          if c = CHR ''0'' then Some (''0'', t)
          else if json_digit c then Some (takeWhile json_digit s, dropWhile json_digit s)
          else None)"

definition some_digits :: "string \<Rightarrow> (string \<times> string) option" where
  "some_digits s =
     (case s of
        [] \<Rightarrow> None
      | c # _ \<Rightarrow> if json_digit c then Some (takeWhile json_digit s, dropWhile json_digit s) else None)"

definition frac_part :: "string \<Rightarrow> string \<times> string" where
  "frac_part s =
     (case s of
        [] \<Rightarrow> ([], s)
      | c # t \<Rightarrow>
          if c = CHR ''.'' then (case some_digits t of Some (ds, r) \<Rightarrow> (c # ds, r) | None \<Rightarrow> ([], s))
          else ([], s))"

definition exp_sign :: "string \<Rightarrow> string \<times> string" where
  "exp_sign s =
     (case s of [] \<Rightarrow> ([], s) | c # t \<Rightarrow> if c = CHR ''-'' \<or> c = CHR ''+'' then ([c], t) else ([], s))"

definition exp_part :: "string \<Rightarrow> string \<times> string" where
  "exp_part s =
     (case s of
        [] \<Rightarrow> ([], s)
      | c # t \<Rightarrow>
          if c = CHR ''e'' \<or> c = CHR ''E'' then
            (case exp_sign t of (sg, u) \<Rightarrow>
              (case some_digits u of Some (ds, r) \<Rightarrow> (c # sg @ ds, r) | None \<Rightarrow> ([], s)))
          else ([], s))"

definition scan_number :: "string \<Rightarrow> (json \<times> string) option" where
  "scan_number s =
     (case (case s of c # t \<Rightarrow> if c = CHR ''-'' then ([c], t) else ([], s) | [] \<Rightarrow> ([], s)) of (sign, t) \<Rightarrow>
        (case int_part t of
           None \<Rightarrow> None
         | Some (i, t1) \<Rightarrow>
             (case frac_part t1 of (f, t2) \<Rightarrow>
                (case exp_part t2 of (e, t3) \<Rightarrow>
                   if f = [] \<and> e = [] then map_option (\<lambda>n. (JInt n, t1)) (read_int (sign @ i))
                   else map_option (\<lambda>x. (JFloat x, t3)) (read_float (sign @ i @ f @ e))))))"

subsection \<open>Values\<close>

definition scan_word :: "string \<Rightarrow> json \<Rightarrow> string \<Rightarrow> (json \<times> string) option" where
  "scan_word w v s = (if startswith s w then Some (v, drop (length w) s) else None)"

text \<open>Every call takes at least one character away before the next one, so the length of the text is
  fuel enough.\<close>

fun scan_value :: "nat \<Rightarrow> string \<Rightarrow> (json \<times> string) option"
  and scan_members :: "nat \<Rightarrow> string \<Rightarrow> (string, json) dict \<Rightarrow> (json \<times> string) option"
  and scan_items :: "nat \<Rightarrow> string \<Rightarrow> json list \<Rightarrow> (json \<times> string) option" where
  "scan_value 0 s = None"
| "scan_value (Suc n) s =
     (case s of
        [] \<Rightarrow> None
      | c # t \<Rightarrow>
          if c = dquote then map_option (\<lambda>(x, r). (JStr x, r)) (scan_string t)
          else if c = CHR ''{'' then
            (case skip_blanks t of
               [] \<Rightarrow> None
             | d # u \<Rightarrow> if d = CHR ''}'' then Some (JObj [], u) else scan_members n (d # u) [])
          else if c = CHR ''['' then
            (case skip_blanks t of
               [] \<Rightarrow> None
             | d # u \<Rightarrow> if d = CHR '']'' then Some (JArr [], u) else scan_items n (d # u) [])
          else if c = CHR ''n'' then scan_word ''null'' JNull s
          else if c = CHR ''t'' then scan_word ''true'' (JBool True) s
          else if c = CHR ''f'' then scan_word ''false'' (JBool False) s
          else if c = CHR ''N'' then scan_word ''NaN'' (JFloat FNan) s
          else if c = CHR ''I'' then scan_word ''Infinity'' (JFloat (FInf False)) s
          else if startswith s ''-Infinity'' then scan_word ''-Infinity'' (JFloat (FInf True)) s
          else scan_number s)"
| "scan_members 0 s d = None"
| "scan_members (Suc n) s d =
     (case s of
        [] \<Rightarrow> None
      | c # t \<Rightarrow>
          if c \<noteq> dquote then None
          else (case scan_string t of
            None \<Rightarrow> None
          | Some (k, r) \<Rightarrow>
              (case skip_blanks r of
                 [] \<Rightarrow> None
               | x # r1 \<Rightarrow>
                   if x \<noteq> colon then None
                   else (case scan_value n (skip_blanks r1) of
                     None \<Rightarrow> None
                   | Some (v, r2) \<Rightarrow>
                       (case skip_blanks r2 of
                          [] \<Rightarrow> None
                        | y # r3 \<Rightarrow>
                            if y = CHR ''}'' then Some (JObj (dict_set d k v), r3)
                            else if y = CHR '','' then scan_members n (skip_blanks r3) (dict_set d k v)
                            else None)))))"
| "scan_items 0 s vs = None"
| "scan_items (Suc n) s vs =
     (case scan_value n s of
        None \<Rightarrow> None
      | Some (v, r) \<Rightarrow>
          (case skip_blanks r of
             [] \<Rightarrow> None
           | y # r1 \<Rightarrow>
               if y = CHR '']'' then Some (JArr (vs @ [v]), r1)
               else if y = CHR '','' then scan_items n (skip_blanks r1) (vs @ [v])
               else None))"

text \<open>A byte order mark is refused; after the value only blanks may follow.\<close>

definition loads :: "string \<Rightarrow> json option" where
  "loads s =
     (if startswith s [CHR 0xEF, CHR 0xBB, CHR 0xBF] then None
      else (case scan_value (Suc (length s)) (skip_blanks s) of
        None \<Rightarrow> None
      | Some (v, r) \<Rightarrow> if skip_blanks r = [] then Some v else None))"

subsection \<open>Strings are read back\<close>

lemma hex_val_digit: "k < 16 \<Longrightarrow> hex_val (hex_digit k) = Some k"
proof -
  have "list_all (\<lambda>k. hex_val (hex_digit k) = Some k) [0..<16]"
    by (simp add: hex_val_def hex_digit_def upt_rec)
  then show "k < 16 \<Longrightarrow> ?thesis" by (simp add: list_all_iff)
qed

lemma hex4_read:
  assumes "n < 0x10000"
  shows "read_hex4 (hex4 n @ r) = Some (n, r)"
proof -
  have d: "n div 4096 = n div 256 div 16" "n div 256 = n div 16 div 16" by (simp_all flip: div_mult2_eq)
  have e: "4096 * (n div 4096) + 256 * (n div 256 mod 16) + n div 16 mod 16 * 16 + n mod 16 = n"
    using div_mult_mod_eq[of n 16] div_mult_mod_eq[of "n div 16" 16] div_mult_mod_eq[of "n div 256" 16]
    unfolding d(1) d(2)[symmetric] by linarith
  have "n div 4096 < 16" using assms by (simp add: less_mult_imp_div_less)
  with e show ?thesis by (simp add: read_hex4_def hex4_def hex_val_digit)
qed

lemma after_Some [simp]: "after w (Some (s, r)) = Some (w @ s, r)"
  by (simp add: after_def)

lemma scan_unicode:
  assumes "n < 0x10000" "n < 0xD800 \<or> 0xDFFF < n"
  shows "scan_string (unicode_escape n @ t) = after (utf8_of n) (scan_string t)"
  using assms by (auto simp: unicode_escape_def scan_string.simps(2) hex4_read join_surrogates_def)

lemma scan_pair:
  assumes "h < 0x400" "l < 0x400"
  shows "scan_string (unicode_escape (0xD800 + h) @ unicode_escape (0xDC00 + l) @ t)
           = after (utf8_of (0x10000 + h * 0x400 + l)) (scan_string t)"
proof -
  have "read_hex4 (hex4 (0xDC00 + l) @ t) = Some (0xDC00 + l, t)"
       "read_hex4 (hex4 (0xD800 + h) @ u) = Some (0xD800 + h, u)" for u
    using assms by (simp_all add: hex4_read)
  moreover have "0xD800 + h \<le> 0xDBFF" "0xDC00 + l \<le> 0xDFFF" using assms by simp_all
  ultimately show ?thesis by (simp add: unicode_escape_def scan_string.simps(2) join_surrogates_def)
qed

lemma base64:
  fixes x y :: nat
  assumes "y < 64"
  shows "(x * 64 + y) div 64 = x" "(x * 64 + y) mod 64 = y"
  using assms by simp_all

lemma div_4096: "(n::nat) div 4096 = n div 64 div 64" and div_262144: "(n::nat) div 262144 = n div 64 div 64 div 64"
  by (simp_all flip: div_mult2_eq)

lemma char_byte [simp]: "char_of (byte c) = c"
  by (simp add: byte_def)

text \<open>The code point of one encoded character is encoded to its bytes again.\<close>

lemma utf8_of_code_point2:
  assumes "0xC2 \<le> byte a" "byte a \<le> 0xDF" "cont_byte b"
  shows "utf8_of (code_point [a, b]) = [a, b]" "0x80 \<le> code_point [a, b]" "code_point [a, b] < 0x800"
proof -
  define x y where "x = byte a - 0xC0" and "y = byte b - 0x80"
  have xy: "byte a = 0xC0 + x" "byte b = 0x80 + y" "2 \<le> x" "x < 32" "y < 64" using assms by (auto simp: x_def y_def)
  then have c: "code_point [a, b] = x * 64 + y" by (simp add: code_point_def)
  show "0x80 \<le> code_point [a, b]" "code_point [a, b] < 0x800" using xy by (simp_all add: c)
  then show "utf8_of (code_point [a, b]) = [a, b]"
    using xy(5) by (simp add: utf8_of_def c flip: xy(1,2))
qed

lemma utf8_of_code_point3:
  assumes "0xE0 \<le> byte a" "byte a \<le> 0xEF" "cont_byte b" "cont_byte d" "utf8_second a [b, d]"
  shows "utf8_of (code_point [a, b, d]) = [a, b, d]" "0x800 \<le> code_point [a, b, d]" "code_point [a, b, d] < 0x10000"
    and "code_point [a, b, d] < 0xD800 \<or> 0xDFFF < code_point [a, b, d]"
proof -
  define x y z where "x = byte a - 0xE0" and "y = byte b - 0x80" and "z = byte d - 0x80"
  have xy: "byte a = 0xE0 + x" "byte b = 0x80 + y" "byte d = 0x80 + z" "x < 16" "y < 64" "z < 64"
    using assms by (auto simp: x_def y_def z_def)
  have s: "x = 0 \<Longrightarrow> 32 \<le> y" "x = 13 \<Longrightarrow> y < 32" using assms(5) xy by (auto simp: utf8_second_def)
  obtain p where p: "code_point [a, b, d] = p" "p = (x * 64 + y) * 64 + z" using xy by (simp add: code_point_def)
  have m: "p div 4096 = x" "p div 64 mod 64 = y" "p mod 64 = z"
    using xy by (simp_all only: p(2) div_4096 base64)
  show lo: "0x800 \<le> code_point [a, b, d]" unfolding p using s(1) by (cases x) simp_all
  show hi: "code_point [a, b, d] < 0x10000" unfolding p using xy by simp
  show "code_point [a, b, d] < 0xD800 \<or> 0xDFFF < code_point [a, b, d]"
    unfolding p using xy s(2) by (cases "x \<le> 12"; cases "x = 13") auto
  show "utf8_of (code_point [a, b, d]) = [a, b, d]"
    using lo hi unfolding p(1) by (simp add: utf8_of_def m flip: xy(1-3))
qed

lemma utf8_of_code_point4:
  assumes "0xF0 \<le> byte a" "byte a \<le> 0xF4" "cont_byte b" "cont_byte d" "cont_byte e" "utf8_second a [b, d, e]"
  shows "utf8_of (code_point [a, b, d, e]) = [a, b, d, e]"
    and "0x10000 \<le> code_point [a, b, d, e]" "code_point [a, b, d, e] < 0x110000"
proof -
  define x y z u where "x = byte a - 0xF0" and "y = byte b - 0x80" and "z = byte d - 0x80" and "u = byte e - 0x80"
  have xy: "byte a = 0xF0 + x" "byte b = 0x80 + y" "byte d = 0x80 + z" "byte e = 0x80 + u" "x < 5" "y < 64" "z < 64" "u < 64"
    using assms by (auto simp: x_def y_def z_def u_def)
  have s: "x = 0 \<Longrightarrow> 16 \<le> y" "x = 4 \<Longrightarrow> y < 16" using assms(6) xy by (auto simp: utf8_second_def)
  obtain p where p: "code_point [a, b, d, e] = p" "p = ((x * 64 + y) * 64 + z) * 64 + u"
    using xy by (simp add: code_point_def)
  have m: "p div 262144 = x" "p div 4096 mod 64 = y" "p div 64 mod 64 = z" "p mod 64 = u"
    using xy by (simp_all only: p(2) div_4096 div_262144 base64)
  show lo: "0x10000 \<le> code_point [a, b, d, e]" unfolding p using s(1) by (cases x) simp_all
  show "code_point [a, b, d, e] < 0x110000" unfolding p using s(2) xy by (cases "x \<le> 3"; cases "x = 4") auto
  show "utf8_of (code_point [a, b, d, e]) = [a, b, d, e]"
    using lo unfolding p(1) by (simp add: utf8_of_def m flip: xy(1-4))
qed

lemma utf8_conts_cases:
  assumes "utf8_conts a = Some n"
  obtains "n = 0" "byte a < 0x80" | "n = 1" "0xC2 \<le> byte a" "byte a \<le> 0xDF"
    | "n = 2" "0xE0 \<le> byte a" "byte a \<le> 0xEF" | "n = 3" "0xF0 \<le> byte a" "byte a \<le> 0xF4"
  using assms by (auto simp: utf8_conts_def split: if_splits)

lemma scan_ascii:
  assumes "byte a < 0x80"
  shows "scan_string (escape_char [a] @ t) = after [a] (scan_string t)"
proof -
  have q: "byte dquote = 0x22" "byte (CHR 0x5C) = 0x5C" by (simp_all add: byte_def)
  have c: "code_point [a] = byte a" by (simp add: code_point_def)
  have u: "utf8_of (byte a) = [a]" using assms by (simp add: utf8_of_def)
  show ?thesis
  proof (cases "a \<in> {dquote, CHR 0x5C, CHR 0x0A, CHR 0x0D, CHR 0x09, CHR 0x0C, CHR 0x08}")
    case True
    then show ?thesis by (auto simp: escape_char_def scan_string.simps(2) escape_of_def)
  next
    case False
    then have e: "escape_char [a] = (if 0x20 \<le> byte a \<and> byte a \<le> 0x7E then [a] else unicode_escape (byte a))"
      using assms by (simp add: escape_char_def c Let_def)
    show ?thesis
      using False assms scan_unicode[of "byte a" t] by (auto simp: e u scan_string.simps(2))
  qed
qed

lemma scan_escape:
  assumes n: "utf8_conts a = Some (length w)" and w: "list_all cont_byte w" "utf8_second a w"
  shows "scan_string (escape_char (a # w) @ t) = after (a # w) (scan_string t)"
proof -
  have big: "escape_char (a # w)
      = (if code_point (a # w) < 0x10000 then unicode_escape (code_point (a # w))
         else unicode_escape (0xD800 + (code_point (a # w) - 0x10000) div 0x400)
              @ unicode_escape (0xDC00 + (code_point (a # w) - 0x10000) mod 0x400))"
    if "w \<noteq> []" "0x7E < code_point (a # w)"
    using that by (simp add: escape_char_def Let_def)
  from n show ?thesis
  proof (cases rule: utf8_conts_cases)
    case 1
    then show ?thesis using scan_ascii by simp
  next
    case 2
    then obtain b where b: "w = [b]" by (auto simp: length_Suc_conv)
    from utf8_of_code_point2[of a b] 2 w big scan_unicode[of "code_point [a, b]" t] show ?thesis
      by (simp add: b)
  next
    case 3
    then obtain b d where b: "w = [b, d]" by (auto simp: numeral_eq_Suc length_Suc_conv)
    from utf8_of_code_point3[of a b d] 3 w big scan_unicode[of "code_point [a, b, d]" t] show ?thesis
      by (simp add: b)
  next
    case 4
    then obtain b d e where b: "w = [b, d, e]" by (auto simp: numeral_eq_Suc length_Suc_conv)
    let ?n = "code_point [a, b, d, e] - 0x10000"
    note f = utf8_of_code_point4[of a b d e]
    have "?n div 0x400 < 0x400" using f 4 w b by (simp add: less_mult_imp_div_less)
    from scan_pair[OF this, of "?n mod 0x400" t] f 4 w big show ?thesis
      by (simp add: b)
  qed
qed

lemma characters_valid:
  assumes "utf8_valid (a # s)" "utf8_conts a = Some n"
  shows "characters (a # s) = (a # take n s) # characters (drop n s)"
proof -
  have c: "list_all cont_byte (take n s)" and d: "utf8_valid (drop n s)" using assms by auto
  have "takeWhile cont_byte (take n s @ drop n s) = take n s" "dropWhile cont_byte (take n s @ drop n s) = drop n s"
    using c utf8_valid_head d
    by (cases "drop n s"; auto simp: list_all_iff simp del: append_take_drop_id utf8_valid.simps)+
  then show ?thesis by simp
qed

lemma json_string_read:
  "utf8_valid s \<Longrightarrow> scan_string (concat (map escape_char (characters s)) @ dquote # r) = Some (s, r)"
proof (induction s rule: utf8_valid.induct)
  case 1
  show ?case by (simp add: scan_string.simps(2))
next
  case (2 a s)
  then obtain n where n: "utf8_conts a = Some n" by (auto split: option.splits)
  with 2(2) have v: "n \<le> length s" "list_all cont_byte (take n s)" "utf8_second a (take n s)" "utf8_valid (drop n s)"
    by auto
  have "utf8_conts a = Some (length (take n s))" using n v(1) by simp
  from scan_escape[OF this v(2,3)] 2(1)[OF n v(4)] show ?case
    by (simp add: characters_valid[OF 2(2) n] del: characters.simps)
qed

subsection \<open>Numbers are read back\<close>

text \<open>What may follow a value without changing how it is read.\<close>

definition stops :: "string \<Rightarrow> bool" where
  "stops r = (case r of [] \<Rightarrow> True | c # _ \<Rightarrow> c \<in> set ('',]}'' @ json_blanks))"

lemma stops_cases:
  assumes "stops r"
  obtains "r = []" | c t where "r = c # t" "\<not> json_digit c" "c \<notin> set ''.eE+-''"
  using assms by (cases r) (auto simp: stops_def json_digit_def digit_chars_def json_blanks_def)

lemma digits_stop:
  "stops r \<Longrightarrow> takeWhile json_digit (s @ r) = takeWhile json_digit s"
  "stops r \<Longrightarrow> dropWhile json_digit (s @ r) = dropWhile json_digit s @ r"
  by (erule stops_cases; induction s; simp)+

lemma some_digits_stop:
  assumes "stops r"
  shows "some_digits (s @ r) = map_option (\<lambda>(ds, t). (ds, t @ r)) (some_digits s)"
proof (cases s)
  case Nil
  with assms show ?thesis by (elim stops_cases) (auto simp: some_digits_def)
next
  case (Cons c t)
  with digits_stop[OF assms, of t] show ?thesis by (simp add: some_digits_def)
qed

lemma exp_sign_stop:
  assumes "stops r"
  shows "exp_sign (s @ r) = (case exp_sign s of (sg, t) \<Rightarrow> (sg, t @ r))"
proof (cases s)
  case Nil
  with assms show ?thesis by (elim stops_cases) (auto simp: exp_sign_def)
qed (simp add: exp_sign_def)

lemma int_part_stop: "int_part s = Some (i, t) \<Longrightarrow> stops r \<Longrightarrow> int_part (s @ r) = Some (i, t @ r)"
  using digits_stop[of r s] by (auto simp: int_part_def split: list.splits if_splits)

lemma frac_part_stop:
  assumes "frac_part s = (f, t)" "stops r"
  shows "frac_part (s @ r) = (f, t @ r)"
proof (cases s)
  case Nil
  with assms show ?thesis by (elim stops_cases) (auto simp: frac_part_def)
next
  case (Cons c u)
  with assms(1) some_digits_stop[OF assms(2), of u] show ?thesis
    by (cases "some_digits u") (auto simp: frac_part_def split: if_splits)
qed

lemma exp_part_stop:
  assumes "exp_part s = (e, t)" "stops r"
  shows "exp_part (s @ r) = (e, t @ r)"
proof (cases s)
  case Nil
  with assms show ?thesis by (elim stops_cases) (auto simp: exp_part_def)
next
  case (Cons c u)
  obtain sg v where "exp_sign u = (sg, v)" by fastforce
  with Cons assms(1) exp_sign_stop[OF assms(2), of u] some_digits_stop[OF assms(2), of v] show ?thesis
    by (cases "some_digits v") (auto simp: exp_part_def split: if_splits)
qed

definition sign_part :: "string \<Rightarrow> string \<times> string" where
  "sign_part s = (case s of c # t \<Rightarrow> if c = CHR ''-'' then ([c], t) else ([], s) | [] \<Rightarrow> ([], s))"

lemma scan_number_parts:
  assumes "sign_part s = (sg, t)" "int_part t = Some (i, t1)" "frac_part t1 = (f, t2)" "exp_part t2 = (e, t3)"
  shows "scan_number s
    = (if f = [] \<and> e = [] then map_option (\<lambda>n. (JInt n, t1)) (read_int (sg @ i))
       else map_option (\<lambda>x. (JFloat x, t3)) (read_float (sg @ i @ f @ e)))"
  using assms by (simp add: scan_number_def sign_part_def)

lemma scan_number_stop:
  assumes s: "scan_number s = Some (v, [])" and r: "stops r"
  shows "scan_number (s @ r) = Some (v, r)"
proof -
  obtain sg t where sg: "sign_part s = (sg, t)" by fastforce
  then obtain i t1 where i: "int_part t = Some (i, t1)"
    using s by (auto simp: scan_number_def sign_part_def split: option.splits prod.splits)
  obtain f t2 e t3 where f: "frac_part t1 = (f, t2)" and e: "exp_part t2 = (e, t3)" by fastforce
  have "s \<noteq> []" using sg i by (auto simp: sign_part_def int_part_def)
  then have "sign_part (s @ r) = (sg, t @ r)" using sg by (cases s) (auto simp: sign_part_def split: if_splits)
  from scan_number_parts[OF this int_part_stop[OF i r] frac_part_stop[OF f r] exp_part_stop[OF e r]]
    scan_number_parts[OF sg i f e] s
  show ?thesis by (cases "read_int (sg @ i)"; cases "read_float (sg @ i @ f @ e)") (auto split: if_splits)
qed

lemma scan_number_head:
  assumes "scan_number s \<noteq> None"
  shows "\<exists>c t. s = c # t \<and> (c = CHR ''-'' \<or> json_digit c) \<and> \<not> startswith (s @ r) ''-Infinity''"
proof -
  obtain sg t where sg: "sign_part s = (sg, t)" by fastforce
  then obtain d u where t: "t = d # u" "json_digit d"
    using assms by (cases t) (auto simp: scan_number_def sign_part_def int_part_def json_digit_def digit_chars_def
        split: option.splits if_splits)
  then have "d \<noteq> CHR ''I''" by (auto simp: json_digit_def digit_chars_def)
  moreover have "\<not> json_digit (CHR ''-'')" by (simp add: json_digit_def digit_chars_def)
  ultimately show ?thesis
    using sg t by (cases s) (auto simp: sign_part_def split: if_splits)
qed

lemma show_digits_digits: "0 \<le> n \<Longrightarrow> list_all json_digit (show_digits n)"
  using show_digits_chars[of n] by (auto simp: list_all_iff json_digit_def)

lemma show_digits_no_zero: "0 < n \<Longrightarrow> hd (show_digits n) \<noteq> CHR ''0''"
proof (induction n rule: show_digits.induct)
  case (1 n)
  show ?case
  proof (cases "n < 10")
    case True
    with 1(2) have "n \<in> {1, 2, 3, 4, 5, 6, 7, 8, 9}" by auto
    with True show ?thesis by (subst show_digits.simps) (auto simp: digit_char_def digit_chars_def)
  next
    case False
    with 1 have "hd (show_digits (n div 10)) \<noteq> CHR ''0''" by simp
    with False show ?thesis by (subst show_digits.simps) simp
  qed
qed

lemma int_part_digits: "0 \<le> n \<Longrightarrow> int_part (show_digits n) = Some (show_digits n, [])"
proof (cases "n = 0")
  case True
  then show ?thesis by (simp add: show_digits.simps[of 0] int_part_def digit_char_def digit_chars_def)
next
  case False
  assume "0 \<le> n"
  with False have n: "0 < n" by simp
  obtain c t where c: "show_digits n = c # t" by (cases "show_digits n") auto
  have "list_all json_digit (c # t)" using show_digits_digits[of n] n c by simp
  then have "takeWhile json_digit (c # t) = c # t" "dropWhile json_digit (c # t) = []"
    by (auto simp: list_all_iff takeWhile_eq_all_conv)
  with show_digits_no_zero[OF n] show_digits_digits[of n] n show ?thesis by (simp add: int_part_def c)
qed

lemma scan_show_int: "scan_number (show_int n) = Some (JInt n, [])"
proof -
  have parts: "frac_part [] = ([], [])" "exp_part [] = ([], [])" by (simp_all add: frac_part_def exp_part_def)
  have nh: "0 \<le> n \<Longrightarrow> sign_part (show_digits n) = ([], show_digits n)"
    using show_digits_head[of n] by (cases "show_digits n") (auto simp: sign_part_def)
  show ?thesis
  proof (cases "n < 0")
    case True
    then have "sign_part (show_int n) = (''-'', show_digits (- n))" by (simp add: show_int_def sign_part_def)
    from scan_number_parts[OF this int_part_digits parts] True read_int_show_int[of n] show ?thesis
      by (simp add: show_int_def)
  next
    case False
    then have "sign_part (show_int n) = ([], show_digits n)" using nh by (simp add: show_int_def)
    from scan_number_parts[OF this int_part_digits parts] False read_int_show_int[of n] show ?thesis
      by (simp add: show_int_def)
  qed
qed

subsection \<open>What was dumped is loaded\<close>

text \<open>Values that have a faithful text: valid strings, distinct keys, and floats whose \<open>repr\<close> reads back.\<close>

definition float_good :: "pyfloat \<Rightarrow> bool" where
  "float_good x = (case x of FFin _ _ _ \<Rightarrow> scan_number (show_float x) = Some (JFloat x, []) | _ \<Rightarrow> True)"

fun json_good :: "json \<Rightarrow> bool" where
  "json_good (JFloat x) = float_good x"
| "json_good (JStr s) = utf8_valid s"
| "json_good (JArr vs) = list_all json_good vs"
| "json_good (JObj kvs) = (dict_ok kvs \<and> list_all (\<lambda>(k, v). utf8_valid k \<and> json_good v) kvs)"
| "json_good _ = True"

text \<open>The first character of a value: never a blank, a comma or a closing bracket.\<close>

definition opens :: "char \<Rightarrow> bool" where
  "opens c = (c \<notin> set ('',]}'' @ json_blanks))"

lemma opens_simps [simp]: "opens dquote" "opens (CHR ''['')" "opens (CHR ''{'')" "opens (CHR ''n'')" "opens (CHR ''t'')"
  "opens (CHR ''f'')" "opens (CHR ''N'')" "opens (CHR ''I'')" "opens (CHR ''-'')"
  by (simp_all add: opens_def json_blanks_def)

lemma opens_digit [simp]: "json_digit c \<Longrightarrow> opens c"
  by (auto simp: opens_def json_blanks_def json_digit_def digit_chars_def)

lemma number_opens:
  assumes "scan_number s \<noteq> None"
  shows "\<exists>c t. s = c # t \<and> opens c"
  using scan_number_head[OF assms, of "[]"] by (elim exE conjE disjE) (auto)

lemma dumps_opens: "json_good j \<Longrightarrow> \<exists>c t. dumps j = c # t \<and> opens c"
proof (cases j)
  case (JInt n)
  then show ?thesis using number_opens[of "show_int n"] scan_show_int[of n] by simp
next
  case (JFloat x)
  assume "json_good j"
  with JFloat number_opens[of "show_float x"] show ?thesis
    by (cases x) (auto simp: json_float_def float_good_def simp del: show_float.simps)
qed (auto simp: json_string_def)

lemma skip_opens: "opens c \<Longrightarrow> skip_blanks (c # t) = c # t"
  by (auto simp: skip_blanks_def opens_def)

lemma skip_closes [simp]:
  "skip_blanks (CHR '','' # t) = CHR '','' # t" "skip_blanks (CHR '']'' # t) = CHR '']'' # t"
  "skip_blanks (CHR ''}'' # t) = CHR ''}'' # t" "skip_blanks (colon # t) = colon # t"
  "skip_blanks (dquote # t) = dquote # t"
  by (simp_all add: skip_blanks_def json_blanks_def)

lemma stops_closes [simp]: "stops []" "stops (CHR '','' # t)" "stops (CHR '']'' # t)" "stops (CHR ''}'' # t)"
  by (simp_all add: stops_def)

text \<open>A value is read back in front of anything that stops it.\<close>

definition reads_value :: "json \<Rightarrow> bool" where
  "reads_value v = (\<forall>n r. stops r \<longrightarrow> length (dumps v) < n \<longrightarrow> scan_value n (dumps v @ r) = Some (v, r))"

lemma reads_valueI:
  "(\<And>m r. stops r \<Longrightarrow> length (dumps v) \<le> m \<Longrightarrow> scan_value (Suc m) (dumps v @ r) = Some (v, r)) \<Longrightarrow> reads_value v"
  unfolding reads_value_def by (metis less_Suc_eq_le less_nat_zero_code old.nat.exhaust)

lemma reads_valueD: "reads_value v \<Longrightarrow> stops r \<Longrightarrow> length (dumps v) < n \<Longrightarrow> scan_value n (dumps v @ r) = Some (v, r)"
  by (simp add: reads_value_def)

lemma reads_number:
  assumes s: "scan_number (dumps v) = Some (v, [])"
  shows "reads_value v"
proof -
  have "scan_value (Suc n) (dumps v @ r) = Some (v, r)" if "stops r" for n r
  proof -
    obtain c t where c: "dumps v = c # t" "c = CHR ''-'' \<or> json_digit c" "\<not> startswith (c # t @ r) ''-Infinity''"
      using scan_number_head[of "dumps v" r] s by auto
    then have "c \<notin> set (dquote # ''{[ntfNI'')" by (auto simp: json_digit_def digit_chars_def)
    with scan_number_stop[OF s that] c(3) show ?thesis by (simp add: c(1) del: startswith.simps)
  qed
  then show ?thesis by (intro reads_valueI)
qed

lemma scan_items_read:
  assumes "\<And>v. v \<in> set vs \<Longrightarrow> reads_value v \<and> json_good v" "vs \<noteq> []" "Suc (length (join '','' (map dumps vs))) < n"
  shows "scan_items n (join '','' (map dumps vs) @ CHR '']'' # r) acc = Some (JArr (acc @ vs), r)"
  using assms
proof (induction vs arbitrary: n acc)
  case (Cons v vs)
  then obtain m where n: "n = Suc m" by (cases n) auto
  have v: "reads_value v" using Cons.prems(1) by simp
  show ?case
  proof (cases vs)
    case Nil
    with v Cons.prems(3) show ?thesis by (simp add: n reads_value_def)
  next
    case (Cons w ws)
    let ?t = "join '','' (map dumps vs)"
    obtain c u where c: "?t = c # u" "opens c"
      using dumps_opens[of w] \<open>(_ :: json list) = w # ws\<close> Cons.prems(1)[of w] by (cases ws) auto
    have "scan_value m (dumps v @ CHR '','' # ?t @ CHR '']'' # r) = Some (v, CHR '','' # ?t @ CHR '']'' # r)"
      using v Cons.prems(3) Cons by (simp add: n reads_value_def)
    moreover have "scan_items m (?t @ CHR '']'' # r) (acc @ [v]) = Some (JArr ((acc @ [v]) @ vs), r)"
      using Cons.prems Cons by (intro Cons.IH) (auto simp: n)
    ultimately show ?thesis
      using c skip_opens[of c "u @ CHR '']'' # r"] Cons by (simp add: n)
  qed
qed simp

definition member_text :: "string \<times> json \<Rightarrow> string" where
  "member_text kv = (case kv of (k, v) \<Rightarrow> json_string k @ '':'' @ dumps v)"

lemma dumps_members: "dumps (JObj kvs) = ''{'' @ join '','' (map member_text kvs) @ ''}''"
proof -
  have "member_text = (\<lambda>(k, v). json_string k @ '':'' @ dumps v)" by (auto simp: member_text_def)
  then show ?thesis by simp
qed

lemma member_head:
  "utf8_valid k \<Longrightarrow> \<exists>t. member_text (k, v) @ r = dquote # t \<and> scan_string t = Some (k, colon # dumps v @ r)"
  using json_string_read[of k "colon # dumps v @ r"] by (simp add: member_text_def json_string_def)

lemma scan_members_read:
  assumes "\<And>k v. (k, v) \<in> set kvs \<Longrightarrow> reads_value v \<and> json_good v \<and> utf8_valid k"
    and "kvs \<noteq> []" "Suc (length (join '','' (map member_text kvs))) < n"
  shows "scan_members n (join '','' (map member_text kvs) @ CHR ''}'' # r) d
           = Some (JObj (fold (\<lambda>(k, v) d. dict_set d k v) kvs d), r)"
  using assms
proof (induction kvs arbitrary: n d)
  case (Cons kv kvs)
  obtain k v where kv: "kv = (k, v)" by fastforce
  then obtain m where n: "n = Suc m" using Cons.prems by (cases n) auto
  have v: "reads_value v" "json_good v" "utf8_valid k" using Cons.prems(1)[of k v] by (auto simp: kv)
  obtain c u where c: "dumps v = c # u" "opens c" using dumps_opens[OF v(2)] by blast
  have len: "length (dumps v) < length (member_text (k, v))" by (simp add: member_text_def json_string_def)
  have step: "scan_members n (member_text (k, v) @ q) d
      = (case skip_blanks q of [] \<Rightarrow> None
         | y # r3 \<Rightarrow>
             if y = CHR ''}'' then Some (JObj (dict_set d k v), r3)
             else if y = CHR '','' then scan_members m (skip_blanks r3) (dict_set d k v) else None)"
    if q: "stops q" and l: "length (member_text (k, v)) \<le> m" for q
  proof -
    obtain t where t: "member_text (k, v) @ q = dquote # t" "scan_string t = Some (k, colon # dumps v @ q)"
      using member_head[OF v(3)] by blast
    have "scan_value m (dumps v @ q) = Some (v, q)" using q len l by (intro reads_valueD v(1)) auto
    then have "scan_value m (c # u @ q) = Some (v, q)" by (simp add: c(1))
    then show ?thesis using skip_opens[OF c(2), of "u @ q"] by (simp add: n t c(1))
  qed
  show ?case
  proof (cases kvs)
    case Nil
    with Cons.prems(3) step[of "CHR ''}'' # r"] show ?thesis by (simp add: kv n)
  next
    case (Cons kw ks)
    let ?t = "join '','' (map member_text kvs)"
    obtain k' v' where kw: "kw = (k', v')" by fastforce
    with Cons.prems(1) Cons have "utf8_valid k'" by auto
    from member_head[OF this] obtain t' where t': "?t @ CHR ''}'' # r = dquote # t'"
      using Cons kw by (cases ks) (auto simp: member_text_def json_string_def)
    have "scan_members m (?t @ CHR ''}'' # r) (dict_set d k v)
        = Some (JObj (fold (\<lambda>(k, v) d. dict_set d k v) kvs (dict_set d k v)), r)"
      using Cons.prems Cons by (intro Cons.IH) (auto simp: n kv)
    moreover have "length (member_text (k, v)) \<le> m" using Cons.prems(3) Cons by (simp add: kv n)
    ultimately show ?thesis
      using step[of "CHR '','' # ?t @ CHR ''}'' # r"] t' Cons by (simp add: kv)
  qed
qed simp

lemma dict_of_members: "dict_ok (d @ kvs) \<Longrightarrow> fold (\<lambda>(k, v) d. dict_set d k v) kvs d = d @ kvs"
proof (induction kvs arbitrary: d)
  case (Cons kv kvs)
  obtain k v where kv: "kv = (k, v)" by fastforce
  have "dict_set d k v = d @ [(k, v)]"
    using Cons.prems by (induction d) (auto simp: kv dict_set_def dict_ok_def dict_keys_def)
  with Cons.IH[of "d @ [(k, v)]"] Cons.prems show ?case by (simp add: kv)
qed simp

lemma array_read:
  assumes "\<And>v. v \<in> set vs \<Longrightarrow> reads_value v \<and> json_good v"
  shows "reads_value (JArr vs)"
proof (cases "vs = []")
  case True
  then show ?thesis by (intro reads_valueI) simp
next
  case False
  then obtain v ws where vs: "vs = v # ws" by (cases vs) auto
  with assms obtain c t where c: "join '','' (map dumps vs) = c # t" "opens c"
    using dumps_opens[of v] by (cases ws) auto
  then have "c \<noteq> CHR '']''" by (auto simp: opens_def)
  moreover have "scan_items m (join '','' (map dumps vs) @ CHR '']'' # r) [] = Some (JArr ([] @ vs), r)"
    if "length (dumps (JArr vs)) \<le> m" for m r
    using that False by (intro scan_items_read assms) auto
  ultimately show ?thesis
    using c skip_opens[of c] by (intro reads_valueI) simp
qed

lemma object_read:
  assumes "\<And>k v. (k, v) \<in> set kvs \<Longrightarrow> reads_value v \<and> json_good v \<and> utf8_valid k" "dict_ok kvs"
  shows "reads_value (JObj kvs)"
proof (cases "kvs = []")
  case True
  then show ?thesis by (intro reads_valueI) simp
next
  case False
  then obtain k v ks where kvs: "kvs = (k, v) # ks" by (cases kvs) auto
  show ?thesis
  proof (rule reads_valueI)
    fix m r assume "length (dumps (JObj kvs)) \<le> m"
    then have "scan_members m (join '','' (map member_text kvs) @ CHR ''}'' # r) [] = Some (JObj kvs, r)"
      using False scan_members_read[of kvs m r "[]"] assms dict_of_members[of "[]" kvs]
      by (simp add: dumps_members del: dumps.simps)
    moreover obtain t where "join '','' (map member_text kvs) @ CHR ''}'' # r = dquote # t"
      using kvs by (cases ks) (auto simp: member_text_def json_string_def)
    ultimately show "scan_value (Suc m) (dumps (JObj kvs) @ r) = Some (JObj kvs, r)"
      by (simp add: dumps_members del: dumps.simps)
  qed
qed

lemma dumps_read: "json_good j \<Longrightarrow> reads_value j"
proof (induction j)
  case JNull
  show ?case by (intro reads_valueI) (simp add: scan_word_def)
next
  case (JBool b)
  show ?case by (intro reads_valueI) (simp add: scan_word_def)
next
  case (JInt n)
  show ?case by (rule reads_number) (simp add: scan_show_int)
next
  case (JFloat x)
  show ?case
  proof (cases x)
    case (FFin a m e)
    with JFloat show ?thesis by (intro reads_number) (simp add: json_float_def float_good_def del: show_float.simps)
  qed (auto simp: json_float_def scan_word_def intro!: reads_valueI)
next
  case (JStr s)
  then show ?case using json_string_read[of s] by (intro reads_valueI) (simp add: json_string_def)
next
  case (JArr vs)
  then show ?case by (intro array_read) (auto simp: list_all_iff)
next
  case (JObj kvs)
  then show ?case by (intro object_read) (auto simp: list_all_iff)
qed

text \<open>A value starts with no byte order mark.\<close>

lemma loads_dumps: "json_good j \<Longrightarrow> loads (dumps j) = Some j"
proof -
  assume j: "json_good j"
  then obtain c t where c: "dumps j = c # t" "opens c" using dumps_opens by blast
  have v: "scan_value (Suc (length (dumps j))) (dumps j @ []) = Some (j, [])"
    using j by (intro reads_valueD dumps_read) auto
  have "c \<noteq> CHR 0xEF"
    using v by (auto simp: c scan_number_def int_part_def json_digit_def digit_chars_def split: if_splits)
  then show ?thesis using v skip_opens[OF c(2), of t] by (simp add: loads_def c skip_blanks_def)
qed

subsection \<open>Dumped text is ASCII\<close>

lemma ascii_append [simp]: "ascii (s @ t) \<longleftrightarrow> ascii s \<and> ascii t" and ascii_Nil [simp]: "ascii []"
  and ascii_Cons [simp]: "ascii (c # s) \<longleftrightarrow> byte c < 0x80 \<and> ascii s"
  by (auto simp: ascii_def)

lemma ascii_concat: "ascii (concat ws) \<longleftrightarrow> list_all ascii ws"
  by (induction ws) auto

lemma ascii_join: "ascii sep \<Longrightarrow> list_all ascii ws \<Longrightarrow> ascii (join sep ws)"
  by (induction sep ws rule: join.induct) auto

lemma ascii_digit: "json_digit c \<Longrightarrow> byte c < 0x80"
  by (auto simp: json_digit_def digit_chars_def byte_def)

lemma ascii_digits: "ascii (takeWhile json_digit s)"
  by (auto simp: ascii_def dest: set_takeWhileD ascii_digit)

lemma some_digits_ascii: "some_digits s = Some (ds, t) \<Longrightarrow> s = ds @ t \<and> ascii ds"
  using ascii_digits[of s] by (cases s) (auto simp: some_digits_def split: if_splits)

lemma number_parts_ascii:
  "sign_part s = (sg, t) \<Longrightarrow> s = sg @ t \<and> ascii sg"
  "int_part s = Some (i, t) \<Longrightarrow> s = i @ t \<and> ascii i"
  "frac_part s = (f, t) \<Longrightarrow> s = f @ t \<and> ascii f"
  "exp_part s = (e, t) \<Longrightarrow> s = e @ t \<and> ascii e"
proof -
  show "sign_part s = (sg, t) \<Longrightarrow> s = sg @ t \<and> ascii sg"
    by (auto simp: sign_part_def byte_def split: list.splits if_splits)
  show "int_part s = Some (i, t) \<Longrightarrow> s = i @ t \<and> ascii i"
    using ascii_digits[of s] by (cases s) (auto simp: int_part_def byte_def split: if_splits)
  show "frac_part s = (f, t) \<Longrightarrow> s = f @ t \<and> ascii f"
    by (cases s) (auto simp: frac_part_def byte_def split: if_splits option.splits dest!: some_digits_ascii)
  have "exp_sign u = (sg, v) \<Longrightarrow> u = sg @ v \<and> ascii sg" for u sg v
    by (auto simp: exp_sign_def byte_def split: list.splits if_splits)
  then show "exp_part s = (e, t) \<Longrightarrow> s = e @ t \<and> ascii e"
    by (cases s) (fastforce simp: exp_part_def byte_def split: if_splits option.splits prod.splits dest!: some_digits_ascii)+
qed

lemma scan_number_ascii:
  assumes "scan_number s = Some (v, [])"
  shows "ascii s"
proof -
  obtain sg t where sg: "sign_part s = (sg, t)" by fastforce
  then obtain i t1 where i: "int_part t = Some (i, t1)"
    using assms by (auto simp: scan_number_def sign_part_def split: option.splits prod.splits)
  obtain f t2 e t3 where f: "frac_part t1 = (f, t2)" and e: "exp_part t2 = (e, t3)" by fastforce
  from scan_number_parts[OF sg i f e] assms number_parts_ascii(1)[OF sg] number_parts_ascii(2)[OF i]
    number_parts_ascii(3)[OF f] number_parts_ascii(4)[OF e]
  show ?thesis by (auto split: if_splits)
qed

lemma hex4_ascii: "ascii (hex4 n)"
proof -
  have "list_all (\<lambda>k. byte (hex_digit k) < 0x80) [0..<16]" by (simp add: hex_digit_def byte_def upt_rec)
  then have "byte (hex_digit (k mod 16)) < 0x80" for k by (simp add: list_all_iff)
  then show ?thesis by (simp add: hex4_def)
qed

lemma ascii_if: "(b \<Longrightarrow> ascii s) \<Longrightarrow> (\<not> b \<Longrightarrow> ascii t) \<Longrightarrow> ascii (if b then s else t)"
  by simp

lemma escape_ascii:
  assumes "utf8_conts a = Some (length w)" "list_all cont_byte w" "utf8_second a w"
  shows "ascii (escape_char (a # w))"
proof -
  have u: "ascii (unicode_escape n)" for n by (simp add: unicode_escape_def hex4_ascii byte_def)
  have "w = [] \<or> 0x7E < code_point (a # w)"
    using assms(1)
  proof (cases rule: utf8_conts_cases)
    case 2
    then obtain b where "w = [b]" by (auto simp: length_Suc_conv)
    with 2 assms utf8_of_code_point2[of a b] show ?thesis by simp
  next
    case 3
    then obtain b d where "w = [b, d]" by (auto simp: numeral_eq_Suc length_Suc_conv)
    with 3 assms utf8_of_code_point3[of a b d] show ?thesis by simp
  next
    case 4
    then obtain b d e where "w = [b, d, e]" by (auto simp: numeral_eq_Suc length_Suc_conv)
    with 4 assms utf8_of_code_point4[of a b d e] show ?thesis by simp
  qed auto
  moreover have "w = [] \<Longrightarrow> code_point (a # w) = byte a" by (simp add: code_point_def)
  ultimately have "code_point (a # w) \<le> 0x7E \<Longrightarrow> ascii (a # w)" by auto
  moreover have "ascii (CHR 0x5C # dquote # ''nrtfb'')" by (simp add: byte_def)
  ultimately show ?thesis
    unfolding escape_char_def Let_def using u by (intro ascii_if) simp_all
qed

lemma json_string_ascii: "utf8_valid s \<Longrightarrow> ascii (json_string s)"
proof -
  have "utf8_valid s \<Longrightarrow> ascii (concat (map escape_char (characters s)))"
  proof (induction s rule: utf8_valid.induct)
    case (2 a s)
    then obtain n where n: "utf8_conts a = Some n" by (auto split: option.splits)
    with 2(2) have v: "n \<le> length s" "list_all cont_byte (take n s)" "utf8_second a (take n s)" "utf8_valid (drop n s)"
      by auto
    have "utf8_conts a = Some (length (take n s))" using n v(1) by simp
    from escape_ascii[OF this v(2,3)] 2(1)[OF n v(4)] show ?case
      by (simp add: characters_valid[OF 2(2) n] del: characters.simps)
  qed simp
  then show "utf8_valid s \<Longrightarrow> ascii (json_string s)" by (simp add: json_string_def byte_def)
qed

lemma dumps_ascii: "json_good j \<Longrightarrow> ascii (dumps j)"
proof (induction j)
  case (JInt n)
  show ?case using scan_number_ascii[OF scan_show_int] by simp
next
  case (JFloat x)
  then show ?case
    using scan_number_ascii[of "show_float x"]
    by (cases x) (auto simp: json_float_def float_good_def byte_def simp del: show_float.simps)
next
  case (JStr s)
  then show ?case by (simp add: json_string_ascii)
next
  case (JArr vs)
  then have "list_all ascii (map dumps vs)" by (auto simp: list_all_iff)
  then have "ascii (join '','' (map dumps vs))" by (intro ascii_join) (simp_all add: byte_def)
  then show ?case by (simp add: byte_def)
next
  case (JObj kvs)
  have "list_all ascii (map member_text kvs)"
    unfolding list_all_iff
  proof
    fix t assume "t \<in> set (map member_text kvs)"
    then obtain k v where kv: "(k, v) \<in> set kvs" "t = member_text (k, v)" by auto
    with JObj.prems have g: "utf8_valid k" "json_good v" by (auto simp: list_all_iff)
    have "ascii (dumps v)" using JObj.IH[OF kv(1) _ g(2)] by simp
    with json_string_ascii[OF g(1)] show "ascii t" by (simp add: kv(2) member_text_def byte_def)
  qed
  then have "ascii (join '','' (map member_text kvs))" by (intro ascii_join) (simp_all add: byte_def)
  then show ?case unfolding dumps_members by (simp add: byte_def)
qed (simp_all add: byte_def)

lemma dumps_valid: "json_good j \<Longrightarrow> utf8_valid (dumps j)"
  by (rule utf8_valid_ascii[OF dumps_ascii])

end
