(* ===== verification/ClientApi.thy ===== *)
theory ClientApi
  imports ClientConnection JsonDecode
begin

text \<open>
  The class \<open>TestCore\<close> of \<open>testcore_client/client.py\<close>: every method is a function on the connection that
  returns a Python value or an exception.  A method sends one command and translates the reply.
\<close>

subsection \<open>Values and exceptions\<close>

datatype pyval =
    VNone
  | VBool bool
  | VInt int
  | VFloat pyfloat
  | VStr string
  | VList "pyval list"
  | VTuple "pyval list"
  | VDict "(pyval \<times> pyval) list"

text \<open>The exceptions a method raises: those of the connection, and those of the method itself.\<close>

datatype api_exn =
    Remote client_exn
  | TestCoreError string
  | ValueError
  | IndexError
  | TypeError
  | AttributeError
  | JSONDecodeError

type_synonym api_call = "connection \<Rightarrow> (api_exn + pyval) \<times> connection"

fun of_resp :: "resp \<Rightarrow> pyval" where
  "of_resp RNil = VNone"
| "of_resp (RStr s) = VStr s"
| "of_resp (RInt n) = VInt n"
| "of_resp (RList xs) = VList (map of_resp xs)"

fun of_json :: "json \<Rightarrow> pyval" where
  "of_json JNull = VNone"
| "of_json (JBool b) = VBool b"
| "of_json (JInt n) = VInt n"
| "of_json (JFloat x) = VFloat x"
| "of_json (JStr s) = VStr s"
| "of_json (JArr vs) = VList (map of_json vs)"
| "of_json (JObj kvs) = VDict (map (\<lambda>(k, v). (VStr k, of_json v)) kvs)"

text \<open>\<open>json.loads(r)\<close>; bytes and text only.\<close>

definition json_loads :: "resp \<Rightarrow> api_exn + pyval" where
  "json_loads r =
     (case r of
        RStr s \<Rightarrow> (case loads s of Some j \<Rightarrow> Inr (of_json j) | None \<Rightarrow> Inl JSONDecodeError)
      | _ \<Rightarrow> Inl TypeError)"

text \<open>Arguments that are turned into text by \<open>str\<close> or an f-string.\<close>

datatype arg = ArgStr string | ArgInt int | ArgFloat pyfloat

fun str_arg :: "arg \<Rightarrow> string" where
  "str_arg (ArgStr s) = s"
| "str_arg (ArgInt n) = show_int n"
| "str_arg (ArgFloat x) = show_float x"

text \<open>An optional word: none for \<open>None\<close> and for the empty string.\<close>

definition opt_word :: "string option \<Rightarrow> string list" where
  "opt_word v = (case v of None \<Rightarrow> [] | Some s \<Rightarrow> if s = [] then [] else [s])"

text \<open>\<open>a, b = target.split(" ", 1)\<close>.\<close>

definition split_target :: "string \<Rightarrow> api_exn + (string \<times> string)" where
  "split_target target =
     (case split_first space target of
        (a, Some b) \<Rightarrow> Inr (a, b)
      | (_, None) \<Rightarrow> Inl ValueError)"

fun split_targets :: "string list \<Rightarrow> api_exn + string list" where
  "split_targets [] = Inr []"
| "split_targets (t # ts) =
     (case split_target t of
        Inl e \<Rightarrow> Inl e
      | Inr (a, b) \<Rightarrow> (case split_targets ts of Inl e \<Rightarrow> Inl e | Inr ws \<Rightarrow> Inr ((a @ '':'' @ b) # ws)))"

subsection \<open>Translating replies\<close>

definition parse_identity :: "resp \<Rightarrow> api_exn + pyval" where
  "parse_identity r = Inr (of_resp r)"

definition parse_ok :: "resp \<Rightarrow> api_exn + pyval" where
  "parse_ok r = Inr (VBool (r = RStr ''OK''))"

definition parse_list :: "resp \<Rightarrow> api_exn + pyval" where
  "parse_list r =
     Inr (case r of RNil \<Rightarrow> VList [] | RStr s \<Rightarrow> VList [VStr s] | v \<Rightarrow> of_resp v)"

definition parse_pong :: "resp \<Rightarrow> api_exn + pyval" where
  "parse_pong r = Inr (if r = RStr ''PONG'' then VBool True else of_resp r)"

definition parse_raw :: "resp \<Rightarrow> api_exn + pyval" where
  "parse_raw r = Inr (if r = RStr ''OK'' then VNone else of_resp r)"

definition parse_mread :: "resp \<Rightarrow> api_exn + pyval" where
  "parse_mread r = Inr (case r of RList _ \<Rightarrow> of_resp r | v \<Rightarrow> VList [of_resp v])"

text \<open>\<open>not r\<close>.\<close>

definition falsy :: "resp \<Rightarrow> bool" where
  "falsy r = (r \<in> {RNil, RStr [], RInt 0, RList []})"

text \<open>The elements of a reply that is iterated, sliced or indexed.\<close>

definition elements :: "resp \<Rightarrow> api_exn + resp list" where
  "elements r =
     (case r of
        RList xs \<Rightarrow> Inr xs
      | RStr s \<Rightarrow> Inr (map RStr (characters s))
      | _ \<Rightarrow> Inl TypeError)"

text \<open>\<open>dict(zip(r[::2], r[1::2]))\<close>; a list cannot be a key.\<close>

fun dict_of_flat :: "resp list \<Rightarrow> (pyval, pyval) dict \<Rightarrow> api_exn + pyval" where
  "dict_of_flat (k # v # rest) d =
     (case k of
        RList _ \<Rightarrow> Inl TypeError
      | _ \<Rightarrow> dict_of_flat rest (dict_set d (of_resp k) (of_resp v)))"
| "dict_of_flat _ d = Inr (VDict d)"

definition parse_getall :: "resp \<Rightarrow> api_exn + pyval" where
  "parse_getall r =
     (if falsy r then Inr (VDict [])
      else case elements r of Inl e \<Rightarrow> Inl e | Inr xs \<Rightarrow> dict_of_flat xs [])"

fun meas_of_flat :: "resp list \<Rightarrow> (pyval, pyval) dict \<Rightarrow> api_exn + pyval" where
  "meas_of_flat [] d = Inr (VDict d)"
| "meas_of_flat [_] d = Inl IndexError"
| "meas_of_flat (k # v # rest) d =
     (case json_loads v of
        Inl e \<Rightarrow> Inl e
      | Inr j \<Rightarrow> (case k of RList _ \<Rightarrow> Inl TypeError | _ \<Rightarrow> meas_of_flat rest (dict_set d (of_resp k) j)))"

definition parse_meas_getall :: "resp \<Rightarrow> api_exn + pyval" where
  "parse_meas_getall r =
     (if falsy r then Inr (VDict [])
      else case elements r of Inl e \<Rightarrow> Inl e | Inr xs \<Rightarrow> meas_of_flat xs [])"

definition parse_meas_get :: "resp \<Rightarrow> api_exn + pyval" where
  "parse_meas_get r = (if r = RNil then Inr VNone else json_loads r)"

text \<open>One entry of \<open>BENCH\<close>: name, state and \<open>key=value\<close> words.\<close>

fun bench_fields :: "string list \<Rightarrow> (pyval, pyval) dict \<Rightarrow> api_exn + pyval" where
  "bench_fields [] d = Inr (VDict d)"
| "bench_fields (p # ps) d =
     (case split_first (CHR ''='') p of
        (k, Some v) \<Rightarrow> bench_fields ps (dict_set d (VStr k) (VStr v))
      | (_, None) \<Rightarrow> Inl ValueError)"

definition bench_entry :: "resp \<Rightarrow> api_exn + pyval" where
  "bench_entry r =
     (case r of
        RStr s \<Rightarrow>
          (case words s of
             name # st # rest \<Rightarrow> bench_fields rest [(VStr ''name'', VStr name), (VStr ''state'', VStr st)]
           | _ \<Rightarrow> Inl IndexError)
      | _ \<Rightarrow> Inl AttributeError)"

fun all_entries :: "('a \<Rightarrow> api_exn + pyval) \<Rightarrow> 'a list \<Rightarrow> api_exn + pyval list" where
  "all_entries f [] = Inr []"
| "all_entries f (x # xs) =
     (case f x of
        Inl e \<Rightarrow> Inl e
      | Inr v \<Rightarrow> (case all_entries f xs of Inl e \<Rightarrow> Inl e | Inr vs \<Rightarrow> Inr (v # vs)))"

definition parse_bench :: "resp \<Rightarrow> api_exn + pyval" where
  "parse_bench r =
     (if falsy r then Inr (VList [])
      else case (case r of RStr s \<Rightarrow> Inr [RStr s] | v \<Rightarrow> elements v) of
        Inl e \<Rightarrow> Inl e
      | Inr xs \<Rightarrow> (case all_entries bench_entry xs of Inl e \<Rightarrow> Inl e | Inr vs \<Rightarrow> Inr (VList vs)))"

text \<open>\<open>s.replace(old, '')\<close> for a word that is not empty.\<close>

fun remove_all :: "nat \<Rightarrow> string \<Rightarrow> string \<Rightarrow> string" where
  "remove_all 0 old s = s"
| "remove_all (Suc n) old s =
     (case s of
        [] \<Rightarrow> []
      | c # t \<Rightarrow> if startswith s old then remove_all n old (drop (length old) s) else c # remove_all n old t)"

definition without :: "string \<Rightarrow> string \<Rightarrow> string" where
  "without s old = remove_all (length s) old s"

fun locked_entries :: "resp list \<Rightarrow> (pyval, pyval) dict \<Rightarrow> api_exn + pyval" where
  "locked_entries [] d = Inr (VDict d)"
| "locked_entries (x # xs) d =
     (case x of
        RStr entry \<Rightarrow>
          (case split_last colon entry of
             (a, Some b) \<Rightarrow>
               (case read_int b of
                  None \<Rightarrow> Inl ValueError
                | Some n \<Rightarrow> locked_entries xs (dict_set d (VStr (without a '':session'')) (VInt n)))
           | (_, None) \<Rightarrow> locked_entries xs d)
      | _ \<Rightarrow> Inl AttributeError)"

definition parse_locked :: "resp \<Rightarrow> api_exn + pyval" where
  "parse_locked r =
     (if falsy r then Inr (VDict [])
      else case elements r of Inl e \<Rightarrow> Inl e | Inr xs \<Rightarrow> locked_entries xs [])"

definition client_entry :: "string \<Rightarrow> pyval" where
  "client_entry line =
     VDict (fold (\<lambda>p d. case split_first (CHR ''='') p of
                          (k, Some v) \<Rightarrow> dict_set d (VStr k) (VStr v)
                        | (_, None) \<Rightarrow> d)
              (split_all space (strip line)) [])"

definition parse_client_list :: "resp \<Rightarrow> api_exn + pyval" where
  "parse_client_list r =
     (case r of
        RStr raw \<Rightarrow>
          Inr (VList (map client_entry (filter (\<lambda>l. strip l \<noteq> []) (split_all (CHR 0x0A) (strip raw)))))
      | _ \<Rightarrow> Inl AttributeError)"

text \<open>\<open>(int(r[0]), int(r[1]))\<close>.\<close>

definition int_item :: "resp list \<Rightarrow> nat \<Rightarrow> api_exn + int" where
  "int_item xs i =
     (if length xs \<le> i then Inl IndexError
      else case xs ! i of
        RInt n \<Rightarrow> Inr n
      | RStr s \<Rightarrow> (case read_int s of Some n \<Rightarrow> Inr n | None \<Rightarrow> Inl ValueError)
      | _ \<Rightarrow> Inl TypeError)"

definition parse_time :: "resp \<Rightarrow> api_exn + pyval" where
  "parse_time r =
     (case elements r of
        Inl e \<Rightarrow> Inl e
      | Inr xs \<Rightarrow>
          (case int_item xs 0 of
             Inl e \<Rightarrow> Inl e
           | Inr a \<Rightarrow> (case int_item xs 1 of Inl e \<Rightarrow> Inl e | Inr b \<Rightarrow> Inr (VTuple [VInt a, VInt b]))))"

definition parse_journal :: "resp \<Rightarrow> api_exn + pyval" where
  "parse_journal r = (case r of RInt n \<Rightarrow> Inr (VInt n) | v \<Rightarrow> parse_list v)"

subsection \<open>Methods\<close>

text \<open>\<open>_cmd\<close>, and what the method makes of the reply.\<close>

definition ask :: "(resp \<Rightarrow> api_exn + pyval) \<Rightarrow> string list \<Rightarrow> api_call" where
  "ask parse args c =
     (case send_command args c of
        (Inl e, c1) \<Rightarrow> (Inl (Remote e), c1)
      | (Inr r, c1) \<Rightarrow> (parse r, c1))"

definition refuse :: "api_exn \<Rightarrow> api_call" where
  "refuse e c = (Inl e, c)"

definition tc_ping :: "string option \<Rightarrow> api_call" where
  "tc_ping message =
     (case message of Some m \<Rightarrow> ask parse_identity [''PING'', m] | None \<Rightarrow> ask parse_pong [''PING''])"

definition tc_time :: api_call where
  "tc_time = ask parse_time [''TIME'']"

definition tc_info :: "string option \<Rightarrow> api_call" where
  "tc_info sect = ask parse_identity (''INFO'' # opt_word sect)"

definition tc_client_id :: api_call where
  "tc_client_id = ask parse_identity [''CLIENT'', ''ID'']"

definition tc_client_list :: api_call where
  "tc_client_list = ask parse_client_list [''CLIENT'', ''LIST'']"

definition tc_client_name :: "string \<Rightarrow> api_call" where
  "tc_client_name name = ask parse_ok [''CLIENT'', ''NAME'', name]"

definition tc_command_list :: "string option \<Rightarrow> api_call" where
  "tc_command_list pat = ask parse_identity ([''COMMAND'', ''LIST''] @ opt_word pat)"

definition tc_kset :: "string \<Rightarrow> arg \<Rightarrow> bool \<Rightarrow> bool \<Rightarrow> bool \<Rightarrow> api_call" where
  "tc_kset key v nx xx ro =
     ask parse_ok ([''KSET'', key, str_arg v]
                   @ (if nx then [''NX''] else if xx then [''XX''] else [])
                   @ (if ro then [''RO''] else []))"

definition tc_kget :: "string \<Rightarrow> api_call" where
  "tc_kget key = ask parse_identity [''KGET'', key]"

definition tc_kmget :: "string list \<Rightarrow> api_call" where
  "tc_kmget keys = ask parse_identity (''KMGET'' # keys)"

text \<open>\<open>mapping or kwargs\<close>.\<close>

definition pairs_given :: "(string \<times> arg) list option \<Rightarrow> (string \<times> arg) list \<Rightarrow> (string \<times> arg) list" where
  "pairs_given mapping kwargs = (case mapping of None \<Rightarrow> kwargs | Some m \<Rightarrow> if m = [] then kwargs else m)"

definition tc_kmset :: "(string \<times> arg) list option \<Rightarrow> (string \<times> arg) list \<Rightarrow> api_call" where
  "tc_kmset mapping kwargs =
     ask parse_ok (''KMSET'' # concat (map (\<lambda>(k, v). [k, str_arg v]) (pairs_given mapping kwargs)))"

definition tc_kdel :: "string list \<Rightarrow> api_call" where
  "tc_kdel keys = ask parse_identity (''KDEL'' # keys)"

definition tc_kexists :: "string list \<Rightarrow> api_call" where
  "tc_kexists keys = ask parse_identity (''KEXISTS'' # keys)"

definition tc_kkeys :: "string \<Rightarrow> api_call" where
  "tc_kkeys pat = ask parse_list [''KKEYS'', pat]"

definition tc_kdbsize :: api_call where
  "tc_kdbsize = ask parse_identity [''KDBSIZE'']"

definition tc_kflush :: api_call where
  "tc_kflush = ask parse_ok [''KFLUSH'']"

definition tc_kgetall :: "string option \<Rightarrow> api_call" where
  "tc_kgetall pre = ask parse_getall (''KGETALL'' # opt_word pre)"

definition tc_mget :: "string \<Rightarrow> api_call" where
  "tc_mget target =
     (case split_target target of
        Inl e \<Rightarrow> refuse e
      | Inr (inst, res) \<Rightarrow> ask parse_meas_get [''MGET'', inst, res])"

definition tc_mgetall :: "string option \<Rightarrow> api_call" where
  "tc_mgetall inst = ask parse_meas_getall (''MGETALL'' # opt_word inst)"

definition tc_mkeys :: "string option \<Rightarrow> api_call" where
  "tc_mkeys inst = ask parse_list (''MKEYS'' # opt_word inst)"

definition tc_dump :: api_call where
  "tc_dump = ask json_loads [''DUMP'']"

definition tc_journal :: "string list \<Rightarrow> api_call" where
  "tc_journal args = ask parse_journal (''JOURNAL'' # args)"

definition iadd_words :: "string \<Rightarrow> string \<Rightarrow> string option \<Rightarrow> (string \<times> arg) list \<Rightarrow> string list" where
  "iadd_words name drv addr kwargs =
     [''IADD'', name, drv] @ opt_word addr @ map (\<lambda>(k, v). k @ ''='' @ str_arg v) kwargs"

definition tc_iadd :: "string \<Rightarrow> string \<Rightarrow> string option \<Rightarrow> (string \<times> arg) list \<Rightarrow> api_call" where
  "tc_iadd name drv addr kwargs =
     (if contains name '' '' then refuse ValueError else ask parse_ok (iadd_words name drv addr kwargs))"

definition tc_iremove :: "string \<Rightarrow> api_call" where
  "tc_iremove name = ask parse_ok [''IREMOVE'', name]"

definition tc_ilist :: api_call where
  "tc_ilist = ask parse_list [''ILIST'']"

definition tc_iinfo :: "string \<Rightarrow> api_call" where
  "tc_iinfo name = ask parse_identity [''IINFO'', name]"

definition tc_iresources :: "string \<Rightarrow> api_call" where
  "tc_iresources name = ask parse_list [''IRESOURCES'', name]"

definition tc_iping :: "string \<Rightarrow> api_call" where
  "tc_iping name = ask parse_identity [''IPING'', name]"

definition limit_words :: "arg option \<Rightarrow> arg option \<Rightarrow> string list" where
  "limit_words lo hi =
     (case lo of Some x \<Rightarrow> [''MIN='' @ str_arg x] | None \<Rightarrow> [])
     @ (case hi of Some x \<Rightarrow> [''MAX='' @ str_arg x] | None \<Rightarrow> [])"

definition tc_iwatch :: "string \<Rightarrow> int \<Rightarrow> arg option \<Rightarrow> arg option \<Rightarrow> api_call" where
  "tc_iwatch target interval lo hi =
     (case split_target target of
        Inl e \<Rightarrow> refuse e
      | Inr (inst, res) \<Rightarrow> ask parse_ok ([''IWATCH'', inst, res, show_int interval] @ limit_words lo hi))"

definition tc_iunwatch :: "string list \<Rightarrow> api_call" where
  "tc_iunwatch args = ask parse_ok (''IUNWATCH'' # args)"

definition tc_iwatches :: "string option \<Rightarrow> api_call" where
  "tc_iwatches inst = ask parse_list (''IWATCHES'' # opt_word inst)"

definition tc_bench :: api_call where
  "tc_bench = ask parse_bench [''BENCH'']"

definition tc_driver_list :: api_call where
  "tc_driver_list = ask parse_list [''DRIVER'', ''LIST'']"

definition tc_ilock :: "string list \<Rightarrow> api_call" where
  "tc_ilock names = ask parse_ok (''ILOCK'' # names)"

definition tc_iunlock :: "string list \<Rightarrow> api_call" where
  "tc_iunlock names = ask parse_ok (''IUNLOCK'' # names)"

definition tc_ilocked :: api_call where
  "tc_ilocked = ask parse_locked [''ILOCKED'']"

definition iinit_words :: "string \<Rightarrow> string option \<Rightarrow> bool \<Rightarrow> string list" where
  "iinit_words name path selftest = [''IINIT'', name] @ opt_word path @ (if selftest then [''TST''] else [])"

definition tc_iinit :: "string \<Rightarrow> string option \<Rightarrow> bool \<Rightarrow> api_call" where
  "tc_iinit name path selftest = ask parse_ok (iinit_words name path selftest)"

definition tc_ireset :: "string \<Rightarrow> api_call" where
  "tc_ireset name = ask parse_ok [''IRESET'', name]"

definition tc_iwait :: "string \<Rightarrow> api_call" where
  "tc_iwait name = ask parse_ok [''IWAIT'', name]"

definition tc_ialign :: "string list \<Rightarrow> api_call" where
  "tc_ialign names = (if names = [] then refuse ValueError else ask parse_ok (''IALIGN'' # names))"

definition tc_iread :: "string \<Rightarrow> bool \<Rightarrow> api_call" where
  "tc_iread target meas =
     (case split_target target of
        Inl e \<Rightarrow> refuse e
      | Inr (inst, res) \<Rightarrow> ask parse_identity ([''IREAD'', inst, res] @ (if meas then [''MEAS''] else [])))"

definition tc_imread :: "string list \<Rightarrow> api_call" where
  "tc_imread targets =
     (case split_targets targets of Inl e \<Rightarrow> refuse e | Inr addrs \<Rightarrow> ask parse_mread (''IMREAD'' # addrs))"

definition tc_iwrite :: "string \<Rightarrow> arg \<Rightarrow> api_call" where
  "tc_iwrite target v =
     (case split_target target of
        Inl e \<Rightarrow> refuse e
      | Inr (inst, res) \<Rightarrow> ask parse_ok [''IWRITE'', inst, res, str_arg v])"

definition tc_iraw :: "string \<Rightarrow> api_call" where
  "tc_iraw target =
     (case split_target target of
        Inl e \<Rightarrow> refuse e
      | Inr (inst, command) \<Rightarrow> ask parse_raw [''IRAW'', inst, command])"

definition tc_iload :: "string \<Rightarrow> string \<Rightarrow> api_call" where
  "tc_iload target path =
     (case split_target target of
        Inl e \<Rightarrow> refuse e
      | Inr (inst, res) \<Rightarrow> ask parse_identity [''ILOAD'', inst, res, path])"

definition tc_isave :: "string \<Rightarrow> string \<Rightarrow> api_call" where
  "tc_isave target path =
     (case split_target target of
        Inl e \<Rightarrow> refuse e
      | Inr (inst, res) \<Rightarrow> ask parse_identity [''ISAVE'', inst, res, path])"

text \<open>Opening the connection, closing it and opening it again.  \<open>arrivals\<close> is what the new socket will
  receive.\<close>

definition tc_init :: "recv list \<Rightarrow> string option \<Rightarrow> (api_exn + pyval) \<times> connection" where
  "tc_init arrivals name =
     (case opt_word name of
        [] \<Rightarrow> (Inr VNone, connect arrivals)
      | n # _ \<Rightarrow>
          (case tc_client_name n (connect arrivals) of
             (Inl e, c) \<Rightarrow> (Inl e, c)
           | (Inr _, c) \<Rightarrow> (Inr VNone, c)))"

definition tc_close :: api_call where
  "tc_close c = (Inr VNone, close_connection c)"

definition tc_reconnect :: "recv list \<Rightarrow> string option \<Rightarrow> api_call" where
  "tc_reconnect arrivals name c = tc_init arrivals name"

end
