(* ===== verification/Wire.thy ===== *)
theory Wire
  imports Sample ClientApi
begin

text \<open>
  The two programs together: a method of the client writes its request, the server's session reads and
  executes it and writes the reply, and the method translates what arrives.
\<close>

text \<open>The bytes the server wrote to a client between two states.\<close>

definition written_to :: "int \<Rightarrow> 'w server \<Rightarrow> 'w server \<Rightarrow> string" where
  "written_to cid s s' = concat (map snd (filter (\<lambda>m. fst m = cid) (drop (length (sent s)) (sent s'))))"

text \<open>A call of the client against the server: what it sends is what it sends to a silent server, and
  what it gets is what the server writes to that session.\<close>

definition wire :: "'w env \<Rightarrow> int \<Rightarrow> api_call \<Rightarrow> 'w server \<Rightarrow> (api_exn + pyval) \<times> 'w server" where
  "wire env cid call s =
     (let request = outgoing (snd (call (connect [])));
          s' = client_receive env cid request s
      in (fst (call (connect [Data (written_to cid s s')])), s'))"

text \<open>A session between two commands: nothing half read, and in no special mode.\<close>

definition plain_client :: "client \<Rightarrow> bool" where
  "plain_client c =
     (running c \<and> buffer (parser c) = [] \<and> \<not> monitoring c \<and> \<not> pending_monitor c \<and> \<not> subscribing c)"

definition plain_session :: "int \<Rightarrow> 'w server \<Rightarrow> bool" where
  "plain_session cid s = (case dict_get (clients s) cid of Some c \<Rightarrow> plain_client c | None \<Rightarrow> False)"

definition fits :: "int \<Rightarrow> string list \<Rightarrow> 'w server \<Rightarrow> bool" where
  "fits cid ws s =
     (words_good ws
      \<and> (case dict_get (clients s) cid of
           Some c \<Rightarrow> length (encode_command ws) \<le> max_buffer_size (parser c) | None \<Rightarrow> False))"

subsection \<open>One command\<close>

lemma feed_command:
  assumes "words_good ws" "buffer p = []" "length (encode_command ws) \<le> max_buffer_size p"
  shows "feed p (encode_command ws) = (Inr [command_value ws], p)"
  using assms command_frames.drain_pipeline[of "[ws]" "[]"] command_frames.stream.drain_empty
  by (simp add: feed_def encode_command_array)

lemma request_of_ask: "outgoing (snd (ask parse ws (connect []))) = encode_command ws"
proof -
  let ?c = "(connect [])\<lparr>outgoing := encode_command ws\<rparr>"
  have "sends ?c" by (simp add: sends_def connect_def)
  then have "outgoing (snd (read_response ?c)) = encode_command ws"
    using read_response_sends[of ?c] by (cases "read_response ?c") simp
  then show ?thesis
    by (cases "read_response ?c")
      (auto simp: ask_def send_command_def send_packed_def connect_def split: sum.splits)
qed

text \<open>What a client makes of a reply that arrives in one piece.\<close>

lemma ask_reply:
  assumes "reply_good x"
  shows "fst (ask parse ws (connect [Data (reply_bytes x)]))
           = (case reply_result x of Inl e \<Rightarrow> Inl (Remote e) | Inr v \<Rightarrow> parse v)"
proof -
  let ?c = "(connect [Data (reply_bytes x)])\<lparr>outgoing := encode_command ws\<rparr>"
  have "reply_bytes x \<noteq> []" using reply_frames.enc_nonempty[of x] by simp
  then have h: "healthy ?c" "pending ?c = reply_bytes x @ []" by (simp_all add: healthy_def pending_def connect_def)
  from read_response_reply[OF assms h] obtain c' where "read_response ?c = (reply_result x, c')" by blast
  then show ?thesis
    by (auto simp: ask_def send_command_def send_packed_def connect_def split: sum.splits)
qed

text \<open>A command that leaves the session plain and writes nothing to it but the reply.\<close>

lemma wire_ask:
  assumes s: "plain_session cid s" and f: "fits cid ws s" and ws: "ws \<noteq> []"
    and d: "dispatch env ws (client_context cid) (count_command cid s) = (reply_bytes x, s2)"
    and x: "reply_good x" and w: "can_write env (world s2) cid"
    and quiet: "written_to cid s s2 = []" "length (sent s) \<le> length (sent s2)" "plain_session cid s2"
  shows "wire env cid (ask parse ws) s
    = ((case reply_result x of Inl e \<Rightarrow> Inl (Remote e) | Inr v \<Rightarrow> parse v),
       s2\<lparr>sent := sent s2 @ [(cid, reply_bytes x)]\<rparr>)"
proof -
  from s obtain c where c: "dict_get (clients s) cid = Some c" "plain_client c"
    by (auto simp: plain_session_def split: option.splits)
  from quiet(3) obtain c2 where c2: "dict_get (clients s2) cid = Some c2" "plain_client c2"
    by (auto simp: plain_session_def split: option.splits)
  obtain v vs where v: "ws = v # vs" using ws by (cases ws) auto
  have feed: "feed (parser c) (encode_command ws) = (Inr [command_value ws], parser c)"
    using f c by (intro feed_command) (auto simp: fits_def plain_client_def)
  have same: "upd_client cid (\<lambda>k. k\<lparr>parser := parser c\<rparr>) s = s"
    using c(1) by (simp add: upd_client_def dict_set_same)
  have idle: "leave_monitor cid (py_str (RStr v)) (count_command cid s) = count_command cid s"
    using c by (auto simp: leave_monitor_def count_command_def upd_client_def dict_simps plain_client_def)
  have py: "map py_str (map RStr ws) = ws" by (induction ws) auto
  let ?s3 = "s2\<lparr>sent := sent s2 @ [(cid, reply_bytes x)]\<rparr>"
  have enter: "enter_monitor cid ?s3 = ?s3" using c2 by (simp add: enter_monitor_def plain_client_def)
  have "process_message env cid (command_value ws) s = (True, ?s3)"
    using d w enter idle py by (simp add: process_message_def command_value_def v client_write_def Let_def)
  then have r: "client_receive env cid (encode_command ws) s = ?s3"
    using c feed same by (simp add: client_receive_def plain_client_def encode_command_def)
  have "written_to cid s ?s3 = reply_bytes x"
    using quiet by (simp add: written_to_def)
  then show ?thesis
    using ask_reply[OF x, of parse ws] by (simp add: wire_def Let_def request_of_ask r)
qed

subsection \<open>Commands and the other sessions\<close>

text \<open>A session that hears nothing but its replies: it neither monitors nor subscribes.\<close>

definition undisturbed :: "int \<Rightarrow> 'w server \<Rightarrow> bool" where
  "undisturbed cid s =
     (bus_ok (bus s) \<and> cid \<notin> set (monitors s)
      \<and> (\<forall>b. list_all (\<lambda>u. sub_handler u \<noteq> cid) (subs_of (bus s) b)))"

text \<open>The end of a command: the journal and the monitors.\<close>

definition finish :: "'w env \<Rightarrow> int \<Rightarrow> string list \<Rightarrow> string \<Rightarrow> 'w server \<Rightarrow> 'w server" where
  "finish env cid command reply s =
     (let s2 = record_command env (client_context cid) command reply s in
      if monitors s2 \<noteq> [] then broadcast_monitors env (monitor_line env (client_context cid) command s2) s2 else s2)"

lemma dispatch_command:
  assumes "resolve_command w args = (name, args')" "map_of (handlers env) name = Some h" "name \<noteq> ''MONITOR''"
    and "\<not> in_subscriber_mode (client_context cid) s" "h args' (client_context cid) s = (Inr reply, s1)"
  shows "dispatch env (w # args) (client_context cid) s = (reply, finish env cid (w # args) reply s1)"
  using assms by (simp add: dispatch_def run_handler_def finish_def Let_def)

lemma finish_fields [simp]:
  "kv (finish env cid command reply s) = kv s" "clients (finish env cid command reply s) = clients s"
  "bus (finish env cid command reply s) = bus s" "instruments (finish env cid command reply s) = instruments s"
  "world (finish env cid command reply s) = world s"
  by (simp_all add: finish_def record_command_def broadcast_monitors_def Let_def)

lemma finish_sent:
  "\<exists>ms. sent (finish env cid command reply s) = sent s @ ms \<and> (\<forall>m \<in> set ms. fst m \<in> set (monitors s))"
  by (auto simp: finish_def record_command_def broadcast_monitors_def Let_def)

lemma finish_monitors: "set (monitors (finish env cid command reply s)) \<subseteq> set (monitors s)"
  by (auto simp: finish_def record_command_def broadcast_monitors_def Let_def)

lemma finish_undisturbed: "undisturbed k s \<Longrightarrow> undisturbed k (finish env cid command reply s)"
  using finish_monitors[of env cid command reply s] by (auto simp: undisturbed_def)

text \<open>Writing to others.\<close>

definition quiet_step :: "int \<Rightarrow> 'w server \<Rightarrow> 'w server \<Rightarrow> bool" where
  "quiet_step cid s s' = (\<exists>ms. sent s' = sent s @ ms \<and> (\<forall>m \<in> set ms. fst m \<noteq> cid))"

lemma quiet_step_written: "quiet_step cid s s' \<Longrightarrow> written_to cid s s' = [] \<and> length (sent s) \<le> length (sent s')"
  by (force simp: quiet_step_def written_to_def filter_empty_conv)

lemma quiet_step_refl [simp]: "sent s' = sent s \<Longrightarrow> quiet_step cid s s'"
  by (auto simp: quiet_step_def)

lemma quiet_step_trans: "quiet_step cid s t \<Longrightarrow> quiet_step cid t u \<Longrightarrow> quiet_step cid s u"
  by (fastforce simp: quiet_step_def)

lemma finish_quiet: "undisturbed k s \<Longrightarrow> quiet_step k s (finish env cid command reply s)"
  using finish_sent[of env cid command reply s] by (auto simp: quiet_step_def undisturbed_def)

lemma publish_on_quiet:
  assumes "undisturbed cid s"
  shows "quiet_step cid s (publish_on env ch payload key s)" "undisturbed cid (publish_on env ch payload key s)"
proof -
  obtain msgs b where p: "publish (can_write env (world s)) (bus s) ch payload key = (msgs, b)" by fastforce
  have "bus_ok (bus s)" "cid \<notin> set (monitors s)" and sub: "list_all (\<lambda>u. sub_handler u \<noteq> cid) (subs_of (bus s) x)" for x
    using assms by (auto simp: undisturbed_def)
  with publish_messages[of "can_write env (world s)" "bus s" ch payload key]
    publish_subs[of "bus s" "can_write env (world s)" ch payload key] publish_ok[of "bus s" "can_write env (world s)" ch payload key] p
  have m: "\<forall>m \<in> set msgs. fst m \<noteq> cid" and b: "bus_ok b" "list_all (\<lambda>u. sub_handler u \<noteq> cid) (subs_of b x)" for x
    by (auto simp: list_all_iff)
  then show "quiet_step cid s (publish_on env ch payload key s)" "undisturbed cid (publish_on env ch payload key s)"
    using assms by (auto simp: publish_on_def p quiet_step_def undisturbed_def)
qed

lemma publish_on_tables [simp]:
  "kv (publish_on env ch payload key s) = kv s" "clients (publish_on env ch payload key s) = clients s"
  "world (publish_on env ch payload key s) = world s"
  by (simp_all add: publish_on_def split: prod.splits)

lemma count_command_simps [simp]:
  "kv (count_command cid s) = kv s" "sent (count_command cid s) = sent s" "world (count_command cid s) = world s"
  "bus (count_command cid s) = bus s" "monitors (count_command cid s) = monitors s"
  "instruments (count_command cid s) = instruments s" "undisturbed k (count_command cid s) = undisturbed k s"
  by (simp_all add: count_command_def upd_client_def undisturbed_def split: option.splits)

lemma count_command_plain: "plain_session cid s \<Longrightarrow> plain_session cid (count_command cid s)"
  by (auto simp: plain_session_def count_command_def upd_client_def dict_simps plain_client_def split: option.splits)

lemma plain_same: "clients s' = clients s \<Longrightarrow> plain_session cid s' = plain_session cid s"
  by (simp add: plain_session_def)

lemma plain_not_subscriber: "plain_session cid s \<Longrightarrow> \<not> in_subscriber_mode (client_context cid) s"
  by (auto simp: plain_session_def in_subscriber_mode_def the_client_def client_context_def plain_client_def split: option.splits)

lemma fits_later:
  assumes "clients s' = clients (count_command cid s)"
  shows "fits cid ws s' = fits cid ws s"
  using assms by (auto simp: fits_def count_command_def upd_client_def dict_simps split: option.splits)

text \<open>A call whose command is served by one handler.\<close>

lemma wire_command:
  assumes s: "plain_session cid s" "undisturbed cid s" "fits cid (w # args) s" "can_write env (world s1) cid"
    and c: "resolve_command w args = (name, args')" "map_of (handlers env) name = Some h" "name \<noteq> ''MONITOR''"
    and h: "h args' (client_context cid) (count_command cid s) = (Inr (reply_bytes x), s1)" and x: "reply_good x"
    and q: "clients s1 = clients (count_command cid s)" "quiet_step cid (count_command cid s) s1" "undisturbed cid s1"
  shows "\<exists>s2. wire env cid (ask parse (w # args)) s
           = ((case reply_result x of Inl e \<Rightarrow> Inl (Remote e) | Inr v \<Rightarrow> parse v), s2)
         \<and> kv s2 = kv s1 \<and> instruments s2 = instruments s1 \<and> world s2 = world s1
         \<and> plain_session cid s2 \<and> undisturbed cid s2 \<and> clients s2 = clients (count_command cid s)"
proof -
  let ?f = "finish env cid (w # args) (reply_bytes x) s1"
  note p = count_command_plain[OF s(1)]
  have d: "dispatch env (w # args) (client_context cid) (count_command cid s) = (reply_bytes x, ?f)"
    using c plain_not_subscriber[OF p] h by (intro dispatch_command)
  have "quiet_step cid s (count_command cid s)" by simp
  from quiet_step_trans[OF this quiet_step_trans[OF q(2) finish_quiet[OF q(3)]]]
  have w: "written_to cid s ?f = []" "length (sent s) \<le> length (sent ?f)" using quiet_step_written by blast+
  have f: "plain_session cid ?f" using p plain_same[of ?f "count_command cid s"] q(1) by simp
  have "can_write env (world ?f) cid" using s(4) by simp
  from wire_ask[OF s(1,3) _ d x this w f] f finish_undisturbed[OF q(3)] q(1)
  show ?thesis by (auto simp: plain_session_def undisturbed_def)
qed

subsection \<open>The sample server\<close>

lemma sample_plain [simp]: "plain_session 1 sample" "plain_session 2 sample" "undisturbed k sample"
    "can_write sample_env w k"
  by (simp_all add: plain_session_def plain_client_def sample_client_def new_client_def new_parser_def undisturbed_def)
    (simp_all add: sample_defs bus_ok_def subs_of_def dict_get_def dict_ok_def dict_keys_def hardware.defs site.defs)

lemma sample_fits:
  assumes "cid \<in> {1, 2}" "list_all utf8_valid ws" "length (encode_command ws) \<le> 100"
  shows "fits cid ws sample"
  using assms by (auto simp: fits_def words_good_def sample_client_def new_client_def new_parser_def MAX_BUFFER_SIZE_def)

lemma sample_store: "owners (kv sample) = []"
  by (simp add: sample_def new_server_def new_store_def)

subsection \<open>Keys\<close>

lemma kv_commands:
  "resolve_command ''KSET'' args = (''KSET'', args)" "resolve_command ''KGET'' args = (''KGET'', args)"
  "resolve_command ''MGET'' args = (''MGET'', args)" "resolve_command ''ILOCKED'' args = (''ILOCKED'', args)"
  "map_of (handlers env) ''KSET'' = Some (handle_set env)" "map_of (handlers env) ''KGET'' = Some handle_get"
  "map_of (handlers env) ''MGET'' = Some handle_meas_get" "map_of (handlers env) ''ILOCKED'' = Some handle_locks"
proof -
  have u: "upper ''KSET'' = ''KSET''" "upper ''KGET'' = ''KGET''" "upper ''MGET'' = ''MGET''" "upper ''ILOCKED'' = ''ILOCKED''"
    by code_simp+
  show "resolve_command ''KSET'' args = (''KSET'', args)" "resolve_command ''KGET'' args = (''KGET'', args)"
    "resolve_command ''MGET'' args = (''MGET'', args)" "resolve_command ''ILOCKED'' args = (''ILOCKED'', args)"
    by (simp_all add: resolve_command_def u SUBCOMMAND_ROOTS_def)
qed (simp_all add: handlers_def)

lemma kv_set_free:
  assumes "\<not> is_reserved k" "dict_get (owners st) k \<in> {None, Some cid}"
  obtains st' where "kv_set st k v False False False (Some cid) = Inr (True, st')" "kv_get st' k = Some v"
  using assms by (cases "owners st = []")
    (auto simp: kv_set_def check_owner_def kv_get_def Let_def dict_simps split: if_splits)

lemma wire_kset:
  assumes s: "plain_session cid s" "undisturbed cid s" "can_write env (world s) cid" "fits cid [''KSET'', k, v] s"
    and k: "\<not> is_reserved k" "dict_get (owners (kv s)) k \<in> {None, Some cid}"
  shows "\<exists>s1. wire env cid (tc_kset k (ArgStr v) False False False) s = (Inr (VBool True), s1)
    \<and> kv_get (kv s1) k = Some v \<and> world s1 = world s
    \<and> plain_session cid s1 \<and> undisturbed cid s1 \<and> clients s1 = clients (count_command cid s)"
proof -
  obtain st where st: "kv_set (kv s) k v False False False (Some cid) = Inr (True, st)" "kv_get st k = Some v"
    using kv_set_free[OF k] by blast
  let ?s1 = "publish_kv env k v (Some cid) ((count_command cid s)\<lparr>kv := st\<rparr>)"
  have h: "handle_set env [k, v] (client_context cid) (count_command cid s) = (Inr (reply_bytes (Simple ''OK'')), ?s1)"
    using st(1) by (simp add: handle_set_def client_context_def)
  have u: "undisturbed cid ((count_command cid s)\<lparr>kv := st\<rparr>)" using s(2) by (simp add: undisturbed_def)
  have "quiet_step cid (count_command cid s) ((count_command cid s)\<lparr>kv := st\<rparr>)" by simp
  from quiet_step_trans[OF this publish_on_quiet(1)[OF u]]
  have q: "quiet_step cid (count_command cid s) ?s1" "undisturbed cid ?s1" "clients ?s1 = clients (count_command cid s)"
    "world ?s1 = world s" "kv ?s1 = st"
    using publish_on_quiet(2)[OF u] by (simp_all add: publish_kv_def)
  have g: "reply_good (Simple ''OK'')" and r: "reply_result (Simple ''OK'') = Inr (RStr ''OK'')" by code_simp+
  have "can_write env (world ?s1) cid" using s(3) q(4) by simp
  from wire_command[OF s(1,2,4) this kv_commands(1,5) _ h g q(3,1,2), where parse = parse_ok] r q(4,5) st(2) show ?thesis
    by (auto simp: tc_kset_def parse_ok_def)
qed

lemma wire_kget:
  assumes s: "plain_session cid s" "undisturbed cid s" "can_write env (world s) cid" "fits cid [''KGET'', k] s"
    and k: "kv_get (kv s) k = Some v" "utf8_valid v" "\<not> startswith v ''ERR_''"
  shows "fst (wire env cid (tc_kget k) s) = Inr (VStr v)"
proof -
  have h: "handle_get [k] (client_context cid) (count_command cid s) = (Inr (reply_bytes (Bulk v)), count_command cid s)"
    using k(1) by (simp add: handle_get_def)
  have g: "reply_good (Bulk v)" and r: "reply_result (Bulk v) = Inr (RStr v)" using k by (simp_all add: reply_result_def)
  have "can_write env (world (count_command cid s)) cid" using s(3) by simp
  from wire_command[OF s(1,2,4) this kv_commands(2,6) _ h g, where parse = parse_identity] r s(2) show ?thesis
    by (auto simp: tc_kget_def parse_identity_def)
qed

text \<open>C4: a value written with \<open>kset\<close> by one side of the wire is what \<open>kget\<close> returns on the other: through the
  client's encoder, the server's parser, dispatcher, store and serializer, and the client's parser, while
  other sessions watch, monitor or subscribe.  A value that starts with \<open>ERR_\<close> is the exception: the
  client takes it for an error line.\<close>

theorem kset_then_kget:
  assumes "plain_session cid s" "undisturbed cid s" "can_write env (world s) cid"
    and "fits cid [''KSET'', k, v] s" "fits cid [''KGET'', k] s"
    and "\<not> is_reserved k" "dict_get (owners (kv s)) k \<in> {None, Some cid}" "\<not> startswith v ''ERR_''"
  shows "case wire env cid (tc_kset k (ArgStr v) False False False) s of (r, s1) \<Rightarrow>
           r = Inr (VBool True) \<and> fst (wire env cid (tc_kget k) s1) = Inr (VStr v)"
proof -
  obtain s1 where s1: "wire env cid (tc_kset k (ArgStr v) False False False) s = (Inr (VBool True), s1)"
    "kv_get (kv s1) k = Some v" "world s1 = world s" "plain_session cid s1" "undisturbed cid s1"
    "clients s1 = clients (count_command cid s)"
    using wire_kset[OF assms(1-4,6,7)] by blast
  have "utf8_valid v" using assms(4) by (simp add: fits_def words_good_def)
  with wire_kget[OF s1(4,5), of env k v] s1 assms(3,5,8) fits_later[OF s1(6)] show ?thesis by simp
qed

theorem kset_then_kget_witness:
  "case wire sample_env 1 (tc_kset ''a'' (ArgStr ''b'') False False False) sample of (r, s1) \<Rightarrow>
     r = Inr (VBool True) \<and> fst (wire sample_env 1 (tc_kget ''a'') s1) = Inr (VStr ''b'')"
proof (rule kset_then_kget)
  show "fits 1 [''KSET'', ''a'', ''b''] sample" "fits 1 [''KGET'', ''a''] sample"
    by (rule sample_fits; code_simp)+
  show "\<not> is_reserved ''a''" "\<not> startswith ''b'' ''ERR_''" by code_simp+
qed (simp_all add: sample_store dict_get_def)

text \<open>C32: setting a reserved key raises \<open>ReadOnlyError\<close> in the client, with the server's message, and leaves
  the store as it was.  The key has no carriage return: the server does not escape the end of an error line.\<close>

theorem reserved_key_raises:
  assumes "plain_session cid s" "undisturbed cid s" "can_write env (world s) cid"
    and "fits cid [''KSET'', k, v] s" "is_reserved k" "CHR 0x0D \<notin> set k"
  shows "case wire env cid (tc_kset k (ArgStr v) False False False) s of (r, s1) \<Rightarrow>
           r = Inl (Remote (ReadOnlyError (''cannot SET '' @ k))) \<and> kv s1 = kv s"
proof -
  let ?x = "FailLine (''ERR READONLY cannot SET '' @ k)"
  have h: "handle_set env [k, v] (client_context cid) (count_command cid s) = (Inr (reply_bytes ?x), count_command cid s)"
    using assms(5) by (simp add: handle_set_def kv_set_def fail_simp error_def)
  have "utf8_valid k" using assms(4) by (simp add: fits_def words_good_def)
  moreover have "utf8_valid ''ERR READONLY cannot SET ''" by code_simp
  ultimately have "utf8_valid (''ERR READONLY cannot SET '' @ k)" by (intro utf8_valid_append)
  then have g: "reply_good ?x" using assms(6) by (simp add: line_good_def del: utf8_valid.simps)
  have r: "reply_result ?x = Inl (ReadOnlyError (''cannot SET '' @ k))"
    by (simp add: reply_result_def raise_for_error_def ERROR_MAP_def Let_def)
  have "can_write env (world (count_command cid s)) cid" using assms(3) by simp
  from wire_command[OF assms(1,2,4) this kv_commands(1,5) _ h g, where parse = parse_ok] r assms(2) show ?thesis
    by (auto simp: tc_kset_def)
qed

theorem reserved_key_raises_witness:
  "case wire sample_env 1 (tc_kset ''_meas:x'' (ArgStr ''b'') False False False) sample of (r, s1) \<Rightarrow>
     r = Inl (Remote (ReadOnlyError (''cannot SET '' @ ''_meas:x''))) \<and> kv s1 = kv sample"
proof (rule reserved_key_raises)
  show "fits 1 [''KSET'', ''_meas:x'', ''b''] sample" by (rule sample_fits; code_simp)
  show "is_reserved ''_meas:x''" by code_simp
qed simp_all

subsection \<open>Measurements and locks\<close>

text \<open>C20: \<open>mget\<close> returns the measurement the server holds, as a \<open>dict\<close> with its value, its time and its
  status: what \<open>json.dumps\<close> wrote on the server is what \<open>json.loads\<close> reads in the client.\<close>

theorem mget_reads_measurement:
  assumes "plain_session cid s" "undisturbed cid s" "can_write env (world s) cid" "fits cid [''MGET'', inst, res] s"
    and "space \<notin> set inst" "get_meas (kv s) inst res = Some m"
    and "json_good (json_opt (meas_val m))" "float_good (meas_ts m)" "utf8_valid (meas_status m)"
  shows "fst (wire env cid (tc_mget (inst @ '' '' @ res)) s)
           = Inr (VDict [(VStr ''value'', of_json (json_opt (meas_val m))), (VStr ''ts'', VFloat (meas_ts m)),
                         (VStr ''status'', VStr (meas_status m))])"
proof -
  let ?j = "JObj [(''value'', json_opt (meas_val m)), (''ts'', JFloat (meas_ts m)), (''status'', JStr (meas_status m))]"
  have "utf8_valid ''value'' \<and> utf8_valid ''ts'' \<and> utf8_valid ''status''" by code_simp
  then have j: "json_good ?j" using assms(7-9) by (simp add: dict_ok_def dict_keys_def del: utf8_valid.simps)
  have e: "meas_to_json m = dumps ?j" by (simp add: meas_to_json_def)
  have h: "handle_meas_get [inst, res] (client_context cid) (count_command cid s)
      = (Inr (reply_bytes (Bulk (meas_to_json m))), count_command cid s)"
    using assms(6) by (simp add: handle_meas_get_def)
  have g: "reply_good (Bulk (meas_to_json m))" using dumps_valid[OF j] by (simp add: e del: dumps.simps)
  have r: "reply_result (Bulk (meas_to_json m)) = Inr (RStr (meas_to_json m))" by (simp add: reply_result_def e)
  have l: "parse_meas_get (RStr (meas_to_json m)) = Inr (of_json ?j)"
    using loads_dumps[OF j] by (simp add: parse_meas_get_def json_loads_def e del: dumps.simps)
  have t: "tc_mget (inst @ '' '' @ res) = ask parse_meas_get [''MGET'', inst, res]"
    using split_first_notin[OF assms(5), of res] by (simp add: tc_mget_def split_target_def)
  have "can_write env (world (count_command cid s)) cid" using assms(3) by simp
  from wire_command[OF assms(1,2,4) this kv_commands(3,7) _ h g, where parse = parse_meas_get] r l assms(2) show ?thesis
    unfolding t by auto
qed

theorem mget_reads_measurement_witness:
  "fst (wire sample_env 1 (tc_mget ''sim FREQ'')
          (sample\<lparr>kv := write_meas (kv sample) ''sim'' ''FREQ'' (Some ''0.0'') ''OK'' (f_of_int 0)\<rparr>))
     = Inr (VDict [(VStr ''value'', VStr ''0.0''), (VStr ''ts'', VFloat (f_of_int 0)), (VStr ''status'', VStr ''OK'')])"
proof -
  let ?s = "sample\<lparr>kv := write_meas (kv sample) ''sim'' ''FREQ'' (Some ''0.0'') ''OK'' (f_of_int 0)\<rparr>"
  have "get_meas (kv ?s) ''sim'' ''FREQ'' = Some \<lparr> meas_val = Some ''0.0'', meas_ts = f_of_int 0, meas_status = ''OK'' \<rparr>"
    by (simp add: get_meas_def write_meas_def dict_simps)
  moreover have "fits 1 [''MGET'', ''sim'', ''FREQ''] sample" by (rule sample_fits; code_simp)
  moreover have "json_good (JStr ''0.0'')" "float_good (f_of_int 0)" "utf8_valid ''OK''" by code_simp+
  ultimately show ?thesis
    using mget_reads_measurement[of 1 ?s sample_env "''sim''" "''FREQ''"] sample_plain
    by (simp add: json_opt_def fits_def plain_session_def undisturbed_def del: utf8_valid.simps)
qed

text \<open>The word the client takes out of a lock entry: it does not overlap with itself, so only a name that
  holds it is changed.\<close>

lemma not_startswith_across:
  assumes "\<not> startswith s (c # w)" "c \<notin> set w" "s \<noteq> []"
  shows "\<not> startswith (s @ c # w) (c # w)"
proof
  assume "startswith (s @ c # w) (c # w)"
  then obtain t where t: "s @ c # w = c # w @ t" by (auto simp: startswith_iff)
  obtain u where u: "s = c # u" using assms(3) t by (cases s) auto
  with t have e: "u @ c # w = w @ t" by simp
  show False
  proof (cases "length w \<le> length u")
    case True
    with e have "\<exists>v. u = w @ v" by (auto simp: append_eq_append_conv2)
    with u assms(1) show False by (auto simp: startswith_iff)
  next
    case False
    with e obtain v where "w = u @ v" "v @ t = c # w" by (auto simp: append_eq_append_conv2)
    with False have "c \<in> set w" by (cases v) auto
    with assms(2) show False ..
  qed
qed

lemma remove_all_end:
  assumes "\<not> contains name (colon # w)" "colon \<notin> set w" "length name < n"
  shows "remove_all n (colon # w) (name @ colon # w) = name"
  using assms
proof (induction name arbitrary: n)
  case Nil
  then obtain m where "n = Suc m" by (cases n) auto
  then show ?case by (cases m) auto
next
  case (Cons c name)
  then obtain m where n: "n = Suc m" "length name < m" by (cases n) auto
  have c: "\<not> startswith (c # name) (colon # w)" "\<not> contains name (colon # w)"
    using Cons.prems(1) by (auto simp: contains_def split: if_splits)
  from not_startswith_across[OF c(1) Cons.prems(2)] Cons.IH[OF c(2) Cons.prems(2) n(2)] show ?case
    by (simp add: n del: startswith.simps)
qed

definition lock_table :: "'w server \<Rightarrow> (string \<times> int) list" where
  "lock_table s =
     concat (map (\<lambda>name. case dict_get (instruments s) name of
                            Some i \<Rightarrow> (case lock_owner i of Some own \<Rightarrow> [(name, own)] | None \<Rightarrow> [])
                          | None \<Rightarrow> []) (list_instruments s))"

definition lock_entry :: "string \<times> int \<Rightarrow> string" where
  "lock_entry e = (case e of (name, own) \<Rightarrow> name @ '':session:'' @ show_int own)"

lemma handle_locks_table: "handle_locks args ctx s = (Inr (array_strs (map lock_entry (lock_table s))), s)"
  by (auto simp: handle_locks_def reads_simp lock_table_def lock_entry_def map_concat intro!: arg_cong[where f = array_strs]
      arg_cong[where f = concat] split: option.splits)

lemma lock_table_distinct: "dict_ok (instruments s) \<Longrightarrow> distinct (map fst (lock_table s))"
proof -
  have "distinct (map fst (concat (map (\<lambda>name. case f name of Some i \<Rightarrow> (case g i of Some own \<Rightarrow> [(name, own)] | None \<Rightarrow> []) | None \<Rightarrow> []) ns)))
      \<and> set (map fst (concat (map (\<lambda>name. case f name of Some i \<Rightarrow> (case g i of Some own \<Rightarrow> [(name, own)] | None \<Rightarrow> []) | None \<Rightarrow> []) ns)))
          \<subseteq> set ns" if "distinct ns" for f :: "string \<Rightarrow> instrument option" and g :: "instrument \<Rightarrow> int option" and ns
    using that by (induction ns) (auto split: option.splits)
  from this[of "list_instruments s" lock_owner "dict_get (instruments s)"] show "dict_ok (instruments s) \<Longrightarrow> ?thesis"
    by (simp add: lock_table_def list_instruments_def dict_ok_def dict_keys_def)
qed

lemma locked_entry:
  assumes "\<not> contains name '':session''"
  shows "split_last colon (lock_entry (name, own)) = (name @ '':session'', Some (show_int own))"
    and "without (name @ '':session'') '':session'' = name"
proof -
  have "colon \<notin> set (show_int own)" using show_int_chars[of own] by (auto simp: digit_chars_def)
  then show "split_last colon (lock_entry (name, own)) = (name @ '':session'', Some (show_int own))"
    using split_last_notin[of colon "show_int own" "name @ '':session''"] by (simp add: lock_entry_def)
  show "without (name @ '':session'') '':session'' = name"
    unfolding without_def using assms by (intro remove_all_end) auto
qed

lemma locked_entries_table:
  "list_all (\<lambda>(name, own). \<not> contains name '':session'') es \<Longrightarrow> distinct (map fst es)
   \<Longrightarrow> \<forall>e \<in> set es. VStr (fst e) \<notin> set (map fst d)
   \<Longrightarrow> locked_entries (map (\<lambda>e. RStr (lock_entry e)) es) d = Inr (VDict (d @ map (\<lambda>(name, own). (VStr name, VInt own)) es))"
proof (induction es arbitrary: d)
  case (Cons e es)
  obtain name own where e: "e = (name, own)" by fastforce
  have "\<not> contains name '':session''" using Cons.prems(1) e by simp
  from locked_entry(1)[OF this, of own] locked_entry(2)[OF this]
  have "locked_entries (map (\<lambda>e. RStr (lock_entry e)) (e # es)) d
      = locked_entries (map (\<lambda>e. RStr (lock_entry e)) es) (dict_set d (VStr name) (VInt own))"
    by (simp add: e)
  moreover have "dict_set d (VStr name) (VInt own) = d @ [(VStr name, VInt own)]"
    using Cons.prems(3) e unfolding dict_set_def by (induction d) auto
  moreover have "\<forall>x \<in> set es. VStr (fst x) \<notin> set (map fst (d @ [(VStr name, VInt own)]))"
    using Cons.prems(2,3) e by auto
  ultimately show ?case using Cons.IH[of "d @ [(VStr name, VInt own)]"] Cons.prems(1,2) e by simp
qed simp

text \<open>C24: \<open>ilocked\<close> returns the lock table: the instruments that are locked and the sessions that own them.  The
  client cuts the word \<open>:session\<close> out of the names too, so no name may hold it.\<close>

theorem ilocked_is_lock_table:
  assumes "plain_session cid s" "undisturbed cid s" "can_write env (world s) cid" "fits cid [''ILOCKED''] s"
    and "dict_ok (instruments s)" "list_all (\<lambda>(name, own). utf8_valid name \<and> \<not> contains name '':session'') (lock_table s)"
  shows "fst (wire env cid tc_ilocked s) = Inr (VDict (map (\<lambda>(name, own). (VStr name, VInt own)) (lock_table s)))"
proof -
  let ?x = "Items (map (\<lambda>e. AStr (lock_entry e)) (lock_table s))"
  have same: "lock_table (count_command cid s) = lock_table s" by (simp add: lock_table_def list_instruments_def)
  have h: "handle_locks [] (client_context cid) (count_command cid s) = (Inr (reply_bytes ?x), count_command cid s)"
    by (simp add: handle_locks_table same array_strs_def comp_def)
  have c: "utf8_valid (show_int n)" for n
    using show_int_chars[of n] by (intro utf8_valid_ascii) (auto simp: ascii_def digit_chars_def byte_def)
  have v: "utf8_valid '':session:''" by code_simp
  have "utf8_valid name \<Longrightarrow> utf8_valid (lock_entry (name, own))" for name own
    unfolding lock_entry_def prod.case by (intro utf8_valid_append v c)
  then have g: "reply_good ?x" using assms(6) by (auto simp: list_all_iff simp del: utf8_valid.simps)
  have r: "reply_result ?x = Inr (RList (map (\<lambda>e. RStr (lock_entry e)) (lock_table s)))"
    by (simp add: reply_result_def comp_def)
  have "list_all (\<lambda>(name, own). \<not> contains name '':session'') (lock_table s)" using assms(6) by (auto simp: list_all_iff)
  then have p: "parse_locked (RList (map (\<lambda>e. RStr (lock_entry e)) (lock_table s)))
      = Inr (VDict (map (\<lambda>(name, own). (VStr name, VInt own)) (lock_table s)))"
    using locked_entries_table[of "lock_table s" "[]"] lock_table_distinct[OF assms(5)]
    by (auto simp: parse_locked_def elements_def falsy_def)
  have "can_write env (world (count_command cid s)) cid" using assms(3) by simp
  from wire_command[OF assms(1,2,4) this kv_commands(4,8) _ h g, where parse = parse_locked] r p assms(2) show ?thesis
    by (auto simp: tc_ilocked_def)
qed

theorem ilocked_is_lock_table_witness:
  "fst (wire sample_env 2 tc_ilocked sample) = Inr (VDict [(VStr ''sim'', VInt 1)])"
proof -
  have t: "lock_table sample = [(''sim'', 1)]"
    by (simp add: lock_table_def list_instruments_def sample_def dict_keys_def dict_get_def)
  have "fits 2 [''ILOCKED''] sample" by (rule sample_fits; code_simp)
  moreover have "utf8_valid ''sim'' \<and> \<not> contains ''sim'' '':session''" by code_simp
  moreover have "dict_ok (instruments sample)" by (simp add: sample_def dict_ok_def dict_keys_def)
  ultimately show ?thesis
    using ilocked_is_lock_table[of 2 sample sample_env] sample_plain by (simp add: t del: utf8_valid.simps)
qed

end
