(* ===== verification/Safety.thy ===== *)
theory Safety
  imports Supervision Wire
begin

text \<open>
  What holds of the whole server: the sessions its tables mention, the end of a session, the end of the
  server, the bounds of its tables, and a value on its way through client, server and simulated
  instrument.
\<close>

lemma dict_set_keys: "dict_get d k = Some v \<Longrightarrow> dict_keys (dict_set d k w) = dict_keys d"
  by (induction d) (auto simp: dict_get_def dict_set_def dict_keys_def split: if_splits)

subsection \<open>The end of a session\<close>

lemma release_all_get:
  assumes "dict_get (instruments s) n = Some i"
  shows "\<exists>st \<in> {IDLE, FAULT}. dict_get (instruments (fold (release_on_close env cid) ns s)) n
           = Some (if lock_owner i = Some cid \<and> n \<in> set ns then unlocked st i else i)"
  using assms
proof (induction ns arbitrary: s i)
  case (Cons m ns)
  show ?case
  proof (cases "\<exists>j. dict_get (instruments s) m = Some j \<and> lock_owner j = Some cid")
    case True
    then obtain j where j: "dict_get (instruments s) m = Some j" "lock_owner j = Some cid" by blast
    from release_on_close_spec[OF j, of env] obtain st where st: "st = IDLE \<or> st = FAULT"
      "instruments (release_on_close env cid m s) = dict_set (instruments s) m (unlocked st j)" by blast
    then have g: "dict_get (instruments (release_on_close env cid m s)) n = Some (if n = m then unlocked st i else i)"
      using Cons.prems j by (auto simp: dict_simps)
    from Cons.IH[OF g] st(1) j Cons.prems show ?thesis by (cases "n = m") (auto simp: unlocked_def)
  next
    case False
    then have "release_on_close env cid m s = s"
      by (intro release_on_close_other) (cases "dict_get (instruments s) m", auto)
    with Cons.IH[OF Cons.prems] False Cons.prems show ?thesis by (auto split: if_splits)
  qed
qed auto

lemma release_all_none:
  "dict_get (instruments s) n = None \<Longrightarrow> dict_get (instruments (fold (release_on_close env cid) ns s)) n = None"
proof (induction ns arbitrary: s)
  case (Cons m ns)
  have "dict_get (instruments (release_on_close env cid m s)) n = None"
  proof (cases "\<exists>j. dict_get (instruments s) m = Some j \<and> lock_owner j = Some cid")
    case True
    then obtain j where j: "dict_get (instruments s) m = Some j" "lock_owner j = Some cid" by blast
    with release_on_close_spec[OF j, of env] Cons.prems show ?thesis by (auto simp: dict_simps)
  next
    case False
    then have "release_on_close env cid m s = s"
      by (intro release_on_close_other) (cases "dict_get (instruments s) m", auto)
    with Cons.prems show ?thesis by simp
  qed
  with Cons.IH show ?case by simp
qed simp

text \<open>The steps of a release.\<close>

lemma release_on_close_eq:
  assumes "dict_get (instruments s) name = Some i" "lock_owner i = Some cid"
  obtains st w where "st = IDLE \<or> st = FAULT"
    and "release_on_close env cid name s
      = publish_lock env ''released'' name cid [(''reason'', JStr ''disconnect'')]
          (stale_with_events env name (upd_inst name (unlocked st) ((watch_stop_instrument name s)\<lparr>world := w\<rparr>)))"
proof -
  have w: "dict_get (instruments (watch_stop_instrument name s)) name = Some i"
    using assms by (simp add: watch_stop_instrument_def)
  from registry_unlock_owner[OF w assms(2), of env] obtain st w where "st = IDLE \<or> st = FAULT"
    "registry_unlock env name cid (watch_stop_instrument name s)
      = (Inr (), upd_inst name (unlocked st) ((watch_stop_instrument name s)\<lparr>world := w\<rparr>))" by blast
  with assms show ?thesis by (intro that[of st w]) (simp_all add: release_on_close_def quietly_def act_simps)
qed

text \<open>The instruments of a session.\<close>

definition owns :: "int \<Rightarrow> 'w server \<Rightarrow> string \<Rightarrow> bool" where
  "owns cid s name = (case dict_get (instruments s) name of Some i \<Rightarrow> lock_owner i = Some cid | None \<Rightarrow> False)"

lemma release_cases:
  obtains (owned) i where "dict_get (instruments s) name = Some i" "lock_owner i = Some cid"
    | (other) "release_on_close env cid name s = s" "\<not> owns cid s name"
  using release_on_close_other[of s name cid env] by (cases "dict_get (instruments s) name") (auto simp: owns_def)

text \<open>What it leaves alone: the sessions, the keys but those of the measurements, the health checks and the
  journal.\<close>

definition same_tables :: "'w server \<Rightarrow> 'w server \<Rightarrow> bool" where
  "same_tables s s' =
     (data (kv s') = data (kv s) \<and> owners (kv s') = owners (kv s)
      \<and> clients s' = clients s \<and> monitors s' = monitors s \<and> server_running s' = server_running s
      \<and> health_tasks s' = health_tasks s \<and> jrnl s' = jrnl s)"

lemma same_tables_trans: "same_tables s t \<Longrightarrow> same_tables t u \<Longrightarrow> same_tables s u"
  by (simp add: same_tables_def)

lemma publish_on_same_tables: "same_tables s (publish_on env ch payload key s)"
  by (simp add: same_tables_def publish_on_def split: prod.splits)

lemma stale_same_tables: "same_tables s (stale_with_events env name s)"
proof -
  have "same_tables s (publish_stale env l s)" for l and s :: "'a server"
    unfolding publish_stale_def
  proof (rule fold_invariant_on[where P = "same_tables s"])
    fix x and t :: "'a server" assume "same_tables s t"
    from same_tables_trans[OF this publish_on_same_tables]
    show "same_tables s ((\<lambda>(inst, res, m). publish_meas env inst res (meas_val m) (meas_ts m) (meas_status m)) x t)"
      by (simp add: publish_meas_def split: prod.splits)
  qed (simp add: same_tables_def)
  then show ?thesis
    by (auto simp: stale_with_events_def invalidate_meas_def Let_def same_tables_def)
qed

lemma release_same_tables: "same_tables s (release_on_close env cid name s)"
proof (cases rule: release_cases[where s = s and name = name and cid = cid and env = env])
  case (owned i)
  from release_on_close_eq[OF owned, of env] obtain st w where
    r: "release_on_close env cid name s
      = publish_lock env ''released'' name cid [(''reason'', JStr ''disconnect'')]
          (stale_with_events env name (upd_inst name (unlocked st) ((watch_stop_instrument name s)\<lparr>world := w\<rparr>)))" by blast
  have "same_tables s (upd_inst name (unlocked st) ((watch_stop_instrument name s)\<lparr>world := w\<rparr>))"
    by (simp add: same_tables_def watch_stop_instrument_def upd_inst_def split: option.splits)
  then show ?thesis
    unfolding r publish_lock_def by (intro same_tables_trans[OF _ publish_on_same_tables] same_tables_trans[OF _ stale_same_tables])
next
  case other
  then show ?thesis by (simp add: same_tables_def)
qed

lemma release_all_same_tables: "same_tables s (fold (release_on_close env cid) ns s)"
  by (rule fold_invariant_on[where P = "same_tables s"])
    (auto simp: same_tables_def[of s s] intro: same_tables_trans release_same_tables)

text \<open>The subscriptions of the clients that can always be written to stay.\<close>

definition same_listeners :: "'w env \<Rightarrow> 'w server \<Rightarrow> 'w server \<Rightarrow> bool" where
  "same_listeners env s s' =
     (bus_ok (bus s) \<longrightarrow> bus_ok (bus s')
        \<and> (\<forall>h channel. (\<forall>w. can_write env w h) \<longrightarrow> subscribed (bus s') h channel = subscribed (bus s) h channel))"

lemma same_listeners_trans: "same_listeners env s t \<Longrightarrow> same_listeners env t u \<Longrightarrow> same_listeners env s u"
  by (simp add: same_listeners_def)

lemma same_bus_listeners: "bus s' = bus s \<Longrightarrow> same_listeners env s s'"
  by (simp add: same_listeners_def)

lemma publish_on_listeners: "same_listeners env s (publish_on env ch payload key s)"
proof -
  obtain msgs b where p: "publish (can_write env (world s)) (bus s) ch payload key = (msgs, b)" by fastforce
  have "bus_ok b \<and> (\<forall>h channel. (\<forall>w. can_write env w h) \<longrightarrow> subscribed b h channel = subscribed (bus s) h channel)"
    if "bus_ok (bus s)"
    using publish_ok[OF that, of "can_write env (world s)" ch payload key]
      publish_subs[OF that, of "can_write env (world s)" ch payload key] p
    by (auto simp: subscribed_def list_ex_iff)
  then show ?thesis by (simp add: same_listeners_def publish_on_def p)
qed

lemma stale_listeners: "same_listeners env s (stale_with_events env name s)"
proof -
  have l: "same_listeners env s (publish_stale env l s)" for l and s :: "'a server"
    unfolding publish_stale_def
  proof (rule fold_invariant_on[where P = "same_listeners env s"])
    fix x and t :: "'a server" assume "same_listeners env s t"
    from same_listeners_trans[OF this publish_on_listeners]
    show "same_listeners env s ((\<lambda>(inst, res, m). publish_meas env inst res (meas_val m) (meas_ts m) (meas_status m)) x t)"
      by (simp add: publish_meas_def split: prod.splits)
  qed (simp add: same_bus_listeners)
  show ?thesis
    unfolding stale_with_events_def
    by (cases "invalidate_meas (kv s) name (now env s)") (auto intro: same_listeners_trans[OF same_bus_listeners l])
qed

text \<open>The measurements whose keys are selected become stale, with their values; the others stay.\<close>

definition made_stale :: "(string \<Rightarrow> bool) \<Rightarrow> store \<Rightarrow> store \<Rightarrow> bool" where
  "made_stale p st st' =
     (\<forall>k. if p k
          then map_option (\<lambda>m. (meas_val m, meas_status m)) (dict_get (meas st') k)
                 = map_option (\<lambda>m. (meas_val m, ''STALE'')) (dict_get (meas st) k)
          else dict_get (meas st') k = dict_get (meas st) k)"

lemma made_stale_trans:
  assumes "made_stale p st st1" "made_stale q st1 st2"
  shows "made_stale (\<lambda>k. p k \<or> q k) st st2"
  unfolding made_stale_def
proof
  fix k
  have a: "if p k then map_option (\<lambda>m. (meas_val m, meas_status m)) (dict_get (meas st1) k)
                 = map_option (\<lambda>m. (meas_val m, ''STALE'')) (dict_get (meas st) k)
          else dict_get (meas st1) k = dict_get (meas st) k"
    and b: "if q k then map_option (\<lambda>m. (meas_val m, meas_status m)) (dict_get (meas st2) k)
                 = map_option (\<lambda>m. (meas_val m, ''STALE'')) (dict_get (meas st1) k)
          else dict_get (meas st2) k = dict_get (meas st1) k"
    using assms unfolding made_stale_def by blast+
  show "if p k \<or> q k
        then map_option (\<lambda>m. (meas_val m, meas_status m)) (dict_get (meas st2) k)
               = map_option (\<lambda>m. (meas_val m, ''STALE'')) (dict_get (meas st) k)
        else dict_get (meas st2) k = dict_get (meas st) k"
    using a b
    by (cases "dict_get (meas st) k"; cases "dict_get (meas st1) k"; cases "dict_get (meas st2) k") (auto split: if_splits)
qed

lemma invalidate_made_stale:
  "made_stale (\<lambda>k. startswith k (''_meas:'' @ inst @ '':'')) st (snd (invalidate_meas st inst t))"
  by (auto simp: made_stale_def invalidate_meas_def Let_def dict_simps option.map_comp comp_def option.map_ident intro!: option.map_cong0)

lemma stale_with_events_kv: "\<exists>t. kv (stale_with_events env name s) = snd (invalidate_meas (kv s) name t)"
proof -
  have "kv (publish_stale env l s) = kv s" for l s
    unfolding publish_stale_def by (rule fold_invariant_on[where P = "\<lambda>t. kv t = kv s"]) auto
  then show ?thesis by (auto simp: stale_with_events_def split: prod.splits intro!: exI[of _ "now env s"])
qed

lemma stale_with_events_watches [simp]: "watches (stale_with_events env name s) = watches s"
proof -
  have "watches (publish_stale env l s) = watches s" for l s
    unfolding publish_stale_def by (rule fold_invariant_on[where P = "\<lambda>t. watches t = watches s"]) auto
  then show ?thesis by (simp add: stale_with_events_def split: prod.splits)
qed

lemma publish_on_watches [simp]: "watches (publish_on env ch payload key s) = watches s"
  by (simp add: publish_on_def split: prod.splits)

text \<open>What releasing instruments does to guards and measurements.\<close>

definition released :: "'w env \<Rightarrow> (string \<Rightarrow> bool) \<Rightarrow> 'w server \<Rightarrow> 'w server \<Rightarrow> bool" where
  "released env p s s' =
     ((\<forall>n. dict_get (watches s') n = (if p n then None else dict_get (watches s) n))
      \<and> made_stale (\<lambda>k. \<exists>n. p n \<and> startswith k (''_meas:'' @ n @ '':'')) (kv s) (kv s')
      \<and> same_listeners env s s')"

lemma released_trans:
  assumes "released env p s t" "released env q t u"
  shows "released env (\<lambda>n. p n \<or> q n) s u"
proof -
  have "made_stale (\<lambda>k. (\<exists>n. p n \<and> startswith k (''_meas:'' @ n @ '':'')) \<or> (\<exists>n. q n \<and> startswith k (''_meas:'' @ n @ '':'')))
      (kv s) (kv u)"
    using assms by (intro made_stale_trans) (auto simp: released_def)
  moreover have "(\<lambda>k. (\<exists>n. p n \<and> startswith k (''_meas:'' @ n @ '':'')) \<or> (\<exists>n. q n \<and> startswith k (''_meas:'' @ n @ '':'')))
      = (\<lambda>k. \<exists>n. (p n \<or> q n) \<and> startswith k (''_meas:'' @ n @ '':''))" by auto
  ultimately show ?thesis using assms by (auto simp: released_def intro: same_listeners_trans)
qed

lemma released_none: "released env (\<lambda>_. False) s s"
  by (simp add: released_def made_stale_def same_bus_listeners)

lemma release_released:
  "released env (\<lambda>n. n = name \<and> owns cid s name) s (release_on_close env cid name s)"
proof (cases rule: release_cases[where s = s and name = name and cid = cid and env = env])
  case (owned i)
  from release_on_close_eq[OF owned, of env] obtain st w where
    r: "release_on_close env cid name s
      = publish_lock env ''released'' name cid [(''reason'', JStr ''disconnect'')]
          (stale_with_events env name (upd_inst name (unlocked st) ((watch_stop_instrument name s)\<lparr>world := w\<rparr>)))" by blast
  let ?s1 = "upd_inst name (unlocked st) ((watch_stop_instrument name s)\<lparr>world := w\<rparr>)"
  have o': "owns cid s name" using owned by (simp add: owns_def)
  have s1: "watches ?s1 = dict_del (watches s) name" "kv ?s1 = kv s" "bus ?s1 = bus s"
    unfolding watch_stop_instrument_def by (simp_all add: upd_inst_def split: option.splits)
  obtain t where t: "kv (stale_with_events env name ?s1) = snd (invalidate_meas (kv s) name t)"
    using stale_with_events_kv[of env name ?s1] s1(2) by auto
  have "kv (release_on_close env cid name s) = snd (invalidate_meas (kv s) name t)"
    unfolding r using t by simp
  moreover have "watches (release_on_close env cid name s) = dict_del (watches s) name"
    unfolding r by (simp add: publish_lock_def watch_stop_instrument_def)
  moreover have "same_listeners env s (release_on_close env cid name s)"
    unfolding r publish_lock_def
    by (intro same_listeners_trans[OF _ publish_on_listeners] same_listeners_trans[OF _ stale_listeners] same_bus_listeners s1)
  ultimately show ?thesis using invalidate_made_stale[of name "kv s" t] o' by (simp add: released_def dict_simps)
qed (simp add: released_none)

text \<open>Releasing them one after the other.\<close>

lemma owns_after_release:
  "owns cid (release_on_close env cid name s) n \<longleftrightarrow> n \<noteq> name \<and> owns cid s n"
proof (cases rule: release_cases[where s = s and name = name and cid = cid and env = env])
  case (owned i)
  from release_on_close_spec[OF owned, of env] obtain st where
    "instruments (release_on_close env cid name s) = dict_set (instruments s) name (unlocked st i)" by blast
  then show ?thesis by (simp add: owns_def dict_simps unlocked_def)
qed auto

lemma release_all_released:
  "released env (\<lambda>n. n \<in> set ns \<and> owns cid s n) s (fold (release_on_close env cid) ns s)"
proof (induction ns arbitrary: s)
  case (Cons m ns)
  have e: "(\<lambda>n. (n = m \<and> owns cid s m) \<or> (n \<in> set ns \<and> owns cid (release_on_close env cid m s) n))
      = (\<lambda>n. n \<in> set (m # ns) \<and> owns cid s n)" by (auto simp: owns_after_release)
  from released_trans[OF release_released[of env m cid s] Cons.IH[of "release_on_close env cid m s"]] show ?case
    unfolding e by simp
qed (simp add: released_none)

lemma receive_end: "active s cid \<Longrightarrow> client_receive env cid [] s = client_close env cid s"
  by (auto simp: client_receive_def active_def split: option.splits)

lemma release_all_owned:
  "released env (\<lambda>n. owns cid s n) s (fold (release_on_close env cid) (list_instruments s) s)"
proof -
  have "n \<in> set (list_instruments s) \<and> owns cid s n \<longleftrightarrow> owns cid s n" for n
    by (auto simp: list_instruments_def dict_keys_get) (auto simp: owns_def split: option.splits)
  with release_all_released[of env "list_instruments s" cid s] show ?thesis by simp
qed

lemma release_all_instrument:
  "case dict_get (instruments s) n of
     None \<Rightarrow> dict_get (instruments (fold (release_on_close env cid) (list_instruments s) s)) n = None
   | Some i \<Rightarrow>
       if lock_owner i = Some cid
       then dict_get (instruments (fold (release_on_close env cid) (list_instruments s) s)) n = Some (unlocked IDLE i)
          \<or> dict_get (instruments (fold (release_on_close env cid) (list_instruments s) s)) n = Some (unlocked FAULT i)
       else dict_get (instruments (fold (release_on_close env cid) (list_instruments s) s)) n = Some i"
proof (cases "dict_get (instruments s) n")
  case None
  then show ?thesis using release_all_none[of s n env cid] by simp
next
  case (Some i)
  then have "n \<in> set (list_instruments s)" by (auto simp: list_instruments_def dict_keys_get)
  then show ?thesis using release_all_get[OF Some, of env cid "list_instruments s"] Some by auto
qed



subsection \<open>Every reachable state\<close>

text \<open>C1: in every state the server can reach, the owner of a lock, the owner of a read-only key and the client of
  a subscription are sessions that are still running; a read-only key exists; guards watch registered
  instruments that somebody owns, health checks registered ones; and an idle instrument has no owner and no
  resources.\<close>

theorem owners_are_active:
  assumes "reachable env s"
  shows "(\<forall>n i own. dict_get (instruments s) n = Some i \<and> lock_owner i = Some own \<longrightarrow> active s own)
    \<and> (\<forall>k own. dict_get (owners (kv s)) k = Some own \<longrightarrow> active s own \<and> kv_get (kv s) k \<noteq> None)
    \<and> (\<forall>h channel. subscribed (bus s) h channel \<longrightarrow> active s h)
    \<and> (\<forall>n. dict_mem (watches s) n \<longrightarrow> (\<exists>i own. dict_get (instruments s) n = Some i \<and> lock_owner i = Some own))
    \<and> (\<forall>n. dict_mem (health_tasks s) n \<longrightarrow> dict_mem (instruments s) n)
    \<and> (\<forall>n i. dict_get (instruments s) n = Some i \<longrightarrow>
          iname i = n \<and> (istate i = IDLE \<longrightarrow> lock_owner i = None \<and> resources i = []))"
proof -
  note ok = reachable_ok[OF assms]
  have "dict_get (owners (kv s)) k = Some own \<longrightarrow> active s own \<and> kv_get (kv s) k \<noteq> None" for k own
    using ok store_okD(4)[of "kv s" k own] by (auto simp: server_ok_def ok_defs kv_get_def dict_mem_def)
  moreover have "subscribed (bus s) h channel \<longrightarrow> active s h" for h channel
    using ok by (auto simp: server_ok_def owners_in_def subs_in_def subscribed_def list_all_iff list_ex_iff)
  moreover have "dict_mem (watches s) n \<longrightarrow> (\<exists>i own. dict_get (instruments s) n = Some i \<and> lock_owner i = Some own)" for n
    using ok by (auto simp: server_ok_def ok_defs guarded_def split: option.splits)
  moreover have "dict_mem (health_tasks s) n \<longrightarrow> dict_mem (instruments s) n" for n
    using ok by (auto simp: server_ok_def ok_defs)
  moreover have "dict_get (instruments s) n = Some i \<longrightarrow> iname i = n \<and> (istate i = IDLE \<longrightarrow> lock_owner i = None \<and> resources i = [])"
    for n i using ok by (auto simp: server_ok_def ok_defs instruments_ok_def instrument_ok_def)
  moreover have "dict_get (instruments s) n = Some i \<and> lock_owner i = Some own \<longrightarrow> active s own" for n i own
    using ok by (auto simp: server_ok_def owners_in_def locks_in_def)
  ultimately show ?thesis by blast
qed

text \<open>A server that a client has just reached.\<close>

definition first_state :: "string list lab server" where
  "first_state = run_event sample_env (EvConnect ''127.0.0.1:50000'') (main sample_env default_args (empty_lab []))"

lemma first_reachable: "reachable sample_env first_state"
  unfolding first_state_def by (rule reachable.step[OF reachable.start]) simp

lemma first_sessions: "dict_keys (clients first_state) = [1]"
  by (simp add: first_state_def client_connected_def main_def run_server_def default_args_def server_start_def new_server_def given_def
      dict_keys_def dict_set_def)

theorem owners_are_active_witness:
  "\<not> subscribed (bus first_state) 2 ''kv'' \<and> dict_get (owners (kv first_state)) ''k'' \<noteq> Some 2"
proof -
  have "\<not> dict_mem (clients first_state) 2"
    unfolding dict_mem_keys[symmetric] first_sessions by simp
  then have "\<not> active first_state 2" by (simp add: active_def dict_mem_def)
  with owners_are_active[OF first_reachable] show ?thesis by blast
qed

text \<open>C26: in every state the server can reach, what it keeps is bounded: no more sessions than the configured
  number, each with an id of its own that was handed out; monitors are among them; the journal and the
  response times stay within their limits.\<close>

theorem state_is_bounded:
  assumes "reachable env s"
  shows "length (clients s) \<le> nat (max_clients s)
    \<and> distinct (dict_keys (clients s)) \<and> (\<forall>k \<in> set (dict_keys (clients s)). 1 \<le> k \<and> k < next_client_id s)
    \<and> set (monitors s) \<subseteq> set (dict_keys (clients s))
    \<and> length (entries (jrnl s)) \<le> journal_maxlen (jrnl s)
    \<and> (\<forall>n i. dict_get (instruments s) n = Some i \<longrightarrow> length (response_times i) \<le> RESPONSE_TIMES_MAX)"
proof -
  note ok = reachable_ok[OF assms]
  have "clients_ok s" using ok by (simp add: server_ok_def tables_ok_def)
  then have "distinct (dict_keys (clients s))" by (simp add: clients_ok_def dict_ok_def dict_keys_def)
  moreover have "length (clients s) \<le> nat (max_clients s)"
    "\<forall>k \<in> set (dict_keys (clients s)). 1 \<le> k \<and> k < next_client_id s" "set (monitors s) \<subseteq> set (dict_keys (clients s))"
    using \<open>clients_ok s\<close> by (auto simp: clients_ok_def list_all_iff dict_mem_keys)
  moreover have "length (entries (jrnl s)) \<le> journal_maxlen (jrnl s)"
    using ok by (simp add: server_ok_def tables_ok_def journal_ok_def)
  moreover have "dict_get (instruments s) n = Some i \<longrightarrow> length (response_times i) \<le> RESPONSE_TIMES_MAX" for n i
    using ok by (auto simp: server_ok_def tables_ok_def instruments_ok_def instrument_ok_def)
  ultimately show ?thesis by blast
qed

theorem state_is_bounded_witness: "length (clients first_state) \<le> nat (max_clients first_state)"
  using state_is_bounded[OF first_reachable] by blast

subsection \<open>The end of the server\<close>

text \<open>What stopping does to the hardware: every registered instrument is made safe and disconnected.\<close>

definition power_down :: "'w env \<Rightarrow> nat \<Rightarrow> 'w \<Rightarrow> 'w" where
  "power_down env h w = snd (d_disconnect env h (snd (d_safe_state env h w)))"

definition driver_of :: "'w server \<Rightarrow> string \<Rightarrow> nat option" where
  "driver_of s name = map_option driver (dict_get (instruments s) name)"

lemma quiet_call_out: "snd (quietly (call_out func) s) = s\<lparr>world := snd (func (world s))\<rparr>"
  by (simp add: quietly_def call_out_def act_simps split: prod.splits sum.splits)

lemma shutdown_world:
  "shutdown_instrument env name s =
     (case driver_of s name of None \<Rightarrow> s | Some h \<Rightarrow> s\<lparr>world := power_down env h (world s)\<rparr>)"
  by (simp add: shutdown_instrument_def driver_of_def quiet_call_out power_down_def split: option.splits)

lemma driver_of_world [simp]: "driver_of (s\<lparr>world := w\<rparr>) = driver_of s"
  by (simp add: driver_of_def fun_eq_iff)

lemma list_instruments_world [simp]: "list_instruments (s\<lparr>world := w\<rparr>) = list_instruments s"
  by (simp add: list_instruments_def)

lemma shutdown_all:
  "fold (shutdown_instrument env) ns s
     = s\<lparr>world := fold (power_down env) (List.map_filter (driver_of s) ns) (world s)\<rparr>"
  by (induction ns arbitrary: s) (simp_all add: shutdown_world map_filter_simps split: option.splits)

text \<open>Closing sessions removes no instrument and no key.\<close>

lemma client_close_running: "\<not> active s cid \<Longrightarrow> client_close env cid s = s"
  by (auto simp: client_close_def active_def split: option.splits)

definition kept :: "'w server \<Rightarrow> 'w server \<Rightarrow> bool" where
  "kept s s' = (driver_of s' = driver_of s \<and> data (kv s') = data (kv s))"

lemma kept_trans: "kept s t \<Longrightarrow> kept t u \<Longrightarrow> kept s u"
  by (simp add: kept_def)

lemma client_close_tables:
  "kept s (client_close env cid s)" "dict_keys (clients (client_close env cid s)) = dict_keys (clients s)"
  "monitors (client_close env cid s) = monitors s" "server_running (client_close env cid s) = server_running s"
proof -
  have "kept s (client_close env cid s) \<and> dict_keys (clients (client_close env cid s)) = dict_keys (clients s)
    \<and> monitors (client_close env cid s) = monitors s \<and> server_running (client_close env cid s) = server_running s"
  proof (cases "active s cid")
  case False
  then show ?thesis
    by (simp add: client_close_running kept_def)
next
  case True
  then obtain c where c: "dict_get (clients s) cid = Some c" "running c"
    by (auto simp: active_def split: option.splits)
  define s1 where "s1 = stop_running cid s"
  define s2 where "s2 = fold (release_on_close env cid) (list_instruments s1) s1"
  have s1: "driver_of s1 = driver_of s" "kv s1 = kv s" "dict_keys (clients s1) = dict_keys (clients s)"
    "monitors s1 = monitors s" "server_running s1 = server_running s"
    using c by (simp_all add: s1_def stop_running_def upd_client_def driver_of_def fun_eq_iff dict_set_keys)
  have "driver_of s2 n = driver_of s1 n" for n
  proof (cases "dict_get (instruments s1) n")
    case None
    then show ?thesis using release_all_none[OF None] by (simp add: driver_of_def s2_def)
  next
    case (Some i)
    from release_all_get[OF Some, of env cid "list_instruments s1"] show ?thesis
      by (auto simp: driver_of_def s2_def Some unlocked_def split: if_splits)
  qed
  then have d2: "driver_of s2 = driver_of s" using s1(1) by auto
  define s4 where "s4 = publish_session env ''disconnect'' cid [(''address'', JStr (address c))]
                          (s2\<lparr>kv := release_owner (kv s2) cid\<rparr>)"
  have e: "client_close env cid s = s4\<lparr>bus := snd (unsubscribe_all (bus s4) cid)\<rparr>"
    using c by (simp add: client_close_def s4_def s2_def s1_def stop_running_def Let_def)
  have "same_tables (s2\<lparr>kv := release_owner (kv s2) cid\<rparr>) s4" "same_tables s1 s2"
    unfolding s4_def s2_def publish_session_def by (rule publish_on_same_tables release_all_same_tables)+
  moreover have "driver_of s4 = driver_of s2" by (simp add: driver_of_def fun_eq_iff s4_def)
  ultimately show ?thesis
    using s1 d2 by (simp add: e kept_def same_tables_def driver_of_def fun_eq_iff release_owner_def)
qed
  then show "kept s (client_close env cid s)" "dict_keys (clients (client_close env cid s)) = dict_keys (clients s)"
    "monitors (client_close env cid s) = monitors s" "server_running (client_close env cid s) = server_running s" by blast+
qed

text \<open>One session of the loop over all of them in \<open>stop\<close>.\<close>

definition stop_session :: "'w env \<Rightarrow> int \<Rightarrow> 'w server \<Rightarrow> 'w server" where
  "stop_session env cid s = client_cleanup cid (client_close env cid s)"

lemma stop_session_tables:
  "kept s (stop_session env cid s)"
  "set (dict_keys (clients (stop_session env cid s))) = set (dict_keys (clients s)) - {cid}"
  "monitors (stop_session env cid s) = filter (\<lambda>m. m \<noteq> cid) (monitors s)"
  "server_running (stop_session env cid s) = server_running s"
  using client_close_tables[where s = s and env = env and cid = cid]
  by (auto simp: stop_session_def client_cleanup_def kept_def driver_of_def fun_eq_iff dict_mem_keys dict_mem_del)
    (metis dict_mem_keys)+

lemma stop_sessions:
  "server_ok s \<Longrightarrow> case fold (stop_session env) ks s of s' \<Rightarrow>
     server_ok s' \<and> kept s s' \<and> set (dict_keys (clients s')) = set (dict_keys (clients s)) - set ks
     \<and> set (monitors s') = set (monitors s) - set ks \<and> server_running s' = server_running s"
proof (induction ks arbitrary: s)
  case (Cons k ks)
  have "server_ok (stop_session env k s)" unfolding stop_session_def by (rule close_and_cleanup_ok[OF Cons.prems])
  from Cons.IH[OF this] stop_session_tables[where s = s and env = env and cid = k] show ?case by (auto intro: kept_trans)
qed (simp add: kept_def)

lemma kept_drivers:
  assumes "kept s s'" "dict_ok (instruments s)" "dict_ok (instruments s')"
  shows "driver_of s' = driver_of s" "list_instruments s' = list_instruments s"
proof -
  show d: "driver_of s' = driver_of s" using assms(1) by (simp add: kept_def)
  have "set (dict_keys (instruments t)) = {n. driver_of t n \<noteq> None}" for t :: "'a server"
    by (auto simp: dict_keys_get driver_of_def)
  then have "set (dict_keys (instruments s')) = set (dict_keys (instruments s))" using d by simp
  then show "list_instruments s' = list_instruments s"
    using assms(2,3) unfolding list_instruments_def
    by (intro sorted_distinct_set_unique) (auto simp: dict_ok_def dict_keys_def)
qed

text \<open>C15: stopping the server ends every session, guard and health check, leaves no lock, read-only mark, monitor
  or subscription, keeps all keys and instruments, and makes every registered instrument safe and
  disconnects it, one after the other, whatever their drivers raise.\<close>

theorem server_stop_clean:
  assumes "server_ok s" "server_running s"
  shows "let s' = server_stop env s in
    \<not> server_running s' \<and> clients s' = [] \<and> monitors s' = [] \<and> watches s' = [] \<and> health_tasks s' = []
    \<and> (\<forall>n i. dict_get (instruments s') n = Some i \<longrightarrow> lock_owner i = None)
    \<and> owners (kv s') = [] \<and> (\<forall>h channel. \<not> subscribed (bus s') h channel)
    \<and> data (kv s') = data (kv s) \<and> list_instruments s' = list_instruments s
    \<and> (\<exists>w. world s' = fold (power_down env) (List.map_filter (driver_of s) (list_instruments s)) w)"
proof -
  define s1 where "s1 = s\<lparr>server_running := False\<rparr>"
  define s2 where "s2 = fold (stop_session env) (dict_keys (clients s1)) s1"
  define s3 where "s3 = health_stop_all (watch_stop_all s2)"
  have e: "server_stop env s = fold (shutdown_instrument env) (list_instruments s3) s3"
    using assms(2) by (simp add: server_stop_def s3_def s2_def s1_def stop_session_def[abs_def] Let_def)
  have s1: "server_ok s1" unfolding s1_def by (rule server_ok_step[OF assms(1)]) simp
  have "list_all (dict_mem (clients s1)) (monitors s1)" using s1 by (simp add: server_ok_def tables_ok_def clients_ok_def)
  then have m: "set (monitors s1) \<subseteq> set (dict_keys (clients s1))" by (auto simp: list_all_iff dict_mem_keys)
  have f: "server_ok s2" "kept s1 s2" "set (dict_keys (clients s2)) = {}" "set (monitors s2) = {}" "\<not> server_running s2"
    using stop_sessions[OF s1, of env "dict_keys (clients s1)", folded s2_def] m by (auto simp: s1_def)
  then have c: "clients s2 = []" "monitors s2 = []" by (simp_all add: dict_keys_def)
  have "session_ok b k s3" if "session_ok b k s2" for b k
    unfolding s3_def health_stop_all_def watch_stop_all_def
    using that by (intro health_step watches_step) (auto simp: dict_mem_def)
  then have s3: "server_ok s3" by (rule server_ok_step[OF f(1)])
  have nobody: "\<not> active s3 k" for k by (simp add: active_def s3_def health_stop_all_def watch_stop_all_def c)
  have k: "driver_of s3 = driver_of s" "list_instruments s3 = list_instruments s" "data (kv s3) = data (kv s)"
  proof -
    have "kept s s3" using f(2) by (simp add: kept_def s1_def s3_def health_stop_all_def watch_stop_all_def driver_of_def fun_eq_iff)
    with kept_drivers[OF this] assms(1) s3 show "driver_of s3 = driver_of s" "list_instruments s3 = list_instruments s"
      "data (kv s3) = data (kv s)"
      by (auto simp: server_ok_def tables_ok_def instruments_ok_def kept_def)
  qed
  have "owners (kv s3) = []"
  proof (rule ccontr)
    assume "owners (kv s3) \<noteq> []"
    then have "dict_get (owners (kv s3)) (fst (hd (owners (kv s3)))) = Some (snd (hd (owners (kv s3))))"
      by (cases "owners (kv s3)") (auto simp: dict_get_def)
    with s3 nobody show False by (auto simp: server_ok_def owners_in_def keys_in_def)
  qed
  moreover have "dict_get (instruments s3) n = Some i \<longrightarrow> lock_owner i = None" for n i
    using s3 nobody by (cases "lock_owner i") (auto simp: server_ok_def owners_in_def locks_in_def)
  moreover have "\<not> subscribed (bus s3) h channel" for h channel
    using s3 nobody by (auto simp: server_ok_def owners_in_def subs_in_def subscribed_def list_all_iff list_ex_iff)
  moreover have "\<not> server_running s3" "clients s3 = []" "monitors s3 = []" "watches s3 = []" "health_tasks s3 = []"
    using c f(5) by (simp_all add: s3_def health_stop_all_def watch_stop_all_def)
  ultimately show ?thesis
    unfolding Let_def e shutdown_all using k by auto
qed

text \<open>In the sample, stopping turns the simulated instrument off: its handle is the one that is powered down.\<close>

theorem server_stop_clean_witness:
  "clients (server_stop sample_env sample) = []
   \<and> (\<exists>w. world (server_stop sample_env sample) = power_down sample_env 1 w)"
proof -
  have "server_running sample" by (simp add: sample_def)
  note t = server_stop_clean[OF sample_ok this, of sample_env, unfolded Let_def]
  have "List.map_filter (driver_of sample) (list_instruments sample) = [1]"
    by (simp add: list_instruments_def driver_of_def map_filter_simps sample_def dict_keys_def dict_get_def)
  with t show ?thesis by auto
qed

subsection \<open>A value on its way to the instrument and back\<close>

text \<open>A driver call on an instrument that is ready: the record stays in its state and with its owner.\<close>

lemma ready_call_done:
  assumes "dict_get (instruments s) name = Some i" "istate i = READY" "func (driver i) (world s) = (Ret x, w)"
  obtains j where "ready_call env name t func s = (Inr x, s\<lparr>world := w, instruments := dict_set (instruments s) name j\<rparr>)"
    and "istate j = READY" "lock_owner j = lock_owner i" "driver j = driver i"
proof -
  let ?j = "add_response_time (f_sub (perf_counter env w) (perf_counter env (world s)))
      (i\<lparr>last_call_ok := monotonic env w, total_calls := Suc (total_calls i)\<rparr>)"
  have "dict_set (dict_set d name a) name b = dict_set d name b" for d :: "(string, instrument) dict" and a b
    by (induction d) (auto simp: dict_set_def)
  then have "ready_call env name t func s = (Inr x, s\<lparr>world := w, instruments := dict_set (instruments s) name ?j\<rparr>)"
    using assms
    by (simp add: ready_call_def act_simps get_inst_def check_ready_def tracked_call_def call_driver_def Let_def upd_inst_def
        dict_simps)
  then show ?thesis by (rule that) (use assms(2) in \<open>simp_all add: add_response_time_def\<close>)
qed

lemma rw_commands:
  "resolve_command ''IWRITE'' args = (''IWRITE'', args)" "resolve_command ''IREAD'' args = (''IREAD'', args)"
  "map_of (handlers env) ''IWRITE'' = Some (handle_write env)" "map_of (handlers env) ''IREAD'' = Some (handle_read env)"
proof -
  have u: "upper ''IWRITE'' = ''IWRITE''" "upper ''IREAD'' = ''IREAD''" by code_simp+
  show "resolve_command ''IWRITE'' args = (''IWRITE'', args)" "resolve_command ''IREAD'' args = (''IREAD'', args)"
    by (simp_all add: resolve_command_def u SUBCOMMAND_ROOTS_def)
qed (simp_all add: handlers_def)

lemma undisturbed_same:
  "bus s' = bus s \<Longrightarrow> monitors s' = monitors s \<Longrightarrow> undisturbed cid s' = undisturbed cid s"
  by (simp add: undisturbed_def)

lemma count_command_timeout [simp]: "driver_timeout (count_command cid s) = driver_timeout s"
  by (simp add: count_command_def upd_client_def split: option.splits)

text \<open>The instrument of a session, ready to be used.\<close>

definition at_hand :: "int \<Rightarrow> string \<Rightarrow> nat \<Rightarrow> 'w server \<Rightarrow> bool" where
  "at_hand cid name h s =
     (case dict_get (instruments s) name of
        Some i \<Rightarrow> istate i = READY \<and> lock_owner i = Some cid \<and> driver i = h | None \<Rightarrow> False)"

lemma at_handD:
  assumes "at_hand cid name h s"
  obtains i where "dict_get (instruments s) name = Some i" "istate i = READY" "lock_owner i = Some cid" "driver i = h"
  using assms by (auto simp: at_hand_def split: option.splits)

lemma wire_iwrite:
  assumes s: "plain_session cid s" "undisturbed cid s" "can_write env w cid" "fits cid [''IWRITE'', name, res, v] s"
    and n: "space \<notin> set name" "colon \<notin> set name" and i: "at_hand cid name h s"
    and d: "d_write env h res v (world s) = (Ret (), w)"
  shows "\<exists>s1. wire env cid (tc_iwrite (name @ '' '' @ res) (ArgStr v)) s = (Inr (VBool True), s1)
    \<and> at_hand cid name h s1 \<and> world s1 = w
    \<and> plain_session cid s1 \<and> undisturbed cid s1 \<and> clients s1 = clients (count_command cid s)"
proof -
  let ?s = "count_command cid s"
  from i obtain i where i: "dict_get (instruments s) name = Some i" "istate i = READY" "lock_owner i = Some cid" "driver i = h"
    by (rule at_handD)
  have gi: "dict_get (instruments ?s) name = Some i" using i(1) by simp
  have "d_write env (driver i) res v (world ?s) = (Ret (), w)" using d i(4) by simp
  from ready_call_done[where func = "\<lambda>h. d_write env h res v" and env = env and t = "driver_timeout ?s", OF gi i(2) this] obtain j where
    r: "ready_call env name (driver_timeout ?s) (\<lambda>h. d_write env h res v) ?s
      = (Inr (), ?s\<lparr>world := w, instruments := dict_set (instruments ?s) name j\<rparr>)"
    and j: "istate j = READY" "lock_owner j = lock_owner i" "driver j = driver i" by blast
  let ?s1 = "?s\<lparr>world := w, instruments := dict_set (instruments ?s) name j\<rparr>"
  have h: "handle_write env [name, res, v] (client_context cid) ?s = (Inr (reply_bytes (Simple ''OK'')), ?s1)"
    using n(2) gi i(3) r
    by (simp add: handle_write_def client_context_def write_resource_def owner_call_def require_lock_def act_simps get_inst_def
        registry_write_def done_ok_def except_when_def)
  have g: "reply_good (Simple ''OK'')" and x: "reply_result (Simple ''OK'') = Inr (RStr ''OK'')" by code_simp+
  have t: "tc_iwrite (name @ '' '' @ res) (ArgStr v) = ask parse_ok [''IWRITE'', name, res, v]"
    using split_first_notin[OF n(1), of res] by (simp add: tc_iwrite_def split_target_def)
  have "clients ?s1 = clients ?s" "quiet_step cid ?s ?s1" "undisturbed cid ?s1"
    using s(2) undisturbed_same[of ?s1 ?s] by simp_all
  from wire_command[OF s(1,2,4) _ rw_commands(1,3) _ h g this, where parse = parse_ok] x s(3) i(3,4) j
  show ?thesis unfolding t by (auto simp: parse_ok_def at_hand_def dict_simps)
qed

lemma wire_iread:
  assumes s: "plain_session cid s" "undisturbed cid s" "can_write env w cid" "fits cid [''IREAD'', name, res] s"
    and n: "space \<notin> set name" "colon \<notin> set name" and m: "upper res \<noteq> ''MEAS''" and i: "at_hand cid name h s"
    and d: "d_read env h res (world s) = (Ret v, w)" and v: "utf8_valid v" "\<not> startswith v ''ERR_''"
  shows "fst (wire env cid (tc_iread (name @ '' '' @ res) False) s) = Inr (VStr v)"
proof -
  let ?s = "count_command cid s"
  from i obtain i where i: "dict_get (instruments s) name = Some i" "istate i = READY" "lock_owner i = Some cid" "driver i = h"
    by (rule at_handD)
  have gi: "dict_get (instruments ?s) name = Some i" using i(1) by simp
  have "d_read env (driver i) res (world ?s) = (Ret v, w)" using d i(4) by simp
  from ready_call_done[where func = "\<lambda>h. d_read env h res" and env = env and t = "driver_timeout ?s", OF gi i(2) this] obtain j where
    r: "ready_call env name (driver_timeout ?s) (\<lambda>h. d_read env h res) ?s
      = (Inr v, ?s\<lparr>world := w, instruments := dict_set (instruments ?s) name j\<rparr>)" by blast
  let ?s1 = "?s\<lparr>world := w, instruments := dict_set (instruments ?s) name j\<rparr>"
  have h: "handle_read env [name, res] (client_context cid) ?s = (Inr (reply_bytes (Bulk v)), ?s1)"
    using n(2) gi i(3) r m
    by (simp add: handle_read_def client_context_def read_resource_def owner_call_def require_lock_def act_simps get_inst_def
        registry_read_def except_when_def)
  have g: "reply_good (Bulk v)" and x: "reply_result (Bulk v) = Inr (RStr v)" using v by (simp_all add: reply_result_def)
  have t: "tc_iread (name @ '' '' @ res) False = ask parse_identity [''IREAD'', name, res]"
    using split_first_notin[OF n(1), of res] by (simp add: tc_iread_def split_target_def)
  have "clients ?s1 = clients ?s" "quiet_step cid ?s ?s1" "undisturbed cid ?s1"
    using s(2) undisturbed_same[of ?s1 ?s] by simp_all
  from wire_command[OF s(1,2,4) _ rw_commands(2,4) _ h g this, where parse = parse_identity] x s(3)
  show ?thesis unfolding t by (auto simp: parse_identity_def)
qed

text \<open>C6: what \<open>iwrite\<close> writes to a resource of the simulated instrument is what \<open>iread\<close> returns: through the
  client, the wire, the server's checks of owner and state, the watchdog and the driver.  A value that
  starts like an error line is the exception, and a resource named \<open>MEAS\<close>.\<close>

theorem iwrite_then_iread:
  assumes "plain_session cid s" "undisturbed cid s" "site_can_write hw (outside (world s)) cid"
    and "fits cid [''IWRITE'', name, res, v] s" "fits cid [''IREAD'', name, res] s"
    and "space \<notin> set name" "colon \<notin> set name" "upper res \<noteq> ''MEAS''" "\<not> startswith v ''ERR_''"
    and "at_hand cid name h s" "dict_get (objects (world s)) h = Some (DryRun d)" "dict_mem (dry_state d) res"
  shows "case wire (lab_env hw) cid (tc_iwrite (name @ '' '' @ res) (ArgStr v)) s of (r, s1) \<Rightarrow>
           r = Inr (VBool True) \<and> fst (wire (lab_env hw) cid (tc_iread (name @ '' '' @ res) False) s1) = Inr (VStr v)"
proof -
  let ?env = "lab_env hw"
  let ?d = "d\<lparr>dry_state := dict_set (dry_state d) res v\<rparr>"
  let ?w = "(world s)\<lparr>objects := dict_set (objects (world s)) h (DryRun ?d)\<rparr>"
  have cw: "can_write ?env l cid = site_can_write hw (outside l) cid" for l by (simp add: lab_env_def)
  have w: "d_write ?env h res v (world s) = (Ret (), ?w)"
    using assms(11,12) by (simp add: lab_env_def on_driver_def dryrun_write_def call_simps)
  have "can_write ?env ?w cid" using assms(3) cw by simp
  from wire_iwrite[OF assms(1,2) this assms(4,6,7,10) w] obtain s1 where
    s1: "wire ?env cid (tc_iwrite (name @ '' '' @ res) (ArgStr v)) s = (Inr (VBool True), s1)"
      "at_hand cid name h s1" "world s1 = ?w" "plain_session cid s1" "undisturbed cid s1"
      "clients s1 = clients (count_command cid s)" by blast
  have r: "\<exists>w'. d_read ?env h res (world s1) = (Ret v, w') \<and> outside w' = outside (world s)"
    by (simp add: s1(3) lab_env_def on_driver_def dryrun_read_def call_simps dict_simps)
  then obtain w' where r: "d_read ?env h res (world s1) = (Ret v, w')" "outside w' = outside (world s)" by blast
  have "can_write ?env w' cid" using assms(3) cw r(2) by simp
  moreover have "utf8_valid v" using assms(4) by (simp add: fits_def words_good_def)
  moreover have "fits cid [''IREAD'', name, res] s1" using assms(5) fits_later[OF s1(6)] by simp
  ultimately show ?thesis
    using wire_iread[OF s1(4,5) _ _ assms(6,7,8) s1(2) r(1) _ assms(9)] s1(1) by simp
qed

theorem iwrite_then_iread_witness:
  "case wire sample_env 1 (tc_iwrite (''sim'' @ '' '' @ ''FREQ'') (ArgStr ''1000'')) sample of (r, s1) \<Rightarrow>
     r = Inr (VBool True) \<and> fst (wire sample_env 1 (tc_iread (''sim'' @ '' '' @ ''FREQ'') False) s1) = Inr (VStr ''1000'')"
  unfolding sample_env_def
proof (rule iwrite_then_iread)
  show "plain_session 1 sample" "undisturbed 1 sample" by simp_all
  show "site_can_write quiet_site (outside (world sample)) 1" by (simp add: quiet_site_def hardware.defs site.defs)
  show "fits 1 [''IWRITE'', ''sim'', ''FREQ'', ''1000''] sample" "fits 1 [''IREAD'', ''sim'', ''FREQ''] sample"
    by (rule sample_fits; code_simp)+
  show "upper ''FREQ'' \<noteq> ''MEAS''" "\<not> startswith ''1000'' ''ERR_''" by code_simp+
  show "at_hand 1 ''sim'' 1 sample" by (simp add: at_hand_def)
  show "dict_get (objects (world sample)) 1
      = Some (DryRun \<lparr> dry_state = map (\<lambda>r. (r, ''0.0'')) DRYRUN_RESOURCES, dry_info = [] \<rparr>)"
    by (simp add: sample_lab_def dict_get_def)
qed (simp_all add: DRYRUN_RESOURCES_def dict_mem_def dict_get_def)

end
