(* ===== verification/Lifecycle.thy ===== *)
theory Lifecycle
  imports Locks
begin

text \<open>
  The life of an instrument in the registry (\<open>testcore/instruments.py\<close>): adding, initialising and resetting
  it, and setting a guard on one of its resources (\<open>testcore/watch.py\<close>), with what each of them does when
  the driver or the transport fails.
\<close>

subsection \<open>Adding an instrument\<close>

text \<open>C35: adding an instrument is all or nothing.  A name that is taken is refused and nothing happens; when the
  driver cannot be loaded or made, the address is not understood, or the transport or \<open>connect\<close> fails, the
  table of instruments is as before; otherwise it has one more, under its name, IDLE, without an owner and
  without resources.\<close>

theorem add_all_or_nothing:
  "case registry_add env name driver_name addr opts s of (r, s') \<Rightarrow>
     if dict_mem (instruments s) name then s' = s \<and> isl r
     else (case r of
             Inl _ \<Rightarrow> instruments s' = instruments s
           | Inr i \<Rightarrow> instruments s' = dict_set (instruments s) name i
               \<and> iname i = name \<and> istate i = IDLE \<and> lock_owner i = None \<and> resources i = [] \<and> topts i = opts
               \<and> cfg_address (connect_cfg i) = given addr)"
  for s :: "'w server"
proof (cases "dict_mem (instruments s) name")
  case True
  then show ?thesis by (simp add: registry_add_def)
next
  case False
  obtain c s1 where l: "load_driver_module env driver_name s = (c, s1)" by fastforce
  have "keeps (\<lambda>t :: 'w server. instruments t = instruments s) (load_driver_module env driver_name)"
    by (rule session.load_tables[where R = "\<lambda>d. d = instruments s"])
  from keepsD[OF this, of s] l have i: "instruments s1 = instruments s" by simp
  show ?thesis
    using False i
    by (cases "given addr")
      (auto simp: registry_add_def act_simps l call_out_def make_transport_def new_instrument_def Let_def
        split: prod.splits sum.splits)
qed

subsection \<open>Initialising an instrument\<close>

text \<open>How driver calls end that run one after the other while they return.\<close>

definition and_then :: "'a outcome \<Rightarrow> 'b outcome \<Rightarrow> 'b outcome" where
  "and_then a b =
     (case a of Ret _ \<Rightarrow> b | RaisesDriver e \<Rightarrow> RaisesDriver e | TimesOut e \<Rightarrow> TimesOut e | Raises e \<Rightarrow> Raises e)"

text \<open>C37: initialising an instrument that is LOCKED or READY configures it when a file is given, initialises it and
  discovers its resources, in this order: when all of them return it is READY with these resources, when one
  ends in a driver error that is the error and state and resources stay, and a timeout makes it
  UNRESPONSIVE.  In another state it is refused and nothing happens.  The owner stays.\<close>

theorem init_outcomes:
  assumes "dict_get (instruments s) name = Some i"
    and "(case given path of None \<Rightarrow> (Ret (), world s) | Some p \<Rightarrow> d_configure env (driver i) p (world s)) = (configured, w0)"
    and "d_init env (driver i) selftest w0 = (inited, w1)" "d_discover env (driver i) w1 = (discovered, w2)"
  shows "case registry_init env name path selftest s of (r, s') \<Rightarrow>
    if istate i \<notin> {LOCKED, READY} then s' = s \<and> isl r
    else (case and_then configured (and_then inited discovered) of
            Ret res \<Rightarrow> r = Inr () \<and> world s' = w2
              \<and> map_option (\<lambda>j. (istate j, lock_owner j, resources j)) (dict_get (instruments s') name)
                  = Some (READY, lock_owner i, res)
          | RaisesDriver e \<Rightarrow> r = Inl (DriverError e)
              \<and> map_option (\<lambda>j. (istate j, lock_owner j, resources j)) (dict_get (instruments s') name)
                  = Some (istate i, lock_owner i, resources i)
          | TimesOut _ \<Rightarrow> isl r
              \<and> map_option (\<lambda>j. (istate j, lock_owner j)) (dict_get (instruments s') name) = Some (UNRESPONSIVE, lock_owner i)
          | Raises _ \<Rightarrow> isl r \<and> map_option lock_owner (dict_get (instruments s') name) = Some (lock_owner i))"
proof (cases "istate i \<in> {LOCKED, READY}")
  case False
  with assms(1) show ?thesis by (cases "istate i") (simp_all add: registry_init_def act_simps get_inst_def)
next
  case True
  then have st: "istate i \<noteq> IDLE" "istate i \<notin> {FAULT, UNRESPONSIVE}" by auto
  note defs = registry_init_def act_simps get_inst_def call_driver_def Let_def upd_inst_def spawn_def dict_simps and_then_def
  show ?thesis
  proof (cases "given path")
    case None
    with assms(2) have c: "configured = Ret ()" "w0 = world s" by simp_all
    show ?thesis using assms(1,3,4) True st None
      by (cases inited; cases discovered) (simp_all add: defs c)
  next
    case (Some p)
    with assms(2) have c: "d_configure env (driver i) p (world s) = (configured, w0)" by simp
    show ?thesis using assms(1,3,4) True st Some
      by (cases configured; cases inited; cases discovered) (simp_all add: defs c)
  qed
qed

theorem init_outcomes_witness:
  "map_option (\<lambda>j. (istate j, lock_owner j, resources j))
     (dict_get (instruments (snd (registry_init sample_env ''sim'' None False sample))) ''sim'')
     = Some (READY, Some 1, DRYRUN_RESOURCES)"
proof -
  obtain w1 where i: "d_init sample_env 1 False sample_lab = (Ret (), w1)"
    and o': "dict_get (objects w1) 1 = Some (DryRun \<lparr> dry_state = map (\<lambda>r. (r, ''0.0'')) DRYRUN_RESOURCES, dry_info = [] \<rparr>)"
    by (simp add: sample_env_def lab_env_def on_driver_def sample_lab_def dict_get_def dryrun_init_def call_simps dict_set_def comp_def)
  obtain w2 where d: "d_discover sample_env 1 w1 = (Ret DRYRUN_RESOURCES, w2)"
    using o' by (simp add: sample_env_def lab_env_def on_driver_def dryrun_discover_def call_simps dict_keys_def comp_def)
  from init_outcomes[OF sample_get(1), where path = None and env = sample_env and configured = "Ret ()" and ?w0.0 = sample_lab
      and selftest = False and inited = "Ret ()" and ?w1.0 = w1 and discovered = "Ret DRYRUN_RESOURCES" and ?w2.0 = w2] i d
  show ?thesis
    by (cases "registry_init sample_env ''sim'' None False sample") (simp add: given_def and_then_def del: One_nat_def)
qed

subsection \<open>Setting a guard\<close>

lemma watch_start_get:
  "dict_get (inst_watches (watch_start name res ms lo hi s) n) q
     = (if n = name \<and> q = res then Some \<lparr> interval_ms = ms, min_val = lo, max_val = hi, watch_alive = True \<rparr>
        else dict_get (inst_watches s n) q)"
proof -
  have "dict_del d res = [] \<Longrightarrow> k \<noteq> res \<Longrightarrow> dict_get d k = None" for k and d :: "(string, watch_entry) dict"
    using dict_get_del_ok[of d res k] by simp
  then show ?thesis
    by (auto simp: watch_start_def watch_stop_def Let_def inst_watches_def dict_simps dict_mem_def split: option.splits)
qed

text \<open>C38: \<open>IWATCH\<close> sets a guard only for the owner of a READY instrument, on one of its resources, with limits it
  understands and an interval of at least 100 ms: then the resource has exactly this guard, alive, instead
  of any it had, and all other guards stay.  Otherwise it answers an error and changes nothing.\<close>

theorem guard_set_by_owner:
  "case handle_watch env (name # res # ms # rest) (client_context cid) s of (reply, s') \<Rightarrow>
     case (read_int ms, watch_limits rest (None, None), dict_get (instruments s) name) of
       (Some interval, Inr (lo, hi), Some i) \<Rightarrow>
         if 100 \<le> interval \<and> lock_owner i = Some cid \<and> istate i = READY \<and> res \<in> set (resources i)
         then reply = Inr ok_reply
           \<and> (\<forall>n q. dict_get (inst_watches s' n) q
                = (if n = name \<and> q = res
                   then Some \<lparr> interval_ms = interval, min_val = lo, max_val = hi, watch_alive = True \<rparr>
                   else dict_get (inst_watches s n) q))
           \<and> instruments s' = instruments s
         else s' = s \<and> (\<exists>line. reply = Inr line \<and> take 1 line = ''-'')
     | _ \<Rightarrow> s' = s \<and> (\<exists>line. reply = Inr line \<and> take 1 line = ''-'')"
proof -
  have i: "instruments (watch_start name res k lo hi s) = instruments s" for k lo hi
    by (simp add: watch_start_def watch_stop_def Let_def)
  show ?thesis
    by (auto simp: handle_watch_def client_context_def owner_call_def act_simps get_inst_def require_lock_def except_when_def
        watch_start_get i minus_error split: option.splits sum.splits)
qed

subsection \<open>Resetting an instrument\<close>

text \<open>What stays of the tables while an instrument is disconnected and connected again: its record up to the
  configuration, and all the others.\<close>

definition only_config :: "string \<Rightarrow> 'w server \<Rightarrow> 'w server \<Rightarrow> bool" where
  "only_config name s t =
     ((\<exists>i cfg. dict_get (instruments s) name = Some i
         \<and> dict_get (instruments t) name = Some (i\<lparr>connect_cfg := cfg\<rparr>))
      \<and> (\<forall>n. n \<noteq> name \<longrightarrow> dict_get (instruments t) n = dict_get (instruments s) n))"

lemma only_config_call [keep]: "keeps (only_config name s) (call_out func)"
  by (auto simp: keeps_def call_out_def only_config_def split: prod.splits)

lemma only_config_transport [keep]: "keeps (only_config name s) (make_transport env a opts)"
  by (cases "resolve_transport a opts") (auto simp: make_transport_def intro!: keep)

lemma only_config_upd [keep]: "keeps (only_config name s) (modify (upd_inst name (\<lambda>i. i\<lparr>connect_cfg := cfg\<rparr>)))"
  by (rule keeps_modify) (auto simp: only_config_def upd_inst_def dict_simps intro!: exI[of _ cfg])

lemma bind_result:
  "bind_ex m f s = (r, s') \<longleftrightarrow>
     (\<exists>e. m s = (Inl e, s') \<and> r = Inl e) \<or> (\<exists>v s1. m s = (Inr v, s1) \<and> f v s1 = (r, s'))"
  by (auto simp: act_simps split: prod.splits sum.splits)

lemma modify_result: "modify f s = (r, s') \<longleftrightarrow> r = Inr () \<and> s' = f s"
  by (auto simp: act_simps)

lemma reset_result:
  fixes s :: "'w server"
  assumes "registry_reset env name s = (r, s')" "dict_get (instruments s) name = Some i" "istate i \<in> {FAULT, UNRESPONSIVE}"
  obtains (failed) e where "r = Inl e" "only_config name s s'"
    | (reconnected) s1 where "r = Inr ()" "only_config name s s1"
        "s' = upd_inst name (\<lambda>i. i\<lparr>istate := LOCKED, resources := []\<rparr>) s1"
proof -
  define pre :: "(unit, 'w server) act" where "pre =
    bind_ex (quietly (call_out (d_disconnect env (driver i)))) (\<lambda>_.
    bind_ex (case given (cfg_address (connect_cfg i)) of
               None \<Rightarrow> ret (connect_cfg i)
             | Some a \<Rightarrow>
                 bind_ex (make_transport env a (topts i)) (\<lambda>t.
                   let cfg = (connect_cfg i)\<lparr>cfg_transport := Some t\<rparr> in
                   bind_ex (modify (upd_inst name (\<lambda>i. i\<lparr>connect_cfg := cfg\<rparr>))) (\<lambda>_. ret cfg))) (\<lambda>cfg.
      call_out (d_connect env (driver i) cfg)))"
  have k: "keeps (only_config name s) pre"
    unfolding pre_def Let_def by (auto intro!: keep split: option.split)
  have s: "only_config name s s" using assms(2) by (auto simp: only_config_def intro!: exI[of _ "connect_cfg i"])
  obtain q s1 where p: "pre s = (q, s1)" by fastforce
  have c: "only_config name s s1" by (rule keeps_result[OF k s p])
  have "registry_reset env name s
      = bind_ex pre (\<lambda>_. modify (upd_inst name (\<lambda>i. i\<lparr>istate := LOCKED, resources := []\<rparr>))) s"
    using assms(2,3) unfolding pre_def
    by (auto simp: registry_reset_def act_simps get_inst_def split: prod.splits sum.splits option.splits)
  with assms(1) p have "(\<exists>e. q = Inl e \<and> r = Inl e \<and> s' = s1)
      \<or> (r = Inr () \<and> s' = upd_inst name (\<lambda>i. i\<lparr>istate := LOCKED, resources := []\<rparr>) s1)"
    by (auto simp: bind_result modify_result)
  with c show ?thesis using failed reconnected by blast
qed


text \<open>The simulated instrument of the sample, after a timeout.\<close>

definition unresponsive_sample :: "string list lab server" where
  "unresponsive_sample = upd_inst ''sim'' (\<lambda>i. i\<lparr>istate := UNRESPONSIVE\<rparr>) sample"

lemma unresponsive_get:
  "dict_get (instruments unresponsive_sample) ''sim'' = Some (sample_instrument\<lparr>istate := UNRESPONSIVE\<rparr>)"
  "world unresponsive_sample = sample_lab"
  by (simp_all add: unresponsive_sample_def upd_inst_def dict_simps)

lemma sample_reset: "instruments s = dict_set (instruments sample) ''sim'' j \<Longrightarrow> world s = sample_lab \<Longrightarrow>
  istate j \<in> {FAULT, UNRESPONSIVE} \<Longrightarrow> driver j = 1 \<Longrightarrow> cfg_address (connect_cfg j) = None \<Longrightarrow>
  fst (registry_reset sample_env ''sim'' s) = Inr ()"
proof -
  assume s: "instruments s = dict_set (instruments sample) ''sim'' j" "world s = sample_lab"
    and j: "istate j \<in> {FAULT, UNRESPONSIVE}" "driver j = 1" "cfg_address (connect_cfg j) = None"
  obtain l where d: "d_disconnect sample_env 1 sample_lab = (Ret (), l)" and o': "dict_get (objects l) 1 = Some (DryRun \<lparr> dry_state = [], dry_info = [] \<rparr>)"
    by (simp add: sample_env_def lab_env_def on_driver_def sample_lab_def dict_get_def dryrun_disconnect_def call_simps dict_set_def)
  obtain l' where c: "d_connect sample_env 1 (connect_cfg j) l = (Ret (), l')"
    using o' by (simp add: sample_env_def lab_env_def on_driver_def dryrun_connect_def call_simps)
  have "dict_get (instruments s) ''sim'' = Some j" using s by (simp add: dict_simps)
  then show "fst (registry_reset sample_env ''sim'' s) = Inr ()"
    using j by (auto simp: registry_reset_def act_simps get_inst_def quietly_def call_out_def s(2) d c given_def simp del: One_nat_def)
qed


text \<open>A lock can be lost for good: resetting an instrument that a failed unlock left faulty and without an owner
  makes it LOCKED by nobody, and then every session is refused both the lock and the unlock.\<close>

lemma reset_orphans_lock:
  fixes s :: "'w server"
  assumes "dict_get (instruments s) name = Some i" "istate i = FAULT" "lock_owner i = None"
    and "registry_reset env name s = (Inr (), s')"
  shows "registry_lock name cid s' = (Inl (DriverError (''instrument '' @ quoted name @ '' is not IDLE'')), s')
         \<and> registry_unlock env name cid s' = (Inl (IdleError (name @ '' not locked'')), s')"
proof -
  from assms(2) have "istate i \<in> {FAULT, UNRESPONSIVE}" by simp
  from assms(4,1) this show ?thesis
  proof (cases rule: reset_result)
    case (reconnected s1)
    then show ?thesis using assms(1,3)
      by (auto simp: only_config_def upd_inst_def dict_simps registry_lock_def registry_unlock_def act_simps get_inst_def)
  qed simp
qed

end
