(* ===== verification/Bus.thy ===== *)
theory Bus
  imports Events
begin

text \<open>
  The event bus (\<open>testcore/events.py\<close>) as a set of pairs of a client and a channel: what each of its
  operations does to the set, what it answers, and who gets an event.
\<close>

definition abs_bus :: "event_bus \<Rightarrow> (int \<times> string) set" where
  "abs_bus bus = set (concat (map (\<lambda>(base, subs). map (\<lambda>u. (sub_handler u, channel_spec u)) subs) bus))"

text \<open>A subscription to \<open>spec\<close> lets an event of the channel through: the channel is the one it names, and its
  pattern, when it has one, matches the key of the event, when that has one.\<close>

definition hears :: "string \<Rightarrow> string option \<Rightarrow> string \<Rightarrow> bool" where
  "hears channel key spec =
     (case parse_channel spec of (base, pattern) \<Rightarrow>
        base = channel \<and> (case (pattern, key) of (Some p, Some k) \<Rightarrow> fnmatch k p | _ \<Rightarrow> True))"

lemma abs_bus_subscribed:
  assumes "bus_ok bus"
  shows "(h, c) \<in> abs_bus bus \<longleftrightarrow> subscribed bus h c"
proof -
  have "(h, c) \<in> abs_bus bus \<longleftrightarrow> (\<exists>b subs. dict_get bus b = Some subs \<and> (\<exists>u \<in> set subs. sub_handler u = h \<and> channel_spec u = c))"
    using assms dict_get_items[of bus] by (force simp: abs_bus_def bus_ok_def)
  moreover have "parse_channel (channel_spec u) = (b, sub_pattern u)" if "dict_get bus b = Some subs" "u \<in> set subs" for b subs u
    using assms that by (auto simp: bus_ok_iff channel_ok_def list_all_iff)
  ultimately show ?thesis
    by (auto simp: subscribed_def subs_of_def list_ex_iff split: option.splits) (metis fst_conv)+
qed

lemma abs_bus_mem:
  assumes "bus_ok bus"
  shows "(h, c) \<in> abs_bus bus \<longleftrightarrow> (\<exists>u \<in> set (subs_of bus (fst (parse_channel c))). sub_handler u = h \<and> channel_spec u = c)"
  by (simp add: abs_bus_subscribed[OF assms] subscribed_def list_ex_iff)

lemma subscribed_valid: "bus_ok bus \<Longrightarrow> subscribed bus h c \<Longrightarrow> is_valid_channel c"
  using subs_of_nonempty[of bus _ "fst (parse_channel c)"]
  by (auto simp: subscribed_def list_ex_iff is_valid_channel_def split: prod.splits)

lemma subscribe_answer:
  "fst (subscribe bus h c) \<longleftrightarrow> is_valid_channel c \<and> \<not> subscribed bus h c"
  by (auto simp: subscribe_def is_valid_channel_def subscribed_def list_ex_iff same_sub_def Let_def split: prod.splits)

lemma subscribe_invalid: "\<not> is_valid_channel c \<Longrightarrow> snd (subscribe bus h c) = bus"
  by (auto simp: subscribe_def is_valid_channel_def split: prod.splits)

lemma unsubscribe_answer: "fst (unsubscribe bus h c) \<longleftrightarrow> subscribed bus h c"
  by (auto simp: unsubscribe_def subscribed_def list_ex_iff same_sub_def Let_def split: prod.splits)

lemma unsubscribe_all_answer: "set (fst (unsubscribe_all bus h)) = {c. (h, c) \<in> abs_bus bus}"
  by (force simp: unsubscribe_all_def abs_bus_def)

text \<open>The subscriptions an event is for.\<close>

lemma selected_hears:
  assumes "bus_ok bus" "u \<in> set (subs_of bus b)"
  shows "hears ch k (channel_spec u) \<longleftrightarrow> b = ch \<and> selected k u"
  using bus_ok_subs(2)[OF assms(1), of b] assms(2)
  by (auto simp: hears_def selected_def list_all_iff split: option.splits)

lemma heard_by:
  assumes "bus_ok bus"
  shows "length (filter (\<lambda>u. sub_handler u = h \<and> selected k u) (subs_of bus ch))
           = card {c. (h, c) \<in> abs_bus bus \<and> hears ch k c}"
proof -
  let ?us = "filter (\<lambda>u. sub_handler u = h \<and> selected k u) (subs_of bus ch)"
  have "distinct (map (\<lambda>u. (sub_handler u, channel_spec u)) ?us)"
    using bus_ok_subs(1)[OF assms, of ch] by (simp add: distinct_map_filter)
  then have d: "distinct (map channel_spec ?us)"
    by (auto simp: distinct_map inj_on_def)
  have "set (map channel_spec ?us) = {c. (h, c) \<in> abs_bus bus \<and> hears ch k c}"
  proof (intro set_eqI iffI)
    fix c assume "c \<in> set (map channel_spec ?us)"
    then obtain u where u: "u \<in> set (subs_of bus ch)" "sub_handler u = h" "selected k u" "channel_spec u = c" by auto
    with selected_hears[OF assms u(1), of ch k] have "hears ch k c" by simp
    moreover from this have "fst (parse_channel c) = ch" by (auto simp: hears_def split: prod.splits)
    ultimately show "c \<in> {c. (h, c) \<in> abs_bus bus \<and> hears ch k c}" using u by (auto simp: abs_bus_mem[OF assms])
  next
    fix c assume "c \<in> {c. (h, c) \<in> abs_bus bus \<and> hears ch k c}"
    then obtain u where c: "hears ch k c" and u: "u \<in> set (subs_of bus (fst (parse_channel c)))" "sub_handler u = h" "channel_spec u = c"
      by (auto simp: abs_bus_mem[OF assms])
    with selected_hears[OF assms u(1), of ch k] show "c \<in> set (map channel_spec ?us)" by auto
  qed
  then have "card {c. (h, c) \<in> abs_bus bus \<and> hears ch k c} = card (set (map channel_spec ?us))" by simp
  also have "\<dots> = length ?us" using distinct_card[OF d] by simp
  finally show ?thesis by simp
qed

text \<open>C16: the event bus refines a set of pairs of a client and a channel: subscribing adds the pair of a valid
  channel and tells whether it is new; unsubscribing removes it and tells whether it was there; removing a
  client answers its channels; and publishing writes one message to a client for each of its subscriptions
  that lets the event through, dropping those of the clients that could not be written to.\<close>

theorem bus_refines_set:
  assumes "bus_ok bus"
  shows "abs_bus (snd (subscribe bus h c)) = (if is_valid_channel c then insert (h, c) (abs_bus bus) else abs_bus bus)
    \<and> fst (subscribe bus h c) = (is_valid_channel c \<and> (h, c) \<notin> abs_bus bus)
    \<and> abs_bus (snd (unsubscribe bus h c)) = abs_bus bus - {(h, c)}
    \<and> fst (unsubscribe bus h c) = ((h, c) \<in> abs_bus bus)
    \<and> abs_bus (snd (unsubscribe_all bus h)) = {p \<in> abs_bus bus. fst p \<noteq> h}
    \<and> set (fst (unsubscribe_all bus h)) = {c. (h, c) \<in> abs_bus bus}
    \<and> (case publish w bus ch payload k of (msgs, bus') \<Rightarrow>
         abs_bus bus' = {p \<in> abs_bus bus. \<not> hears ch k (snd p) \<or> w (fst p)}
         \<and> set (map snd msgs) \<subseteq> {event_message ch payload}
         \<and> length (filter (\<lambda>m. fst m = h) msgs) = (if w h then card {c. (h, c) \<in> abs_bus bus \<and> hears ch k c} else 0))"
proof -
  note ok = abs_bus_subscribed[OF assms] abs_bus_subscribed[OF subscribe_ok[OF assms]]
    abs_bus_subscribed[OF unsubscribe_ok[OF assms]] abs_bus_subscribed[OF unsubscribe_all_ok[OF assms]]
  have "abs_bus (snd (subscribe bus h c)) = (if is_valid_channel c then insert (h, c) (abs_bus bus) else abs_bus bus)"
    by (auto simp: ok subscribed_subscribe subscribe_invalid)
  moreover have "fst (subscribe bus h c) = (is_valid_channel c \<and> (h, c) \<notin> abs_bus bus)"
    "fst (unsubscribe bus h c) = ((h, c) \<in> abs_bus bus)"
    by (simp_all add: ok subscribe_answer unsubscribe_answer)
  moreover have "abs_bus (snd (unsubscribe bus h c)) = abs_bus bus - {(h, c)}"
    "abs_bus (snd (unsubscribe_all bus h)) = {p \<in> abs_bus bus. fst p \<noteq> h}"
    by (auto simp: ok subscribed_unsubscribe subscribed_unsubscribe_all)
  moreover obtain msgs bus' where p: "publish w bus ch payload k = (msgs, bus')" by fastforce
  have "abs_bus bus' = {p \<in> abs_bus bus. \<not> hears ch k (snd p) \<or> w (fst p)}"
  proof -
    have b: "bus_ok bus'" using publish_ok[OF assms, of w ch payload k] p by simp
    have "(x, c) \<in> abs_bus bus' \<longleftrightarrow> (x, c) \<in> abs_bus bus \<and> (\<not> hears ch k c \<or> w x)" for x c
      using publish_subs[OF assms, of w ch payload k] selected_hears[OF assms] p
      by (auto simp: abs_bus_mem[OF b] abs_bus_mem[OF assms])
    then show ?thesis by auto
  qed
  moreover have "set (map snd msgs) \<subseteq> {event_message ch payload}"
    using publish_messages[of w bus ch payload k] p by auto
  moreover have "length (filter (\<lambda>m. fst m = h) msgs) = (if w h then card {c. (h, c) \<in> abs_bus bus \<and> hears ch k c} else 0)"
  proof -
    have "filter (\<lambda>m. fst m = h) msgs = map (\<lambda>s. (sub_handler s, event_message ch payload))
        (filter (\<lambda>s. sub_handler s = h \<and> selected k s \<and> w h) (subs_of bus ch))"
      using publish_messages[of w bus ch payload k] p by (auto simp: filter_map comp_def intro!: arg_cong[where f = "map _"] filter_cong)
    then show ?thesis using heard_by[OF assms, of h k ch] by simp
  qed
  ultimately show ?thesis by (simp add: p unsubscribe_all_answer)
qed

definition sample_bus :: event_bus where
  "sample_bus = snd (subscribe (snd (subscribe [] 1 ''kv'')) 1 ''kv:a*'')"

theorem bus_refines_set_witness:
  "length (filter (\<lambda>m. fst m = 1) (fst (publish (\<lambda>_. True) sample_bus ''kv'' JNull (Some ''abc'')))) = 2"
proof -
  have ok: "bus_ok sample_bus"
    unfolding sample_bus_def by (intro subscribe_ok) (simp add: bus_ok_def)
  have "is_valid_channel ''kv''" "is_valid_channel ''kv:a*''" by code_simp+
  then have "abs_bus sample_bus = {(1, ''kv''), (1, ''kv:a*'')}"
    using bus_refines_set[of "[]" 1 "''kv''"] bus_refines_set[of "snd (subscribe [] 1 ''kv'')" 1 "''kv:a*''"] subscribe_ok[of "[]" 1 "''kv''"]
    by (auto simp: sample_bus_def bus_ok_def abs_bus_def[of "[]"])
  moreover have "hears ''kv'' (Some ''abc'') ''kv''" "hears ''kv'' (Some ''abc'') ''kv:a*''" by code_simp+
  ultimately have "{c. (1, c) \<in> abs_bus sample_bus \<and> hears ''kv'' (Some ''abc'') c} = {''kv'', ''kv:a*''}" by auto
  moreover obtain msgs bus' where p: "publish (\<lambda>_. True) sample_bus ''kv'' JNull (Some ''abc'') = (msgs, bus')" by fastforce
  moreover have "length (filter (\<lambda>m. fst m = 1) msgs)
      = (if True then card {c. (1, c) \<in> abs_bus sample_bus \<and> hears ''kv'' (Some ''abc'') c} else 0)"
    using bus_refines_set[OF ok, where h = 1 and w = "\<lambda>_. True" and ch = "''kv''" and payload = JNull and k = "Some ''abc''",
        unfolded p prod.case] by blast
  ultimately show ?thesis by simp
qed

end
