(* ===== verification/Transports.thy ===== *)
theory Transports
  imports Environment Protocol
begin

text \<open>
  The transports of \<open>testcore/transport.py\<close>: their \<open>send\<close>, \<open>query\<close> and \<open>close\<close>.

  The TCP transport is modelled down to its socket, because of its two loops: the first one reads what
  has already arrived, without blocking, and the second one blocks until a line is complete.  A query
  that never returns is \<open>None\<close>.  For VISA and serial ports the third-party packages are the parameter
  \<open>devices\<close>.
\<close>

subsection \<open>TCP sockets\<close>

text \<open>\<open>arrived\<close> is what the kernel holds when the query starts and \<open>peer_closed\<close> that the peer closed the
  connection after it; \<open>arrivals\<close> is what arrives after the command was sent.\<close>

datatype arrival = Bytes string | Eof | Broken string

record sock =
  arrived :: string
  peer_closed :: bool
  arrivals :: "arrival list"
  send_fails :: "string option"
  written :: string
  sock_timeout :: "pyfloat option"

definition new_sock :: "pyfloat \<Rightarrow> sock" where
  "new_sock timeout =
     \<lparr> arrived = [], peer_closed = False, arrivals = [], send_fails = None, written = [], sock_timeout = Some timeout \<rparr>"

definition RECV_SIZE :: nat where
  "RECV_SIZE = 4096"

definition newline :: char where
  "newline = CHR 0x0A"

text \<open>\<open>while True: recv(4096)\<close> on the non-blocking socket; a closed connection gives \<open>b''\<close> for ever.\<close>

partial_function (option) flush_stale :: "sock \<Rightarrow> sock option" where
  "flush_stale s =
     (if arrived s \<noteq> [] then flush_stale (s\<lparr>arrived := drop RECV_SIZE (arrived s)\<rparr>)
      else if peer_closed s then flush_stale s
      else Some s)"

definition socket_send :: "string \<Rightarrow> sock \<Rightarrow> unit outcome \<times> sock" where
  "socket_send command s =
     (case send_fails s of
        Some e \<Rightarrow> (Raises e, s)
      | None \<Rightarrow> (Ret (), s\<lparr>written := written s @ command @ [newline]\<rparr>))"

text \<open>\<open>data.decode().strip()\<close>.\<close>

definition decode_strip :: "string \<Rightarrow> string outcome" where
  "decode_strip b =
     (case utf8_decode b of Some t \<Rightarrow> Ret (strip t) | None \<Rightarrow> Raises ''invalid utf-8'')"

fun read_reply :: "string \<Rightarrow> arrival list \<Rightarrow> (string outcome \<times> arrival list) option" where
  "read_reply got [] = None"
| "read_reply got (Eof # rest) = Some (decode_strip got, Eof # rest)"
| "read_reply got (Broken e # rest) = Some (Raises e, rest)"
| "read_reply got (Bytes d # rest) =
     (if newline \<in> set (got @ d) then Some (decode_strip (fst (split_first newline (got @ d))), rest)
      else read_reply (got @ d) rest)"

text \<open>\<open>setblocking(True)\<close> is \<open>settimeout(None)\<close>.\<close>

definition socket_query :: "string \<Rightarrow> sock \<Rightarrow> (string outcome \<times> sock) option" where
  "socket_query command s =
     (case flush_stale s of
        None \<Rightarrow> None
      | Some s1 \<Rightarrow>
          (case socket_send command (s1\<lparr>sock_timeout := None\<rparr>) of
             (Ret _, s2) \<Rightarrow>
               (case read_reply [] (arrivals s2) of
                  None \<Rightarrow> None
                | Some (r, rest) \<Rightarrow> Some (r, s2\<lparr>arrivals := rest\<rparr>))
           | (RaisesDriver e, s2) \<Rightarrow> Some (RaisesDriver e, s2)
           | (TimesOut e, s2) \<Rightarrow> Some (TimesOut e, s2)
           | (Raises e, s2) \<Rightarrow> Some (Raises e, s2)))"

subsection \<open>VISA and serial ports\<close>

record 'w devices =
  dev_write :: "nat \<Rightarrow> string \<Rightarrow> 'w \<Rightarrow> unit outcome \<times> 'w"
  dev_query :: "nat \<Rightarrow> string \<Rightarrow> 'w \<Rightarrow> string outcome \<times> 'w"
  dev_readline :: "nat \<Rightarrow> 'w \<Rightarrow> string outcome \<times> 'w"
  dev_close :: "nat \<Rightarrow> 'w \<Rightarrow> unit outcome \<times> 'w"

definition visa_send :: "'w devices \<Rightarrow> nat \<Rightarrow> string \<Rightarrow> 'w \<Rightarrow> unit outcome \<times> 'w" where
  "visa_send dev h command = dev_write dev h command"

definition visa_query :: "'w devices \<Rightarrow> nat \<Rightarrow> string \<Rightarrow> 'w \<Rightarrow> string outcome \<times> 'w" where
  "visa_query dev h command = dev_query dev h command"

text \<open>\<open>try: close() except Exception: pass\<close>.\<close>

definition close_device :: "'w devices \<Rightarrow> nat \<Rightarrow> 'w \<Rightarrow> unit outcome \<times> 'w" where
  "close_device dev h w = (Ret (), snd (dev_close dev h w))"

definition serial_send :: "'w devices \<Rightarrow> nat \<Rightarrow> string \<Rightarrow> 'w \<Rightarrow> unit outcome \<times> 'w" where
  "serial_send dev h command = dev_write dev h (command @ [newline])"

definition serial_query :: "'w devices \<Rightarrow> nat \<Rightarrow> string \<Rightarrow> 'w \<Rightarrow> string outcome \<times> 'w" where
  "serial_query dev h command w =
     (case serial_send dev h command w of
        (Ret _, w1) \<Rightarrow>
          (case dev_readline dev h w1 of
             (Ret b, w2) \<Rightarrow> (decode_strip b, w2)
           | (RaisesDriver e, w2) \<Rightarrow> (RaisesDriver e, w2)
           | (TimesOut e, w2) \<Rightarrow> (TimesOut e, w2)
           | (Raises e, w2) \<Rightarrow> (Raises e, w2))
      | (RaisesDriver e, w1) \<Rightarrow> (RaisesDriver e, w1)
      | (TimesOut e, w1) \<Rightarrow> (TimesOut e, w1)
      | (Raises e, w1) \<Rightarrow> (Raises e, w1))"

subsection \<open>When a query returns\<close>

lemma flush_stale_open: "\<not> peer_closed s \<Longrightarrow> flush_stale s = Some (s\<lparr>arrived := []\<rparr>)"
proof (induction "length (arrived s)" arbitrary: s rule: less_induct)
  case less
  show ?case
  proof (cases "arrived s = []")
    case True
    with less.prems show ?thesis by (subst flush_stale.simps) (cases s, simp)
  next
    case False
    let ?s = "s\<lparr>arrived := drop RECV_SIZE (arrived s)\<rparr>"
    have "flush_stale ?s = Some (?s\<lparr>arrived := []\<rparr>)"
      by (rule less.hyps) (use False less.prems in \<open>auto simp: RECV_SIZE_def\<close>)
    with False show ?thesis by (subst flush_stale.simps) simp
  qed
qed

lemma flush_stale_closed: "flush_stale s = Some s' \<Longrightarrow> \<not> peer_closed s"
  by (rule flush_stale.raw_induct[where P = "\<lambda>s _. \<not> peer_closed s"]) (fastforce split: if_splits)+

lemma split_first_append: "c \<in> set a \<Longrightarrow> fst (split_first c (a @ b)) = fst (split_first c a)"
  by (induction a) (auto split: prod.splits)

lemma read_reply_line:
  "newline \<in> set (concat ds) \<Longrightarrow>
   \<exists>rest. read_reply got (map Bytes ds @ l) = Some (decode_strip (fst (split_first newline (got @ concat ds))), rest)"
proof (induction ds arbitrary: got)
  case (Cons d ds)
  show ?case
  proof (cases "newline \<in> set (got @ d)")
    case True
    with split_first_append[OF True, of "concat ds"] show ?thesis by simp
  next
    case False
    with Cons.prems Cons.IH[of "got @ d"] show ?thesis by simp
  qed
qed simp

lemma read_reply_waits:
  "newline \<notin> set (got @ concat ds) \<Longrightarrow> read_reply got (map Bytes ds) = None"
  by (induction ds arbitrary: got) auto

subsection \<open>Properties\<close>

text \<open>C34: a TCP query to a connected instrument returns the first line of what it answers, stripped, however
  the answer is cut into packets; what had arrived before the command was sent is thrown away.\<close>

theorem socket_query_reply:
  assumes "\<not> peer_closed s" "send_fails s = None" "arrivals s = map Bytes ds @ l" "newline \<in> set (concat ds)"
  shows "\<exists>s'. socket_query command s = Some (decode_strip (fst (split_first newline (concat ds))), s')
              \<and> arrived s' = [] \<and> written s' = written s @ command @ [newline]"
  using assms read_reply_line[OF assms(4), of "[]" l]
  by (auto simp: socket_query_def flush_stale_open socket_send_def)

theorem socket_query_reply_witness:
  "\<exists>s'. socket_query ''*IDN?'' ((new_sock (f_of_int 5))\<lparr>arrived := ''old'', arrivals := [Bytes ''A,B'', Bytes [CHR ''C'', newline, CHR ''D'']]\<rparr>)
          = Some (decode_strip ''A,BC'', s') \<and> arrived s' = [] \<and> written s' = ''*IDN?'' @ [newline]"
  using socket_query_reply[of "(new_sock (f_of_int 5))\<lparr>arrived := ''old'', arrivals := [Bytes ''A,B'', Bytes [CHR ''C'', newline, CHR ''D'']]\<rparr>"
      "[''A,B'', [CHR ''C'', newline, CHR ''D'']]" "[]" "''*IDN?''"]
  by (simp add: new_sock_def newline_def)

text \<open>A TCP query has no time limit of its own: it never returns when the peer has closed the connection
  (the loop that discards stale data spins), nor when the answer has no line end, whatever timeout the
  transport was opened with.\<close>

lemma socket_query_hangs:
  assumes "peer_closed s \<or> (send_fails s = None \<and> arrivals s = map Bytes ds \<and> newline \<notin> set (concat ds))"
  shows "socket_query command s = None"
proof (cases "peer_closed s")
  case True
  then have "flush_stale s = None" using flush_stale_closed[of s] by (cases "flush_stale s") auto
  then show ?thesis by (simp add: socket_query_def)
next
  case False
  with assms read_reply_waits[of "[]" ds] show ?thesis
    by (simp add: socket_query_def flush_stale_open socket_send_def)
qed

lemma socket_query_hangs_witness:
  "socket_query ''*IDN?'' ((new_sock (f_of_int 5))\<lparr>peer_closed := True\<rparr>) = None
   \<and> socket_query ''*IDN?'' (new_sock (f_of_int 5)) = None"
  using socket_query_hangs[of "(new_sock (f_of_int 5))\<lparr>peer_closed := True\<rparr>" "[]" "''*IDN?''"]
    socket_query_hangs[of "new_sock (f_of_int 5)" "[]" "''*IDN?''"]
  by (simp add: new_sock_def)

end
