(* ===== verification/ClientPipeline.thy ===== *)
theory ClientPipeline
  imports ClientApi
begin

text \<open>
  The class \<open>Pipeline\<close> of \<open>testcore_client/client.py\<close>: commands and the functions that translate their
  replies are queued, and \<open>execute\<close> sends them in one write.
\<close>

record pipeline =
  commands :: "string list list"
  parsers :: "(resp \<Rightarrow> api_exn + pyval) list"

definition new_pipeline :: pipeline where
  "new_pipeline = \<lparr> commands = [], parsers = [] \<rparr>"

type_synonym pipe_call = "pipeline \<Rightarrow> api_exn + pipeline"

definition BLOCKED :: "string list" where
  "BLOCKED =
     [''DUMP'', ''JOURNAL'', ''MONITOR'', ''SUBSCRIBE'', ''UNSUBSCRIBE'', ''IINFO'', ''IRESOURCES'', ''IPING'',
      ''ILOCKED'', ''DRIVER'']"

definition queue :: "(resp \<Rightarrow> api_exn + pyval) \<Rightarrow> string list \<Rightarrow> pipe_call" where
  "queue parse args p =
     (let cmd_name = (case args of [] \<Rightarrow> [] | a # _ \<Rightarrow> upper a) in
      if cmd_name \<in> set BLOCKED
      then Inl (TestCoreError (''command '' @ squote # cmd_name @ squote # '' cannot be used in a pipeline''))
      else Inr (p\<lparr>commands := commands p @ [args], parsers := parsers p @ [parse]\<rparr>))"

definition pipe_refuse :: "api_exn \<Rightarrow> pipe_call" where
  "pipe_refuse e p = Inl e"

text \<open>The commands that were queued stay queued when they could not be sent.\<close>

definition execute :: "pipeline \<Rightarrow> connection \<Rightarrow> (api_exn + (api_exn + pyval) list) \<times> pipeline \<times> connection" where
  "execute p c =
     (if commands p = [] then (Inr [], p, c)
      else case send_pipeline (commands p) c of
        (Inl e, c1) \<Rightarrow> (Inl (Remote e), p, c1)
      | (Inr raw, c1) \<Rightarrow>
          (Inr (map2 (\<lambda>r parse. case r of Inl e \<Rightarrow> Inl (Remote e) | Inr v \<Rightarrow> parse v) raw (parsers p)),
           new_pipeline, c1))"

definition pipe_reset :: "pipeline \<Rightarrow> pipeline" where
  "pipe_reset p = new_pipeline"

definition pipe_len :: "pipeline \<Rightarrow> nat" where
  "pipe_len p = length (commands p)"

subsection \<open>Methods\<close>

definition pipe_ping :: "string option \<Rightarrow> pipe_call" where
  "pipe_ping message =
     (case message of Some m \<Rightarrow> queue parse_identity [''PING'', m] | None \<Rightarrow> queue parse_pong [''PING''])"

definition pipe_kset :: "string \<Rightarrow> arg \<Rightarrow> bool \<Rightarrow> bool \<Rightarrow> bool \<Rightarrow> pipe_call" where
  "pipe_kset key v nx xx ro =
     queue parse_ok ([''KSET'', key, str_arg v]
                     @ (if nx then [''NX''] else if xx then [''XX''] else [])
                     @ (if ro then [''RO''] else []))"

definition pipe_kget :: "string \<Rightarrow> pipe_call" where
  "pipe_kget key = queue parse_identity [''KGET'', key]"

definition pipe_kmget :: "string list \<Rightarrow> pipe_call" where
  "pipe_kmget keys = queue parse_identity (''KMGET'' # keys)"

definition pipe_kmset :: "(string \<times> arg) list option \<Rightarrow> (string \<times> arg) list \<Rightarrow> pipe_call" where
  "pipe_kmset mapping kwargs =
     queue parse_ok (''KMSET'' # concat (map (\<lambda>(k, v). [k, str_arg v]) (pairs_given mapping kwargs)))"

definition pipe_kdel :: "string list \<Rightarrow> pipe_call" where
  "pipe_kdel keys = queue parse_identity (''KDEL'' # keys)"

definition pipe_kexists :: "string list \<Rightarrow> pipe_call" where
  "pipe_kexists keys = queue parse_identity (''KEXISTS'' # keys)"

definition pipe_kkeys :: "string \<Rightarrow> pipe_call" where
  "pipe_kkeys pat = queue parse_list [''KKEYS'', pat]"

definition pipe_kdbsize :: pipe_call where
  "pipe_kdbsize = queue parse_identity [''KDBSIZE'']"

definition pipe_kflush :: pipe_call where
  "pipe_kflush = queue parse_ok [''KFLUSH'']"

definition pipe_kgetall :: "string option \<Rightarrow> pipe_call" where
  "pipe_kgetall pre = queue parse_getall (''KGETALL'' # opt_word pre)"

definition pipe_iadd :: "string \<Rightarrow> string \<Rightarrow> string option \<Rightarrow> (string \<times> arg) list \<Rightarrow> pipe_call" where
  "pipe_iadd name drv addr kwargs = queue parse_ok (iadd_words name drv addr kwargs)"

definition pipe_iremove :: "string \<Rightarrow> pipe_call" where
  "pipe_iremove name = queue parse_ok [''IREMOVE'', name]"

definition pipe_ilist :: pipe_call where
  "pipe_ilist = queue parse_list [''ILIST'']"

definition pipe_bench :: pipe_call where
  "pipe_bench = queue parse_bench [''BENCH'']"

definition pipe_ilock :: "string list \<Rightarrow> pipe_call" where
  "pipe_ilock names = queue parse_ok (''ILOCK'' # names)"

definition pipe_iunlock :: "string list \<Rightarrow> pipe_call" where
  "pipe_iunlock names = queue parse_ok (''IUNLOCK'' # names)"

definition pipe_iinit :: "string \<Rightarrow> string option \<Rightarrow> bool \<Rightarrow> pipe_call" where
  "pipe_iinit name path selftest = queue parse_ok (iinit_words name path selftest)"

definition pipe_iread :: "string \<Rightarrow> bool \<Rightarrow> pipe_call" where
  "pipe_iread target meas =
     (case split_target target of
        Inl e \<Rightarrow> pipe_refuse e
      | Inr (inst, res) \<Rightarrow> queue parse_identity ([''IREAD'', inst, res] @ (if meas then [''MEAS''] else [])))"

definition pipe_imread :: "string list \<Rightarrow> pipe_call" where
  "pipe_imread targets =
     (case split_targets targets of Inl e \<Rightarrow> pipe_refuse e | Inr addrs \<Rightarrow> queue parse_mread (''IMREAD'' # addrs))"

definition pipe_iwrite :: "string \<Rightarrow> arg \<Rightarrow> pipe_call" where
  "pipe_iwrite target v =
     (case split_target target of
        Inl e \<Rightarrow> pipe_refuse e
      | Inr (inst, res) \<Rightarrow> queue parse_ok [''IWRITE'', inst, res, str_arg v])"

definition pipe_iraw :: "string \<Rightarrow> pipe_call" where
  "pipe_iraw target =
     (case split_target target of
        Inl e \<Rightarrow> pipe_refuse e
      | Inr (inst, command) \<Rightarrow> queue parse_raw [''IRAW'', inst, command])"

definition pipe_iload :: "string \<Rightarrow> string \<Rightarrow> pipe_call" where
  "pipe_iload target path =
     (case split_target target of
        Inl e \<Rightarrow> pipe_refuse e
      | Inr (inst, res) \<Rightarrow> queue parse_identity [''ILOAD'', inst, res, path])"

definition pipe_isave :: "string \<Rightarrow> string \<Rightarrow> pipe_call" where
  "pipe_isave target path =
     (case split_target target of
        Inl e \<Rightarrow> pipe_refuse e
      | Inr (inst, res) \<Rightarrow> queue parse_identity [''ISAVE'', inst, res, path])"

definition pipe_ireset :: "string \<Rightarrow> pipe_call" where
  "pipe_ireset name = queue parse_ok [''IRESET'', name]"

definition pipe_iwait :: "string \<Rightarrow> pipe_call" where
  "pipe_iwait name = queue parse_ok [''IWAIT'', name]"

definition pipe_iwatch :: "string \<Rightarrow> int \<Rightarrow> arg option \<Rightarrow> arg option \<Rightarrow> pipe_call" where
  "pipe_iwatch target interval lo hi =
     (case split_target target of
        Inl e \<Rightarrow> pipe_refuse e
      | Inr (inst, res) \<Rightarrow> queue parse_ok ([''IWATCH'', inst, res, show_int interval] @ limit_words lo hi))"

definition pipe_iunwatch :: "string list \<Rightarrow> pipe_call" where
  "pipe_iunwatch args = queue parse_ok (''IUNWATCH'' # args)"

definition pipe_iwatches :: "string option \<Rightarrow> pipe_call" where
  "pipe_iwatches inst = queue parse_list (''IWATCHES'' # opt_word inst)"

definition pipe_ialign :: "string list \<Rightarrow> pipe_call" where
  "pipe_ialign names = queue parse_ok (''IALIGN'' # names)"

definition pipe_mget :: "string \<Rightarrow> pipe_call" where
  "pipe_mget target =
     (case split_target target of
        Inl e \<Rightarrow> pipe_refuse e
      | Inr (inst, res) \<Rightarrow> queue parse_meas_get [''MGET'', inst, res])"

definition pipe_mgetall :: "string option \<Rightarrow> pipe_call" where
  "pipe_mgetall inst = queue parse_meas_getall (''MGETALL'' # opt_word inst)"

definition pipe_mkeys :: "string option \<Rightarrow> pipe_call" where
  "pipe_mkeys inst = queue parse_list (''MKEYS'' # opt_word inst)"

subsection \<open>A pipeline is its commands one after another\<close>

text \<open>A call of a pipeline that does the same as the call of the class: it raises the same exception, or it
  queues the command the other one sends, with the same translation of the reply.\<close>

definition mirrors :: "pipe_call \<Rightarrow> api_call \<Rightarrow> bool" where
  "mirrors pipe call =
     ((\<exists>e. (\<forall>p. pipe p = Inl e) \<and> (\<forall>c. call c = (Inl e, c)))
      \<or> (\<exists>parse args. (\<forall>p. pipe p = Inr (p\<lparr>commands := commands p @ [args], parsers := parsers p @ [parse]\<rparr>))
                     \<and> (\<forall>c. call c = ask parse args c)))"

lemma read_results_outgoing: "sends d \<Longrightarrow> outgoing (snd (read_results n d)) = outgoing d"
proof (induction n arbitrary: d)
  case (Suc n)
  obtain r d' where r: "read_response d = (r, d')" by fastforce
  with read_response_sends[OF Suc.prems r] Suc.IH[of d'] show ?case by (cases "read_results n d'") simp
qed simp

fun run_calls :: "api_call list \<Rightarrow> connection \<Rightarrow> (api_exn + pyval) list \<times> connection" where
  "run_calls [] c = ([], c)"
| "run_calls (f # fs) c = (case f c of (r, c1) \<Rightarrow> (case run_calls fs c1 of (rs, c2) \<Rightarrow> (r # rs, c2)))"

definition translated :: "(client_exn + resp) list \<Rightarrow> (resp \<Rightarrow> api_exn + pyval) list \<Rightarrow> (api_exn + pyval) list" where
  "translated raw ps = map2 (\<lambda>r parse. case r of Inl e \<Rightarrow> Inl (Remote e) | Inr v \<Rightarrow> parse v) raw ps"

lemma calls_read:
  assumes "sends c"
  shows "case read_results (length qs) c of (rs, c') \<Rightarrow>
           (case run_calls (map (\<lambda>(args, parse). ask parse args) qs) (c\<lparr>outgoing := o'\<rparr>) of (vs, c'') \<Rightarrow>
              vs = translated rs (map snd qs)
              \<and> (sock_open c' \<longrightarrow> sock_open c \<and> outgoing c'' = o' @ pipeline_bytes (map fst qs)))"
  using assms
proof (induction qs arbitrary: c o')
  case Nil
  show ?case by (simp add: translated_def pipeline_bytes_def)
next
  case (Cons q qs)
  obtain args parse where q: "q = (args, parse)" by fastforce
  let ?o = "if sock_open c then o' @ encode_command args else o'"
  obtain r c1 where r: "read_response c = (r, c1)" by fastforce
  from read_response_sends[OF Cons.prems r] have c1: "sends c1" "sock_open c1 \<longrightarrow> sock_open c" by auto
  have a: "ask parse args (c\<lparr>outgoing := o'\<rparr>)
      = ((case r of Inl e \<Rightarrow> Inl (Remote e) | Inr v \<Rightarrow> parse v), c1\<lparr>outgoing := ?o\<rparr>)"
    using Cons.prems r read_response_closed[OF Cons.prems]
    by (auto simp: ask_def send_command_def send_packed_def sends_def read_response_outgoing split: sum.splits)
  obtain rs c2 where rs: "read_results (length qs) c1 = (rs, c2)" by fastforce
  obtain vs c3 where vs: "run_calls (map (\<lambda>(args, parse). ask parse args) qs) (c1\<lparr>outgoing := ?o\<rparr>) = (vs, c3)" by fastforce
  from Cons.IH[OF c1(1), of ?o] rs vs
  have "vs = translated rs (map snd qs)"
    "sock_open c2 \<longrightarrow> sock_open c1 \<and> outgoing c3 = ?o @ pipeline_bytes (map fst qs)" by auto
  with a r rs vs c1 show ?case by (auto simp: q translated_def pipeline_bytes_def)
qed

subsection \<open>Properties\<close>

lemma queue_allowed:
  "upper w \<notin> set BLOCKED \<Longrightarrow>
   queue parse (w # ws) p = Inr (p\<lparr>commands := commands p @ [w # ws], parsers := parsers p @ [parse]\<rparr>)"
  by (simp add: queue_def)

lemma words_allowed:
  "list_all (\<lambda>w. upper w \<notin> set BLOCKED)
     [''PING'', ''KSET'', ''KGET'', ''KMGET'', ''KMSET'', ''KDEL'', ''KEXISTS'', ''KKEYS'', ''KDBSIZE'', ''KFLUSH'', ''KGETALL'',
      ''IADD'', ''IREMOVE'', ''ILIST'', ''BENCH'', ''ILOCK'', ''IUNLOCK'', ''IINIT'', ''IREAD'', ''IMREAD'', ''IWRITE'', ''IRAW'',
      ''ILOAD'', ''ISAVE'', ''IRESET'', ''IWAIT'', ''IWATCH'', ''IUNWATCH'', ''IWATCHES'', ''IALIGN'', ''MGET'', ''MGETALL'', ''MKEYS'']"
  by code_simp

text \<open>The words above are allowed, hence the commands that start with them are queued.\<close>

lemmas allowed = words_allowed[unfolded list.pred_inject]

lemma mirrors_queue:
  "upper w \<notin> set BLOCKED \<Longrightarrow> mirrors (queue parse (w # ws)) (ask parse (w # ws))"
  unfolding mirrors_def by (rule disjI2, rule exI[of _ parse], rule exI[of _ "w # ws"]) (simp add: queue_allowed)

lemma mirrors_refuse: "mirrors (pipe_refuse e) (refuse e)"
  by (auto simp: mirrors_def pipe_refuse_def refuse_def)

lemma mirrors_split:
  "(\<And>a b. mirrors (f a b) (g a b))
   \<Longrightarrow> mirrors (case split_target t of Inl e \<Rightarrow> pipe_refuse e | Inr (a, b) \<Rightarrow> f a b)
               (case split_target t of Inl e \<Rightarrow> refuse e | Inr (a, b) \<Rightarrow> g a b)"
  by (cases "split_target t") (auto intro: mirrors_refuse)

lemma mirrors_unchecked:
  assumes "upper w \<notin> set BLOCKED"
  shows "mirrors (queue parse (w # ws)) (if b then refuse ValueError else ask parse (w # ws)) \<longleftrightarrow> \<not> b"
proof
  assume m: "mirrors (queue parse (w # ws)) (if b then refuse ValueError else ask parse (w # ws))"
  have "ask f args (close_connection c) \<noteq> refuse ValueError (close_connection c)" for f args c
    by (simp add: ask_def send_command_def send_packed_def close_connection_def refuse_def)
  moreover from m assms obtain f args where "\<forall>c. (if b then refuse ValueError else ask parse (w # ws)) c = ask f args c"
    by (auto simp: mirrors_def queue_allowed)
  ultimately show "\<not> b" by metis
qed (use mirrors_queue[OF assms] in simp)

lemma kv_mirrors:
  "mirrors (pipe_kset k v nx xx ro) (tc_kset k v nx xx ro)" "mirrors (pipe_kget k) (tc_kget k)"
  "mirrors (pipe_kmget ks) (tc_kmget ks)" "mirrors (pipe_kmset d kw) (tc_kmset d kw)"
  "mirrors (pipe_kdel ks) (tc_kdel ks)" "mirrors (pipe_kexists ks) (tc_kexists ks)" "mirrors (pipe_kkeys k) (tc_kkeys k)"
  "mirrors pipe_kdbsize tc_kdbsize" "mirrors pipe_kflush tc_kflush" "mirrors (pipe_kgetall o') (tc_kgetall o')"
  unfolding pipe_kset_def tc_kset_def pipe_kget_def tc_kget_def pipe_kmget_def tc_kmget_def
    pipe_kmset_def tc_kmset_def pipe_kdel_def tc_kdel_def pipe_kexists_def tc_kexists_def pipe_kkeys_def tc_kkeys_def
    pipe_kdbsize_def tc_kdbsize_def pipe_kflush_def tc_kflush_def pipe_kgetall_def tc_kgetall_def append.simps
  by (intro mirrors_queue; simp add: allowed)+

lemma ping_mirrors: "mirrors (pipe_ping m) (tc_ping m)"
  using allowed unfolding pipe_ping_def tc_ping_def by (cases m) (auto intro: mirrors_queue)

lemma name_mirrors:
  "mirrors (pipe_iremove k) (tc_iremove k)" "mirrors pipe_ilist tc_ilist" "mirrors pipe_bench tc_bench"
  "mirrors (pipe_ilock ks) (tc_ilock ks)" "mirrors (pipe_iunlock ks) (tc_iunlock ks)"
  "mirrors (pipe_iinit k o' nx) (tc_iinit k o' nx)" "mirrors (pipe_ireset k) (tc_ireset k)"
  "mirrors (pipe_iwait k) (tc_iwait k)" "mirrors (pipe_iunwatch ks) (tc_iunwatch ks)"
  "mirrors (pipe_iwatches o') (tc_iwatches o')" "mirrors (pipe_mgetall o') (tc_mgetall o')"
  "mirrors (pipe_mkeys o') (tc_mkeys o')"
  unfolding pipe_iremove_def tc_iremove_def pipe_ilist_def tc_ilist_def pipe_bench_def tc_bench_def pipe_ilock_def tc_ilock_def
    pipe_iunlock_def tc_iunlock_def pipe_iinit_def tc_iinit_def iinit_words_def pipe_ireset_def tc_ireset_def
    pipe_iwait_def tc_iwait_def pipe_iunwatch_def tc_iunwatch_def pipe_iwatches_def tc_iwatches_def
    pipe_mgetall_def tc_mgetall_def pipe_mkeys_def tc_mkeys_def append.simps
  by (intro mirrors_queue; simp add: allowed)+

lemma target_mirrors:
  "mirrors (pipe_iread k nx) (tc_iread k nx)" "mirrors (pipe_iwrite k v) (tc_iwrite k v)" "mirrors (pipe_iraw k) (tc_iraw k)"
  "mirrors (pipe_iload k k') (tc_iload k k')" "mirrors (pipe_isave k k') (tc_isave k k')"
  "mirrors (pipe_iwatch k n lo hi) (tc_iwatch k n lo hi)" "mirrors (pipe_mget k) (tc_mget k)"
  unfolding pipe_iread_def tc_iread_def pipe_iwrite_def tc_iwrite_def pipe_iraw_def tc_iraw_def pipe_iload_def tc_iload_def
    pipe_isave_def tc_isave_def pipe_iwatch_def tc_iwatch_def pipe_mget_def tc_mget_def append.simps
  by (intro mirrors_split mirrors_queue; simp add: allowed)+

lemma mread_mirrors: "mirrors (pipe_imread ks) (tc_imread ks)"
  using allowed unfolding pipe_imread_def tc_imread_def
  by (cases "split_targets ks") (auto intro: mirrors_queue mirrors_refuse)

lemma unchecked_mirrors:
  "mirrors (pipe_iadd k k' o' kw) (tc_iadd k k' o' kw) \<longleftrightarrow> \<not> contains k '' ''"
  "mirrors (pipe_ialign ks) (tc_ialign ks) \<longleftrightarrow> ks \<noteq> []"
proof -
  have add: "pipe_iadd k k' o' kw = queue parse_ok (''IADD'' # tl (iadd_words k k' o' kw))"
    "tc_iadd k k' o' kw
       = (if contains k '' '' then refuse ValueError else ask parse_ok (''IADD'' # tl (iadd_words k k' o' kw)))"
    by (simp_all add: pipe_iadd_def tc_iadd_def iadd_words_def)
  show "mirrors (pipe_iadd k k' o' kw) (tc_iadd k k' o' kw) \<longleftrightarrow> \<not> contains k '' ''"
    unfolding add by (rule mirrors_unchecked) (simp add: allowed)
  have "tc_ialign ks = (if ks = [] then refuse ValueError else ask parse_ok (''IALIGN'' # ks))"
    by (simp add: tc_ialign_def)
  moreover have "mirrors (queue parse_ok (''IALIGN'' # ks)) (if ks = [] then refuse ValueError else ask parse_ok (''IALIGN'' # ks))
      \<longleftrightarrow> \<not> ks = []"
    by (rule mirrors_unchecked) (simp add: allowed)
  ultimately show "mirrors (pipe_ialign ks) (tc_ialign ks) \<longleftrightarrow> ks \<noteq> []" by (simp only: pipe_ialign_def)
qed

text \<open>C39: every method of a pipeline is the method of the same name of the class: it raises the same exception
  for the same arguments, or it queues the very command the other one sends together with the same
  translation of the reply.  Two checks are missing: \<open>iadd\<close> accepts a name with a space and \<open>ialign\<close> no
  name at all.\<close>

theorem pipeline_methods_mirror:
  "mirrors (pipe_ping m) (tc_ping m) \<and> mirrors (pipe_kset k v nx xx ro) (tc_kset k v nx xx ro)
   \<and> mirrors (pipe_kget k) (tc_kget k) \<and> mirrors (pipe_kmget ks) (tc_kmget ks) \<and> mirrors (pipe_kmset d kw) (tc_kmset d kw)
   \<and> mirrors (pipe_kdel ks) (tc_kdel ks) \<and> mirrors (pipe_kexists ks) (tc_kexists ks) \<and> mirrors (pipe_kkeys k) (tc_kkeys k)
   \<and> mirrors pipe_kdbsize tc_kdbsize \<and> mirrors pipe_kflush tc_kflush \<and> mirrors (pipe_kgetall o') (tc_kgetall o')
   \<and> mirrors (pipe_iremove k) (tc_iremove k) \<and> mirrors pipe_ilist tc_ilist \<and> mirrors pipe_bench tc_bench
   \<and> mirrors (pipe_ilock ks) (tc_ilock ks) \<and> mirrors (pipe_iunlock ks) (tc_iunlock ks)
   \<and> mirrors (pipe_iinit k o' nx) (tc_iinit k o' nx) \<and> mirrors (pipe_iread k nx) (tc_iread k nx)
   \<and> mirrors (pipe_imread ks) (tc_imread ks) \<and> mirrors (pipe_iwrite k v) (tc_iwrite k v) \<and> mirrors (pipe_iraw k) (tc_iraw k)
   \<and> mirrors (pipe_iload k k') (tc_iload k k') \<and> mirrors (pipe_isave k k') (tc_isave k k')
   \<and> mirrors (pipe_ireset k) (tc_ireset k) \<and> mirrors (pipe_iwait k) (tc_iwait k)
   \<and> mirrors (pipe_iwatch k n lo hi) (tc_iwatch k n lo hi) \<and> mirrors (pipe_iunwatch ks) (tc_iunwatch ks)
   \<and> mirrors (pipe_iwatches o') (tc_iwatches o') \<and> mirrors (pipe_mget k) (tc_mget k)
   \<and> mirrors (pipe_mgetall o') (tc_mgetall o') \<and> mirrors (pipe_mkeys o') (tc_mkeys o')
   \<and> (mirrors (pipe_iadd k k' o' kw) (tc_iadd k k' o' kw) \<longleftrightarrow> \<not> contains k '' '')
   \<and> (mirrors (pipe_ialign ks) (tc_ialign ks) \<longleftrightarrow> ks \<noteq> [])"
  by (intro conjI kv_mirrors ping_mirrors name_mirrors target_mirrors mread_mirrors unchecked_mirrors)

text \<open>C19: on a connection whose sends succeed, a pipeline gives the results of its commands sent one after another,
  an exception where the single call raises it; and unless the connection was closed on the way, the
  same bytes are sent.  The pipeline is empty afterwards.\<close>

theorem pipeline_is_sequence:
  assumes "sends c" "sock_open c" "qs \<noteq> []" "commands p = map fst qs" "parsers p = map snd qs"
  shows "case execute p c of (r, p', c') \<Rightarrow>
           (case run_calls (map (\<lambda>(args, parse). ask parse args) qs) c of (vs, c'') \<Rightarrow>
              r = Inr vs \<and> p' = new_pipeline \<and> (sock_open c' \<longrightarrow> outgoing c' = outgoing c''))"
proof -
  let ?o = "outgoing c @ pipeline_bytes (map fst qs)"
  obtain rs c1 where rs: "read_results (length qs) (c\<lparr>outgoing := ?o\<rparr>) = (rs, c1)" by fastforce
  obtain vs c2 where vs: "run_calls (map (\<lambda>(args, parse). ask parse args) qs) c = (vs, c2)" by fastforce
  have e: "execute p c = (Inr (translated rs (map snd qs)), new_pipeline, c1)"
    using assms rs by (simp add: execute_def send_pipeline_def send_packed_def sends_def translated_def)
  from calls_read[of "c\<lparr>outgoing := ?o\<rparr>" qs "outgoing c"] assms(1) rs vs
    read_results_outgoing[of "c\<lparr>outgoing := ?o\<rparr>" "length qs"] show ?thesis
    by (simp add: e)
qed

theorem pipeline_is_sequence_witness:
  "fst (execute \<lparr> commands = [[''KSET'', ''a'', ''b''], [''KDBSIZE'']], parsers = [parse_ok, parse_identity] \<rparr>
         (connect [Data ''+OK'', Data (crlf @ '':7'' @ crlf)]))
   = Inr (fst (run_calls [ask parse_ok [''KSET'', ''a'', ''b''], ask parse_identity [''KDBSIZE'']]
                 (connect [Data ''+OK'', Data (crlf @ '':7'' @ crlf)])))"
  using pipeline_is_sequence[of "connect [Data ''+OK'', Data (crlf @ '':7'' @ crlf)]"
      "[([''KSET'', ''a'', ''b''], parse_ok), ([''KDBSIZE''], parse_identity)]"
      "\<lparr> commands = [[''KSET'', ''a'', ''b''], [''KDBSIZE'']], parsers = [parse_ok, parse_identity] \<rparr>"]
  by (auto simp: sends_def connect_def split: prod.splits)

end
