(* ===== verification/ClientEvents.thy ===== *)
theory ClientEvents
  imports ClientApi Events
begin

text \<open>
  \<open>subscribe\<close> and \<open>listen\<close> of the class \<open>TestCore\<close>: the two loops that read published events.  The callback
  of \<open>subscribe\<close> is the caller's; the model gives the events it is called with, in order.  The caller of
  \<open>listen\<close> leaves its loop after \<open>limit\<close> events (at least one: before, the generator has not started).
\<close>

subsection \<open>Reading takes bytes away\<close>

lemma arriving_recv:
  "recv_more c = (None, c') \<Longrightarrow> pending c' = pending c"
  by (auto simp: recv_more_def pending_def split: if_splits list.splits recv.splits)

lemma try_parse_Nil: "try_parse [] = Inr (RNil, 0)"
  by (simp add: try_parse_def)

lemma parse_one_shorter: "parse_one c = (Inr v, c') \<Longrightarrow> length (pending c') < length (pending c)"
proof (induction c rule: parse_one.induct)
  case (1 c)
  obtain w n where w: "try_parse (conn_buffer c) = Inr (w, n)"
    using 1(2) by (auto simp: parse_one.simps[of c] split: sum.splits)
  show ?case
  proof (cases "0 < n")
    case True
    then have "conn_buffer c \<noteq> []" using w try_parse_Nil by auto
    with True 1(2) w show ?thesis by (auto simp: parse_one.simps[of c] pending_def)
  next
    case False
    obtain m c1 where m: "recv_more c = (m, c1)" by fastforce
    with False w 1(2) have "m = None" "parse_one c1 = (Inr v, c')"
      by (auto simp: parse_one.simps[of c] split: option.splits)
    with 1(1)[OF w refl False m[symmetric]] arriving_recv[of c c1] m show ?thesis by simp
  qed
qed

subsection \<open>Events\<close>

definition payload_of :: "resp \<Rightarrow> pyval" where
  "payload_of m = (case json_loads m of Inr v \<Rightarrow> v | Inl _ \<Rightarrow> VDict [(VStr ''raw'', of_resp m)])"

definition event_of :: "resp \<Rightarrow> (pyval \<times> pyval) option" where
  "event_of msg =
     (case msg of
        RList (tag # channel # payload # _) \<Rightarrow>
          if tag = RStr ''event'' then Some (of_resp channel, payload_of payload) else None
      | _ \<Rightarrow> None)"

text \<open>\<open>except (ConnectionError, KeyboardInterrupt): pass\<close>; a \<open>TimeoutError\<close> is neither.\<close>

definition passed :: "client_exn \<Rightarrow> client_exn option" where
  "passed e = (if e = ConnectionError then None else Some e)"

text \<open>The loop: the events, the exception that ends it unless it is passed over, and the connection.  With a
  limit the caller leaves after that many events.\<close>

function event_loop :: "nat option \<Rightarrow> connection \<Rightarrow> (pyval \<times> pyval) list \<times> client_exn option \<times> connection" where
  "event_loop limit c =
     (if limit = Some 0 then ([], None, c)
      else case parse_one c of
        (Inl e, c1) \<Rightarrow> ([], passed e, c1)
      | (Inr msg, c1) \<Rightarrow>
          (case event_of msg of
             None \<Rightarrow> event_loop limit c1
           | Some ev \<Rightarrow>
               (case event_loop (map_option (\<lambda>n. n - 1) limit) c1 of (evs, e, c2) \<Rightarrow> (ev # evs, e, c2))))"
  by pat_completeness auto
termination
  by (relation "measure (\<lambda>(_, c). length (pending c))") (auto dest!: parse_one_shorter[OF sym])

declare event_loop.simps [simp del]

text \<open>\<open>for _ in channels: _read_raw_response()\<close>.\<close>

fun read_confirmations :: "nat \<Rightarrow> connection \<Rightarrow> client_exn option \<times> connection" where
  "read_confirmations 0 c = (None, c)"
| "read_confirmations (Suc n) c =
     (case parse_one c of
        (Inl e, c1) \<Rightarrow> (Some e, c1)
      | (Inr _, c1) \<Rightarrow> read_confirmations n c1)"

definition start_events :: "string list \<Rightarrow> connection \<Rightarrow> api_exn option \<times> connection" where
  "start_events channels c =
     (if channels = [] then (Some ValueError, c)
      else case send_packed (encode_command (''SUBSCRIBE'' # channels)) c of
        (Some e, c1) \<Rightarrow> (Some (Remote e), c1)
      | (None, c1) \<Rightarrow> (case read_confirmations (length channels) c1 of (e, c2) \<Rightarrow> (map_option Remote e, c2)))"

definition tc_subscribe :: "string list \<Rightarrow> connection \<Rightarrow> (pyval \<times> pyval) list \<times> api_exn option \<times> connection" where
  "tc_subscribe channels c =
     (case start_events channels c of
        (Some e, c1) \<Rightarrow> ([], Some e, c1)
      | (None, c1) \<Rightarrow> (case event_loop None c1 of (evs, e, c2) \<Rightarrow> (evs, map_option Remote e, c2)))"

text \<open>The \<open>finally\<close> of \<open>listen\<close>: exceptions are swallowed.\<close>

definition stop_events :: "nat \<Rightarrow> connection \<Rightarrow> connection" where
  "stop_events n c =
     (case send_packed (encode_command [''UNSUBSCRIBE'']) c of
        (Some _, c1) \<Rightarrow> c1
      | (None, c1) \<Rightarrow> snd (read_confirmations n c1))"

definition tc_listen :: "nat \<Rightarrow> string list \<Rightarrow> connection \<Rightarrow> (pyval \<times> pyval) list \<times> api_exn option \<times> connection" where
  "tc_listen limit channels c =
     (case start_events channels c of
        (Some e, c1) \<Rightarrow> ([], Some e, c1)
      | (None, c1) \<Rightarrow>
          (case event_loop (Some limit) c1 of
             (evs, e, c2) \<Rightarrow> (evs, map_option Remote e, stop_events (length channels) c2)))"

subsection \<open>What the loops deliver\<close>

text \<open>A connection in order: open, sending, and receiving bytes only.\<close>

definition fine :: "connection \<Rightarrow> bool" where
  "fine c = (healthy c \<and> sends c)"

text \<open>The same connection with more to come: what the reading of complete replies does not reach.\<close>

definition until :: "recv list \<Rightarrow> connection \<Rightarrow> connection" where
  "until later c = c\<lparr>incoming := incoming c @ later\<rparr>"

lemma until_simps [simp]:
  "until [] c = c" "conn_buffer (until later c) = conn_buffer c" "sock_open (until later c) = sock_open c"
  "outgoing (until later c) = outgoing c" "until later c\<lparr>conn_buffer := b\<rparr> = until later (c\<lparr>conn_buffer := b\<rparr>)"
  "until later c\<lparr>outgoing := o'\<rparr> = until later (c\<lparr>outgoing := o'\<rparr>)"
  by (simp_all add: until_def)

lemma recv_more_until: "recv_more c = (None, c1) \<Longrightarrow> recv_more (until later c) = (None, until later c1)"
  by (auto simp: recv_more_def until_def split: if_splits list.splits recv.splits)

lemma parse_one_until: "parse_one c = (Inr v, c') \<Longrightarrow> parse_one (until later c) = (Inr v, until later c')"
proof (induction c arbitrary: c' rule: parse_one.induct)
  case (1 c)
  obtain w n where w: "try_parse (conn_buffer c) = Inr (w, n)"
    using 1(2) by (auto simp: parse_one.simps[of c] split: sum.splits)
  show ?case
  proof (cases "0 < n")
    case True
    with 1(2) w show ?thesis by (auto simp: parse_one.simps[of c] parse_one.simps[of "until later c"])
  next
    case False
    obtain m c1 where m: "recv_more c = (m, c1)" by fastforce
    with False w 1(2) have n: "m = None" "parse_one c1 = (Inr v, c')"
      by (auto simp: parse_one.simps[of c] split: option.splits)
    from 1(1)[OF w refl False m[symmetric] n(1) n(2)] recv_more_until[of c c1 later] m n(1) w False
    show ?thesis by (simp add: parse_one.simps[of "until later c"])
  qed
qed

lemma parse_one_fine:
  assumes "reply_good x" "fine c" "pending c = reply_bytes x @ rest"
  shows "\<exists>c'. parse_one (until later c) = (Inr (reply_value x), until later c') \<and> fine c' \<and> pending c' = rest \<and> outgoing c' = outgoing c"
proof -
  obtain c' where c': "parse_one c = (Inr (reply_value x), c')" "healthy c'" "pending c' = rest"
    using parse_one_reply[OF assms(1) _ assms(3)] assms(2) by (auto simp: fine_def)
  with parse_one_sends[of c "Inr (reply_value x)" c'] assms(2) parse_one_until[OF c'(1), of later] show ?thesis
    by (auto simp: fine_def)
qed

lemma read_confirmations_fine:
  "list_all reply_good rs \<Longrightarrow> fine c \<Longrightarrow> pending c = concat (map reply_bytes rs) @ rest \<Longrightarrow>
   \<exists>c'. read_confirmations (length rs) (until later c) = (None, until later c') \<and> fine c' \<and> pending c' = rest
        \<and> outgoing c' = outgoing c"
proof (induction rs arbitrary: c)
  case (Cons x rs)
  from parse_one_fine[of x c "concat (map reply_bytes rs) @ rest" later] Cons.prems obtain c1
    where c1: "parse_one (until later c) = (Inr (reply_value x), until later c1)" "fine c1"
      "pending c1 = concat (map reply_bytes rs) @ rest" "outgoing c1 = outgoing c" by auto
  with Cons.IH[of c1] Cons.prems(1) show ?case by auto
qed auto

lemma send_fine: "fine c \<Longrightarrow> send_packed data (until later c) = (None, until later (c\<lparr>outgoing := outgoing c @ data\<rparr>))"
  by (simp add: send_packed_def fine_def healthy_def sends_def until_def)

lemma fine_outgoing [simp]: "fine (c\<lparr>outgoing := o'\<rparr>) = fine c" "pending (c\<lparr>outgoing := o'\<rparr>) = pending c"
  by (simp_all add: fine_def healthy_def sends_def pending_def)

text \<open>After the last byte: the peer closes the connection, or it breaks.\<close>

lemma parse_one_ended:
  assumes "fine c" "pending c = []" "ending \<in> {Data [], OsError}"
  shows "parse_one (until [ending] c) = (Inl ConnectionError, close_connection (c\<lparr>incoming := []\<rparr>))"
proof -
  have "incoming c = []" using assms(1,2) by (cases "incoming c") (auto simp: fine_def healthy_def pending_def)
  with assms show ?thesis
    by (subst parse_one.simps) (auto simp: fine_def healthy_def pending_def try_parse_Nil recv_more_def until_def)
qed

lemma start_events_fine:
  assumes "fine c" "channels \<noteq> []" "list_all reply_good confs" "length confs = length channels"
    and "pending c = concat (map reply_bytes confs) @ rest"
  shows "\<exists>c'. start_events channels (until later c) = (None, until later c') \<and> fine c' \<and> pending c' = rest
           \<and> outgoing c' = outgoing c @ encode_command (''SUBSCRIBE'' # channels)"
  using read_confirmations_fine[OF assms(3) _ , of "c\<lparr>outgoing := outgoing c @ encode_command (''SUBSCRIBE'' # channels)\<rparr>" rest later]
    assms by (auto simp: start_events_def send_fine)

text \<open>Published events, as the server writes them and as the client sees them.\<close>

definition event_reply :: "string \<times> json \<Rightarrow> reply" where
  "event_reply ev = (case ev of (channel, payload) \<Rightarrow> Items [AStr ''event'', AStr channel, AStr (dumps payload)])"

definition event_good :: "string \<times> json \<Rightarrow> bool" where
  "event_good ev = (case ev of (channel, payload) \<Rightarrow> utf8_valid channel \<and> json_good payload)"

definition seen_event :: "string \<times> json \<Rightarrow> pyval \<times> pyval" where
  "seen_event ev = (case ev of (channel, payload) \<Rightarrow> (VStr channel, of_json payload))"

lemma event_reply_bytes: "reply_bytes (event_reply (channel, payload)) = event_message channel payload"
  by (simp add: event_reply_def event_message_def array_strs_def)

lemma event_reply_good: "event_good ev \<Longrightarrow> reply_good (event_reply ev)"
proof -
  have "utf8_valid ''event''" by code_simp
  then show "event_good ev \<Longrightarrow> ?thesis" by (cases ev) (simp add: event_good_def event_reply_def dumps_valid del: utf8_valid.simps)
qed

lemma event_reply_seen: "event_good ev \<Longrightarrow> event_of (reply_value (event_reply ev)) = Some (seen_event ev)"
  by (cases ev) (auto simp: event_good_def event_reply_def event_of_def payload_of_def json_loads_def loads_dumps seen_event_def)

lemma event_loop_events:
  "list_all event_good evs \<Longrightarrow> fine c \<Longrightarrow> pending c = concat (map (\<lambda>ev. reply_bytes (event_reply ev)) evs) @ rest \<Longrightarrow>
   \<exists>c'. fine c' \<and> pending c' = rest \<and> outgoing c' = outgoing c
     \<and> event_loop (map_option (\<lambda>n. n + length evs) limit) (until later c)
         = (case event_loop limit (until later c') of (es, e, c2) \<Rightarrow> (map seen_event evs @ es, e, c2))"
proof (induction evs arbitrary: c)
  case Nil
  then show ?case by (intro exI[of _ c]) (simp add: option.map_ident split: prod.splits)
next
  case (Cons ev evs)
  have g: "event_good ev" using Cons.prems(1) by simp
  from parse_one_fine[OF event_reply_good[OF g] Cons.prems(2), of "concat (map (\<lambda>ev. reply_bytes (event_reply ev)) evs) @ rest" later]
  obtain c1 where c1: "parse_one (until later c) = (Inr (reply_value (event_reply ev)), until later c1)" "fine c1"
      "pending c1 = concat (map (\<lambda>ev. reply_bytes (event_reply ev)) evs) @ rest" "outgoing c1 = outgoing c"
    using Cons.prems(3) by auto
  from Cons.IH[OF _ c1(2,3)] Cons.prems(1) c1(4) obtain c' where c': "fine c'" "pending c' = rest" "outgoing c' = outgoing c"
    "event_loop (map_option (\<lambda>n. n + length evs) limit) (until later c1)
       = (case event_loop limit (until later c') of (es, e, c2) \<Rightarrow> (map seen_event evs @ es, e, c2))" by auto
  have "map_option (\<lambda>n. n - 1) (map_option (\<lambda>n. n + length (ev # evs)) limit) = map_option (\<lambda>n. n + length evs) limit"
    by (cases limit) simp_all
  then have "event_loop (map_option (\<lambda>n. n + length (ev # evs)) limit) (until later c)
      = (case event_loop (map_option (\<lambda>n. n + length evs) limit) (until later c1) of (es, e, c2) \<Rightarrow> (seen_event ev # es, e, c2))"
    using c1(1) event_reply_seen[OF g] by (subst event_loop.simps) (cases limit; simp)
  with c' show ?case by (auto split: prod.splits)
qed

subsection \<open>Properties\<close>

text \<open>C23: a subscriber's callback gets exactly the published events, in order, each with its channel and with the
  payload the server published, however the bytes arrive; when the connection is closed or breaks after
  them, \<open>subscribe\<close> returns.\<close>

theorem subscribe_delivers:
  assumes "fine c" "channels \<noteq> []" "list_all reply_good confs" "length confs = length channels" "list_all event_good evs"
    and "pending c = concat (map reply_bytes confs) @ concat (map (\<lambda>(channel, payload). event_message channel payload) evs)"
    and "ending \<in> {Data [], OsError}"
  shows "\<exists>c'. tc_subscribe channels (until [ending] c) = (map seen_event evs, None, c')
           \<and> \<not> sock_open c' \<and> outgoing c' = outgoing c @ encode_command (''SUBSCRIBE'' # channels)"
proof -
  have m: "map (\<lambda>(channel, payload). event_message channel payload) evs = map (\<lambda>ev. reply_bytes (event_reply ev)) evs"
    by (auto simp: event_reply_bytes)
  obtain c1 where c1: "start_events channels (until [ending] c) = (None, until [ending] c1)" "fine c1"
    "pending c1 = concat (map (\<lambda>ev. reply_bytes (event_reply ev)) evs) @ []"
    "outgoing c1 = outgoing c @ encode_command (''SUBSCRIBE'' # channels)"
    using start_events_fine[OF assms(1-4)] assms(6) by (auto simp: m)
  from event_loop_events[OF assms(5) c1(2,3), of None "[ending]"] obtain c2 where
    c2: "fine c2" "pending c2 = []" "outgoing c2 = outgoing c1"
      "event_loop None (until [ending] c1) = (case event_loop None (until [ending] c2) of (es, e, c3) \<Rightarrow> (map seen_event evs @ es, e, c3))"
    by auto
  have "event_loop None (until [ending] c2) = ([], None, close_connection (c2\<lparr>incoming := []\<rparr>))"
    using parse_one_ended[OF c2(1,2) assms(7)] by (subst event_loop.simps) (simp add: passed_def)
  with c1(1,4) c2(3,4) show ?thesis by (simp add: tc_subscribe_def close_connection_def)
qed

theorem subscribe_delivers_witness:
  "\<exists>c'. tc_subscribe [''kv''] (until [Data []] (connect [Data (array [AStr ''subscribe'', AStr ''kv'', AInt 1] @ event_message ''kv'' (JObj [(''n'', JInt 1)]))]))
     = ([(VStr ''kv'', VDict [(VStr ''n'', VInt 1)])], None, c')"
proof -
  let ?conf = "Items [AStr ''subscribe'', AStr ''kv'', AInt 1]" and ?ev = "(''kv'', JObj [(''n'', JInt 1)])"
  let ?c = "connect [Data (array [AStr ''subscribe'', AStr ''kv'', AInt 1] @ event_message ''kv'' (JObj [(''n'', JInt 1)]))]"
  have v: "utf8_valid ''kv'' \<and> utf8_valid ''n'' \<and> utf8_valid ''subscribe'' \<and> utf8_valid (dumps (JObj [(''n'', JInt 1)]))" by code_simp
  have n: "array [AStr ''subscribe'', AStr ''kv'', AInt 1] \<noteq> []" by (simp add: array_def)
  have "fine ?c" using n by (simp add: fine_def healthy_def sends_def connect_def)
  moreover have "event_good ?ev" using v by (simp add: event_good_def dict_ok_def dict_keys_def del: dumps.simps)
  moreover have "pending ?c = concat (map reply_bytes [?conf]) @ concat (map (\<lambda>(channel, payload). event_message channel payload) [?ev])"
    by (simp add: pending_def connect_def)
  ultimately have "\<exists>c'. tc_subscribe [''kv''] (until [Data []] ?c) = (map seen_event [?ev], None, c')"
    using subscribe_delivers[of ?c "[''kv'']" "[?conf]" "[?ev]" "Data []"] v by (auto simp del: dumps.simps utf8_valid.simps)
  then show ?thesis by (simp add: seen_event_def del: dumps.simps utf8_valid.simps)
qed

text \<open>What leaving \<open>listen\<close> leaves unread.  It reads as many replies as it subscribed channels, whatever they are,
  so each event that arrives before the server's confirmations leaves one confirmation behind.\<close>

lemma listen_late_events:
  assumes "fine c" "channels \<noteq> []" "list_all reply_good confs" "length confs = length channels"
    and "list_all event_good evs" "list_all event_good late" "length late \<le> length channels"
    and "list_all reply_good ends" "length ends = length channels"
    and "pending c = concat (map reply_bytes confs) @ concat (map (\<lambda>ev. reply_bytes (event_reply ev)) evs)
           @ concat (map (\<lambda>ev. reply_bytes (event_reply ev)) late) @ concat (map reply_bytes ends) @ rest"
  shows "\<exists>c'. tc_listen (length evs) channels c = (map seen_event evs, None, c') \<and> fine c'
           \<and> pending c' = concat (map reply_bytes (drop (length ends - length late) ends)) @ rest
           \<and> outgoing c' = outgoing c @ encode_command (''SUBSCRIBE'' # channels) @ encode_command [''UNSUBSCRIBE'']"
proof -
  let ?l = "map event_reply late @ take (length ends - length late) ends"
  let ?r = "concat (map reply_bytes (drop (length ends - length late) ends)) @ rest"
  have split: "concat (map (\<lambda>ev. reply_bytes (event_reply ev)) late) @ concat (map reply_bytes ends) @ rest
      = concat (map reply_bytes ?l) @ ?r"
  proof -
    have "concat (map reply_bytes ends) = concat (map reply_bytes (take k ends)) @ concat (map reply_bytes (drop k ends))" for k
      by (metis append_take_drop_id concat_append map_append)
    from this[of "length ends - length late"] show ?thesis by (simp add: comp_def)
  qed
  obtain c1 where c1: "start_events channels c = (None, c1)" "fine c1"
    "pending c1 = concat (map (\<lambda>ev. reply_bytes (event_reply ev)) evs) @ concat (map reply_bytes ?l) @ ?r"
    "outgoing c1 = outgoing c @ encode_command (''SUBSCRIBE'' # channels)"
    using start_events_fine[OF assms(1-4), of _ "[]"] assms(10) unfolding split by auto
  from event_loop_events[OF assms(5) c1(2,3), of "Some 0" "[]"] obtain c2 where c2: "fine c2"
    "pending c2 = concat (map reply_bytes ?l) @ ?r" "outgoing c2 = outgoing c1"
    "event_loop (Some (length evs)) c1 = (case event_loop (Some 0) c2 of (es, e, c3) \<Rightarrow> (map seen_event evs @ es, e, c3))"
    by auto
  have e: "event_loop (Some 0) c2 = ([], None, c2)" by (simp add: event_loop.simps)
  let ?c3 = "c2\<lparr>outgoing := outgoing c2 @ encode_command [''UNSUBSCRIBE'']\<rparr>"
  have l: "list_all reply_good ?l" using assms(6,8) by (auto simp: list_all_iff event_reply_good dest: in_set_takeD)
  have n: "length ?l = length channels" using assms(7,9) by simp
  obtain c4 where "read_confirmations (length channels) ?c3 = (None, c4)" "fine c4" "pending c4 = ?r" "outgoing c4 = outgoing ?c3"
    using read_confirmations_fine[OF l, of ?c3 ?r "[]"] c2(1,2) n by auto
  then have "stop_events (length channels) c2 = c4"
    using send_fine[OF c2(1), of _ "[]"] by (simp add: stop_events_def)
  with c1(1,4) c2(3,4) e \<open>fine c4\<close> \<open>pending c4 = ?r\<close> \<open>outgoing c4 = outgoing ?c3\<close> show ?thesis
    by (simp add: tc_listen_def)
qed

text \<open>C40: \<open>listen\<close> yields the published events, in order and with their payloads; a caller that leaves it after some
  of them finds the connection clean when no event was published in between: the subscription is
  cancelled, the confirmations are read, and what comes next is the reply to the next command.\<close>

theorem listen_leaves_clean:
  assumes "fine c" "channels \<noteq> []" "list_all reply_good confs" "length confs = length channels"
    and "list_all event_good evs" "list_all reply_good ends" "length ends = length channels"
    and "pending c = concat (map reply_bytes confs) @ concat (map (\<lambda>(channel, payload). event_message channel payload) evs)
           @ concat (map reply_bytes ends) @ rest"
  shows "\<exists>c'. tc_listen (length evs) channels c = (map seen_event evs, None, c') \<and> fine c' \<and> pending c' = rest
           \<and> outgoing c' = outgoing c @ encode_command (''SUBSCRIBE'' # channels) @ encode_command [''UNSUBSCRIBE'']"
proof -
  have m: "map (\<lambda>(channel, payload). event_message channel payload) evs = map (\<lambda>ev. reply_bytes (event_reply ev)) evs"
    by (auto simp: event_reply_bytes)
  show ?thesis
    using listen_late_events[OF assms(1-5), of "[]" ends rest] assms(6-8) by (simp add: m)
qed

theorem listen_leaves_clean_witness:
  "\<exists>c'. tc_listen 1 [''kv''] (connect [Data (array [AStr ''subscribe'', AStr ''kv'', AInt 1] @ event_message ''kv'' JNull
            @ array [AStr ''unsubscribe'', AStr ''kv'', AInt 0] @ simple_string ''PONG'')])
     = ([(VStr ''kv'', VNone)], None, c') \<and> pending c' = simple_string ''PONG''"
proof -
  let ?conf = "Items [AStr ''subscribe'', AStr ''kv'', AInt 1]" and ?ev = "(''kv'', JNull)"
    and ?leave = "Items [AStr ''unsubscribe'', AStr ''kv'', AInt 0]"
  let ?c = "connect [Data (array [AStr ''subscribe'', AStr ''kv'', AInt 1] @ event_message ''kv'' JNull
            @ array [AStr ''unsubscribe'', AStr ''kv'', AInt 0] @ simple_string ''PONG'')]"
  have v: "utf8_valid ''kv''" "utf8_valid ''subscribe''" "utf8_valid ''unsubscribe''" by code_simp+
  have n: "array [AStr ''subscribe'', AStr ''kv'', AInt 1] \<noteq> []" by (simp add: array_def)
  have "fine ?c" using n by (simp add: fine_def healthy_def sends_def connect_def)
  moreover have "list_all event_good [?ev]" using v by (simp add: event_good_def)
  moreover have "pending ?c = concat (map reply_bytes [?conf]) @ concat (map (\<lambda>(channel, payload). event_message channel payload) [?ev])
      @ concat (map reply_bytes [?leave]) @ simple_string ''PONG''"
    by (simp add: pending_def connect_def)
  ultimately have "\<exists>c'. tc_listen (length [?ev]) [''kv''] ?c = (map seen_event [?ev], None, c') \<and> pending c' = simple_string ''PONG''"
    using listen_leaves_clean[of ?c "[''kv'']" "[?conf]" "[?ev]" "[?leave]" "simple_string ''PONG''"] v
    by (auto simp del: utf8_valid.simps)
  then show ?thesis by (simp add: seen_event_def)
qed

end
