(* ===== verification/Spec2Isabelle.thy ===== *)
theory Spec2Isabelle
  imports Safety Lifecycle Bus Transports ClientPipeline ClientEvents
begin

text \<open>
  TestCore: a model of the instrument server and of its Python client, and the theorems that make them
  correct.

  \<^bold>\<open>The program.\<close>  TestCore (\<open>src/testcore\<close>) is an asyncio server that lets sessions share laboratory
  instruments.  A session sends commands in the RESP protocol; the server parses them
  (\<open>protocol.py\<close>), dispatches them one at a time (\<open>server.py\<close>, \<open>commands.py\<close>) and answers.  The commands
  work on a key-value store with read-only keys and measurements (\<open>store.py\<close>), on the registry of
  instruments (\<open>instruments.py\<close>), whose drivers (\<open>base_driver.py\<close>, \<open>drivers/\<close>) talk to hardware through
  transports (\<open>transport.py\<close>), on a journal of commands (\<open>journal.py\<close>) and on an event bus (\<open>events.py\<close>).
  Background tasks read guarded resources (\<open>watch.py\<close>) and ping instruments (\<open>health.py\<close>).  The client
  (\<open>src/testcore_client\<close>) has its own parser and reply reader (\<open>connection.py\<close>), a method per command,
  pipelines and two loops for events (\<open>client.py\<close>), and exceptions for error replies (\<open>exceptions.py\<close>).
\<close>

section \<open>Which theory models what\<close>

text \<open>
  \<^bold>\<open>Shared.\<close>
  \<^item> \<open>Prelude\<close>: Python's \<open>dict\<close> as an association list, with its laws as the locale \<open>dictionary\<close>; the
    locale \<open>owned_by_session\<close> (what a session owns survives the operations of the others).
  \<^item> \<open>PyText\<close>, \<open>PyFloat\<close>, \<open>Json\<close>, \<open>JsonDecode\<close>, \<open>Glob\<close>: what the code uses of the standard library:
    strings and \<open>int\<close>, \<open>float\<close> with \<open>repr\<close>, \<open>json.dumps\<close>, \<open>json.loads\<close>, \<open>fnmatch\<close>.
  \<^item> \<open>Environment\<close>: the outside world of the server (driver objects, transports, files, clocks, sockets)
    as the parameter \<open>env\<close>; \<open>Lab\<close> is an instance of it with the bundled drivers, \<open>Sample\<close> a small server
    state on which the properties are applied.

  \<^bold>\<open>Server.\<close>
  \<^item> \<open>Protocol\<close>, \<open>ProtocolStream\<close>: \<open>RESPParser\<close> and \<open>RESPSerializer\<close>; the parser on a byte stream, with
    the locales \<open>stream_parser\<close>, \<open>frame_codec\<close> and \<open>framed_stream\<close>.
  \<^item> \<open>Store\<close>, \<open>Journal\<close>, \<open>Events\<close>: \<open>KeyValueStore\<close>, \<open>Journal\<close> (locale \<open>ring_buffer\<close>) and \<open>EventBus\<close>; \<open>Bus\<close>
    shows that the bus refines a set of pairs.
  \<^item> \<open>Instruments\<close>: \<open>InstrumentRegistry\<close>, the states of an instrument, the guarded driver calls
    (\<open>_call_driver\<close>, \<open>_tracked_call\<close>) and the driver lookup of \<open>drivers/__init__.py\<close>.
  \<^item> \<open>ServerState\<close>: the record \<open>server\<close> of everything the process holds (registry, store, journal, bus,
    guards, health checks, sessions), how events and replies are written, and the background tasks
    \<open>WatchManager\<close> and \<open>HealthMonitor\<close>.
  \<^item> \<open>CommandsStore\<close>, \<open>CommandsInstrument\<close>, \<open>CommandsServer\<close>: one definition per handler of
    \<open>commands.py\<close>, under the handler's name.
  \<^item> \<open>Dispatch\<close>: \<open>CommandDispatcher.dispatch\<close>, \<open>ClientHandler\<close> and \<open>TestCoreServer\<close>: connecting, receiving,
    closing, start and stop, the bench file, and \<open>__main__.py\<close> from parsed arguments on.
  \<^item> \<open>Drivers\<close>, \<open>Transports\<close>: \<open>ScpiDriver\<close>, the three bundled drivers, and the transports, the TCP one down
    to its socket.

  \<^bold>\<open>Client.\<close>  \<open>ClientConnection\<close> (\<open>connection.py\<close>, \<open>exceptions.py\<close>), \<open>ClientApi\<close> (class \<open>TestCore\<close>),
  \<open>ClientPipeline\<close> (class \<open>Pipeline\<close>), \<open>ClientEvents\<close> (\<open>subscribe\<close> and \<open>listen\<close>).

  \<^bold>\<open>Behaviour across components.\<close>
  \<^item> \<open>CommandInvariant\<close>: the locale \<open>session_invariant\<close>; from closure under the primitive changes of the
    handlers it follows that every command keeps an invariant.  It is interpreted twice: in \<open>System\<close> for
    the invariant of reachable states and in \<open>Locks\<close> for a lock held by another session.
  \<^item> \<open>System\<close>: the server as a transition system, \<open>event\<close> and \<open>reachable\<close>.
  \<^item> \<open>Locks\<close>, \<open>Lifecycle\<close>, \<open>Supervision\<close>: locking; adding, initialising, resetting and guarding an
    instrument; driver calls, guards and health checks.
  \<^item> \<open>Wire\<close>: client method, wire, server and back.  \<open>Safety\<close>: the end of a session, the end of the
    server, the reachable states, and a value's way to the simulated instrument and back.

  State corresponds to the code's objects field by field.  A handler is a function of its arguments, its
  context and the server state; the exceptions the code raises are values of the type \<open>exn\<close>, those of
  the client of \<open>client_exn\<close> and \<open>api_exn\<close>.
\<close>

section \<open>What is proved\<close>

text \<open>
  \<^item> The protocol: commands survive any chunking, no complete message stays in the buffer, the buffer is
    bounded, the two parsers agree, and commands and pipelines of replies read back as written.
  \<^item> The store: an invariant over any history, safety of read-only keys, \<open>KMSET\<close>, \<open>KDEL\<close>, \<open>KKEYS\<close> and
    the separation of measurements; the journal as a bounded log; the bus as a set.
  \<^item> Instruments: locks are exclusive and survive everything other sessions do; locking and unlocking;
    what a stranger is refused; outcomes of adding, initialising, resetting, reading and pinging in
    every state and for every way a driver call ends; guards.
  \<^item> The server: the invariant of its reachable states, what the end of a session releases and keeps,
    its bounds, and what is left when it stops.
  \<^item> Both programs: values written with \<open>kset\<close> and \<open>iwrite\<close> come back with \<open>kget\<close> and \<open>iread\<close>, measurements
    and the lock table arrive as the server holds them, refusals arrive as exceptions, events arrive in
    order, and a pipeline is its commands one after another.
  \<^item> Drivers and transports: the command tree of the waveform generator, and TCP queries.

  Some behaviour is proved that the documentation does not announce; these are lemmas, not promises:
  \<open>socket_query_hangs\<close> (\<open>Transports\<close>), \<open>guard_dies_silently\<close> (\<open>Supervision\<close>),
  \<open>iunlock_by_stranger_stops_guards\<close> (\<open>Locks\<close>), \<open>reset_orphans_lock\<close> (\<open>Lifecycle\<close>) and
  \<open>listen_late_events\<close> (\<open>ClientEvents\<close>).
\<close>

section \<open>How the code is read\<close>

text \<open>
  \<^bold>\<open>Text and numbers.\<close>  A \<open>str\<close> is its UTF-8 encoding.  \<open>upper\<close>, \<open>lower\<close>, \<open>isdigit\<close>, \<open>int\<close> and \<open>float\<close>
  act on ASCII, and \<open>int\<close> has no limit on the number of digits (Python stops at 4300).  \<open>repr\<close> of a string
  keeps every character beyond ASCII.  A lone surrogate of JSON becomes its three bytes.  \<open>sum\<close> adds from
  left to right, as up to Python 3.11.  \<open>float_good\<close>, the hypothesis that \<open>repr\<close> of a finite float reads
  back, is documented behaviour of Python; it computes, and the witnesses discharge it.

  \<^bold>\<open>Recursion and fuel.\<close>  The two parsers recurse once per level of nesting, without Python's recursion
  limit.  The loops on text (splitting, stripping, scanning of JSON values) take the length of what is left
  as fuel, and each step consumes a character.  \<open>socket_query\<close> answers \<open>None\<close> when it never returns.  The
  client's loops end because the list of what \<open>recv\<close> will do is finite.

  \<^bold>\<open>Steps.\<close>  asyncio's scheduling is a choice of events.  One step is: all messages of a chunk, the closing
  of a session, one turn of a guard or health check, or one publication started with \<open>create_task\<close>
  (the list \<open>spawned\<close>).  In the code a step can be interrupted where it awaits: the dispatcher's lock keeps
  commands apart, but a background task or another session's closing may run between the messages of a
  chunk.  A driver call holds the instrument's lock, so the flag \<open>_busy\<close> has no field.  A task of a guard or
  a health check is reached by its name; a session whose task was cancelled before it started counts as
  closed.  A client that is turned away has the id 0 in \<open>sent\<close>.

  \<^bold>\<open>Outside.\<close>  \<open>env\<close> and its world are arbitrary: every driver call may return, raise a driver error, time
  out or raise anything else, and may change the world.  Driver objects are handles.  pyvisa, pyserial and
  driver files outside the repository are parameters.  A client's socket is the list of what its calls of
  \<open>recv\<close> will do; a connection attempt succeeds.  A caller of \<open>listen\<close> leaves after a given number of
  events, at least one; callbacks do not raise.

  \<^bold>\<open>Sharing.\<close>  Where the source writes the same translation of a reply in a method of \<open>TestCore\<close> and of
  \<open>Pipeline\<close>, the model has one definition.  \<open>UnicodeDecodeError\<close> is the case \<open>BadUtf8\<close> of the parsers'
  error type.  A set is visited in the order of insertion.  \<open>InstrumentRegistry.lock\<close> is modelled as
  \<open>registry_lock\<close>; \<open>ILOCK\<close> does not call it but locks in place (\<open>take_lock\<close>), as in the source.
\<close>

section \<open>What is not modelled\<close>

text \<open>
  Logging, the text of the command line's help, the abstract base classes \<open>BaseDriver\<close> and \<open>Transport\<close>
  (only signatures), the re-exports of the packages, the TCP listener and the signal handling of asyncio, and
  the command line client in C (\<open>src/cli\<close>).
\<close>

end
